(* ===== verification/Prelude.thy ===== *)
theory Prelude
  imports Main
begin

section \<open>Prelude: results, exceptions and shared lemmas\<close>

text \<open>
  What every component of the development shares: the exceptions of the program as one
  datatype, results as sums (\<open>Inl\<close> is a raised exception), sequencing of effects by
  explicit state passing, and the list and sum lemmas the components use.

  The two collections: \<open>err_simps\<close> unfolds the sequencing operators, \<open>list_facts\<close>
  holds generic facts on lists that the string and table components share.
\<close>

named_theorems err_simps "sequencing of computations that may raise"
named_theorems list_facts "generic list facts"

subsection \<open>Exceptions\<close>

text \<open>
  The exceptions that some \<open>except\<close> clause of the source tells apart. Everything else
  (a database error that is not an integrity violation, an error of the OpenAI or CrewAI
  packages, ...) is \<open>OtherExc\<close>. The string is \<open>str(exc)\<close>.
\<close>

datatype exc =
    RedisError string
  | IntegrityError string
  | JWTError string
  | ValueError string
  | KeyError string
  | AttributeError string
  | RuntimeError string
  | IdempotencyBackendUnavailable string
  | TicketCreationInProgress string
  | CustomerNotFound string
  | HTTPException nat string
  | OtherExc string

fun exc_str :: "exc \<Rightarrow> string" where
  "exc_str (RedisError m) = m"
| "exc_str (IntegrityError m) = m"
| "exc_str (JWTError m) = m"
| "exc_str (ValueError m) = m"
| "exc_str (KeyError m) = m"
| "exc_str (AttributeError m) = m"
| "exc_str (RuntimeError m) = m"
| "exc_str (IdempotencyBackendUnavailable m) = m"
| "exc_str (TicketCreationInProgress k) =
     ''Ticket creation for idempotency key '' @ k @ '' is in progress''"
| "exc_str (CustomerNotFound c) = ''Customer '' @ c @ '' not found''"
| "exc_str (HTTPException n d) = d"
| "exc_str (OtherExc m) = m"

text \<open>A failed Pydantic validation: \<^verbatim>\<open>ValidationError\<close> is a subclass of \<^verbatim>\<open>ValueError\<close>.\<close>

definition validation_error :: exc where "validation_error = ValueError ''validation error''"

subsection \<open>Computations that may raise and that change a state\<close>

text \<open>
  A method of the source that may raise and that changes a state \<open>'s\<close> is a function
  \<open>'s \<Rightarrow> (exc + 'a) \<times> 's\<close>: the effects made before an exception stay made.
\<close>

type_synonym ('a, 's) comp = "'s \<Rightarrow> (exc + 'a) \<times> 's"

definition ret :: "'a \<Rightarrow> ('a, 's) comp" where
  "ret a s = (Inr a, s)"

definition raise :: "exc \<Rightarrow> ('a, 's) comp" where
  "raise e s = (Inl e, s)"

definition bind :: "('a, 's) comp \<Rightarrow> ('a \<Rightarrow> ('b, 's) comp) \<Rightarrow> ('b, 's) comp" where
  "bind m f s = (case m s of (Inl e, s') \<Rightarrow> (Inl e, s') | (Inr a, s') \<Rightarrow> f a s')"

definition catch :: "('a, 's) comp \<Rightarrow> (exc \<Rightarrow> ('a, 's) comp) \<Rightarrow> ('a, 's) comp" where
  "catch m h s = (case m s of (Inl e, s') \<Rightarrow> h e s' | (Inr a, s') \<Rightarrow> (Inr a, s'))"

definition lift_sum :: "exc + 'a \<Rightarrow> ('a, 's) comp" where
  "lift_sum x = (case x of Inl e \<Rightarrow> raise e | Inr a \<Rightarrow> ret a)"

lemma ret_apply [simp, err_simps]: "ret a s = (Inr a, s)"
  by (simp add: ret_def)

lemma raise_apply [simp, err_simps]: "raise e s = (Inl e, s)"
  by (simp add: raise_def)

lemma bind_Inr [err_simps]: "m s = (Inr a, s') \<Longrightarrow> bind m f s = f a s'"
  by (simp add: bind_def)

lemma bind_Inl [err_simps]: "m s = (Inl e, s') \<Longrightarrow> bind m f s = (Inl e, s')"
  by (simp add: bind_def)

lemma catch_Inr [err_simps]: "m s = (Inr a, s') \<Longrightarrow> catch m h s = (Inr a, s')"
  by (simp add: catch_def)

lemma catch_Inl [err_simps]: "m s = (Inl e, s') \<Longrightarrow> catch m h s = h e s'"
  by (simp add: catch_def)

lemma bind_eq_Inr_iff:
  "bind m f s = (Inr b, s'') \<longleftrightarrow> (\<exists>a s'. m s = (Inr a, s') \<and> f a s' = (Inr b, s''))"
  by (auto simp: bind_def split: prod.splits sum.splits)

lemma bind_assoc: "bind (bind m f) g = bind m (\<lambda>a. bind (f a) g)"
  by (auto simp: bind_def fun_eq_iff split: prod.splits sum.splits)

lemma ret_bind [simp]: "bind (ret a) f = f a"
  by (simp add: bind_def fun_eq_iff)

lemma raise_bind [simp]: "bind (raise e) f = raise e"
  by (simp add: bind_def fun_eq_iff)

lemma bind_ret [simp]: "bind m ret = m"
  by (auto simp: bind_def fun_eq_iff split: prod.splits sum.splits)

lemma catch_total: "(\<And>e s. \<exists>a s'. h e s = (Inr a, s')) \<Longrightarrow> \<exists>a s'. catch m h s = (Inr a, s')"
  by (auto simp: catch_def split: prod.splits sum.splits)

text \<open>
  \<open>returns m\<close>: \<open>m\<close> never raises. \<open>steps R m\<close>: whatever \<open>m\<close> answers, the state before and after
  are related by \<open>R\<close>; for a reflexive and transitive \<open>R\<close> it composes along \<open>bind\<close> and \<open>catch\<close>, and
  \<open>keeps I\<close> is the invariant \<open>I\<close> as such a relation.
\<close>

definition returns :: "('a, 's) comp \<Rightarrow> bool" where
  "returns m \<longleftrightarrow> (\<forall>s. \<exists>a s'. m s = (Inr a, s'))"

definition steps :: "('s \<Rightarrow> 's \<Rightarrow> bool) \<Rightarrow> ('a, 's) comp \<Rightarrow> bool" where
  "steps R m \<longleftrightarrow> (\<forall>s. R s (snd (m s)))"

definition keeps :: "('s \<Rightarrow> bool) \<Rightarrow> 's \<Rightarrow> 's \<Rightarrow> bool" where
  "keeps I s s' \<longleftrightarrow> (I s \<longrightarrow> I s')"

named_theorems step_rules "composition of step relations"

lemma stepsD: "steps R m \<Longrightarrow> m s = (a, s') \<Longrightarrow> R s s'"
  unfolding steps_def by (metis snd_conv)

lemma steps_apply: "steps R m \<Longrightarrow> R s (snd (m s))"
  by (simp add: steps_def)

lemma steps_mono: "steps R m \<Longrightarrow> (\<And>s s'. R s s' \<Longrightarrow> Q s s') \<Longrightarrow> steps Q m"
  by (simp add: steps_def)

lemma steps_ret [step_rules]: "reflp R \<Longrightarrow> steps R (ret a)"
  by (simp add: steps_def reflpD)

lemma steps_raise [step_rules]: "reflp R \<Longrightarrow> steps R (raise e)"
  by (simp add: steps_def reflpD)

lemma steps_bind [step_rules]:
  assumes "transp R" "steps R m" "\<And>a. steps R (f a)"
  shows "steps R (bind m f)"
  unfolding steps_def
proof
  fix s
  show "R s (snd (bind m f s))"
    using stepsD [OF assms(2), of s] stepsD [OF assms(3)] transpD [OF assms(1)]
    by (cases "m s"; cases "fst (m s)") (auto simp: bind_def, metis prod.collapse)
qed

lemma steps_catch [step_rules]:
  assumes "transp R" "steps R m" "\<And>e. steps R (h e)"
  shows "steps R (catch m h)"
  unfolding steps_def
proof
  fix s
  show "R s (snd (catch m h s))"
    using stepsD [OF assms(2), of s] stepsD [OF assms(3)] transpD [OF assms(1)]
    by (cases "m s"; cases "fst (m s)") (auto simp: catch_def, metis prod.collapse)
qed

lemma reflp_keeps [simp, step_rules]: "reflp (keeps I)"
  by (simp add: keeps_def reflp_def)

lemma transp_keeps [simp, step_rules]: "transp (keeps I)"
  by (simp add: keeps_def transp_def)

lemma returns_ret: "returns (ret a)"
  by (simp add: returns_def)

lemma returns_catch: "(\<And>e. returns (h e)) \<Longrightarrow> returns (catch m h)"
  unfolding returns_def by (intro allI catch_total) blast

lemma returnsD: "returns m \<Longrightarrow> \<exists>a s'. m s = (Inr a, s')"
  by (simp add: returns_def)

subsection \<open>Lists\<close>

lemma takeWhile_dropWhile_split [list_facts]:
  "xs = takeWhile P xs @ dropWhile P xs"
  by simp

lemma length_dropWhile_less:
  "xs \<noteq> [] \<Longrightarrow> P (hd xs) \<Longrightarrow> length (dropWhile P xs) < length xs"
  by (cases xs) (auto simp: le_imp_less_Suc length_dropWhile_le)

lemma dropWhile_idem [simp]: "dropWhile P (dropWhile P xs) = dropWhile P xs"
  by (induction xs) auto

lemma dropWhile_hd: "dropWhile P xs \<noteq> [] \<Longrightarrow> \<not> P (hd (dropWhile P xs))"
  by (rule hd_dropWhile)

lemma map_dropWhile_comm:
  "(\<And>x. P (f x) = P x) \<Longrightarrow> dropWhile P (map f xs) = map f (dropWhile P xs)"
  by (induction xs) auto

lemma map_takeWhile_comm:
  "(\<And>x. P (f x) = P x) \<Longrightarrow> takeWhile P (map f xs) = map f (takeWhile P xs)"
  by (induction xs) auto

end
