(* ===== verification/Redis.thy ===== *)
theory Redis
  imports Prelude
begin

section \<open>The Redis client as a parameter\<close>

text \<open>
  Redis is a service and \<^verbatim>\<open>redis.asyncio\<close> a third-party package, so the model takes the client as
  a parameter: a record of the four commands the source issues, each a function on a client
  state of an arbitrary type \<open>'r\<close>, and \<open>rc_view\<close>, the keys that are live in that state.
  \<open>redis_laws\<close> is the documented behaviour the source relies on:

    \<^item> a command raises nothing but a \<^verbatim>\<open>redis.RedisError\<close>;
    \<^item> a key may expire at any command, so every law bounds the new view from above;
    \<^item> a write that raised may or may not have reached the server;
    \<^item> \<open>SET NX\<close> answers true only when it wrote, and false only when the key was there.

  \<open>redis_steady\<close> is the stronger behaviour of a reachable server at a moment when nothing
  expires; the properties about replays use it. \<open>no_expiry\<close> says that keys never time out (the
  idempotency records live for a day). \<open>mem_redis\<close>, a map and a flag that says whether
  the server is reachable, satisfies all three and is what the witnesses compute with.
\<close>

record 'r redis_client =
  rc_get :: "string \<Rightarrow> (string option, 'r) comp"
  rc_set :: "string \<Rightarrow> string \<Rightarrow> int \<Rightarrow> (unit, 'r) comp"
  rc_set_nx :: "string \<Rightarrow> string \<Rightarrow> int \<Rightarrow> (bool, 'r) comp"
  rc_delete :: "string \<Rightarrow> (unit, 'r) comp"
  rc_view :: "'r \<Rightarrow> string \<rightharpoonup> string"

definition is_redis_error :: "exc \<Rightarrow> bool" where
  "is_redis_error e \<longleftrightarrow> (case e of RedisError _ \<Rightarrow> True | _ \<Rightarrow> False)"

definition get_law :: "'r redis_client \<Rightarrow> bool" where
  "get_law R \<longleftrightarrow> (\<forall>k r a r'. rc_get R k r = (a, r') \<longrightarrow>
     rc_view R r' \<subseteq>\<^sub>m rc_view R r \<and>
     (case a of Inl e \<Rightarrow> is_redis_error e | Inr v \<Rightarrow> v = rc_view R r' k))"

definition set_law :: "'r redis_client \<Rightarrow> bool" where
  "set_law R \<longleftrightarrow> (\<forall>k v ttl r a r'. rc_set R k v ttl r = (a, r') \<longrightarrow>
     (case a of
        Inl e \<Rightarrow> is_redis_error e \<and>
          (rc_view R r' \<subseteq>\<^sub>m rc_view R r \<or> rc_view R r' \<subseteq>\<^sub>m (rc_view R r)(k \<mapsto> v))
      | Inr _ \<Rightarrow> rc_view R r' \<subseteq>\<^sub>m (rc_view R r)(k \<mapsto> v) \<and> rc_view R r' k = Some v))"

definition set_nx_law :: "'r redis_client \<Rightarrow> bool" where
  "set_nx_law R \<longleftrightarrow> (\<forall>k v ttl r a r'. rc_set_nx R k v ttl r = (a, r') \<longrightarrow>
     (case a of
        Inl e \<Rightarrow> is_redis_error e \<and>
          (rc_view R r' \<subseteq>\<^sub>m rc_view R r \<or> rc_view R r' \<subseteq>\<^sub>m (rc_view R r)(k \<mapsto> v))
      | Inr True \<Rightarrow> rc_view R r' \<subseteq>\<^sub>m (rc_view R r)(k \<mapsto> v) \<and> rc_view R r' k = Some v
      | Inr False \<Rightarrow> rc_view R r' \<subseteq>\<^sub>m rc_view R r \<and> k \<in> dom (rc_view R r)))"

definition delete_law :: "'r redis_client \<Rightarrow> bool" where
  "delete_law R \<longleftrightarrow> (\<forall>k r a r'. rc_delete R k r = (a, r') \<longrightarrow>
     (case a of
        Inl e \<Rightarrow> is_redis_error e \<and> rc_view R r' \<subseteq>\<^sub>m rc_view R r
      | Inr _ \<Rightarrow> rc_view R r' \<subseteq>\<^sub>m (rc_view R r)(k := None)))"

definition redis_laws :: "'r redis_client \<Rightarrow> bool" where
  "redis_laws R \<longleftrightarrow> get_law R \<and> set_law R \<and> set_nx_law R \<and> delete_law R"

text \<open>A reachable server while no key expires, for the next two commands: they answer, exactly.\<close>

definition redis_answers :: "'r redis_client \<Rightarrow> 'r \<Rightarrow> bool" where
  "redis_answers R r \<longleftrightarrow> (\<forall>k. \<exists>r'. rc_get R k r = (Inr (rc_view R r k), r') \<and> rc_view R r' = rc_view R r)"

definition redis_steady :: "'r redis_client \<Rightarrow> 'r \<Rightarrow> bool" where
  "redis_steady R r \<longleftrightarrow> redis_answers R r \<and>
     (\<forall>k v ttl. \<exists>r'. rc_set_nx R k v ttl r = (Inr (rc_view R r k = None), r') \<and> redis_answers R r' \<and>
        rc_view R r' = (if rc_view R r k = None then (rc_view R r)(k \<mapsto> v) else rc_view R r))"

text \<open>A server on which no key expires: a command changes no other key, and a claim no key that is there.\<close>

definition no_expiry :: "'r redis_client \<Rightarrow> bool" where
  "no_expiry R \<longleftrightarrow>
     (\<forall>k r. rc_view R (snd (rc_get R k r)) = rc_view R r)
     \<and> (\<forall>k v ttl r j. j \<noteq> k \<longrightarrow> rc_view R (snd (rc_set R k v ttl r)) j = rc_view R r j)
     \<and> (\<forall>k v ttl r j. j \<noteq> k \<or> rc_view R r k \<noteq> None \<longrightarrow> rc_view R (snd (rc_set_nx R k v ttl r)) j = rc_view R r j)
     \<and> (\<forall>k v ttl r. rc_view R r k \<noteq> None \<longrightarrow> fst (rc_set_nx R k v ttl r) \<noteq> Inr True)
     \<and> (\<forall>k r j. j \<noteq> k \<longrightarrow> rc_view R (snd (rc_delete R k r)) j = rc_view R r j)"

subsection \<open>What the laws give\<close>

lemma is_redis_error_iff: "is_redis_error e \<longleftrightarrow> (\<exists>m. e = RedisError m)"
  by (cases e) (auto simp: is_redis_error_def)

lemma rc_get_cases:
  assumes "redis_laws R" and "rc_get R k r = (a, r')"
  obtains e where "a = Inl (RedisError e)" and "rc_view R r' \<subseteq>\<^sub>m rc_view R r"
    | "a = Inr (rc_view R r' k)" and "rc_view R r' \<subseteq>\<^sub>m rc_view R r"
proof -
  have "rc_view R r' \<subseteq>\<^sub>m rc_view R r \<and>
     (case a of Inl e \<Rightarrow> is_redis_error e | Inr v \<Rightarrow> v = rc_view R r' k)"
    using assms unfolding redis_laws_def get_law_def by metis
  then show thesis
    using that by (cases a) (auto simp: is_redis_error_iff)
qed

lemma rc_set_cases:
  assumes "redis_laws R" and "rc_set R k v ttl r = (a, r')"
  obtains e where "a = Inl (RedisError e)"
      and "rc_view R r' \<subseteq>\<^sub>m rc_view R r \<or> rc_view R r' \<subseteq>\<^sub>m (rc_view R r)(k \<mapsto> v)"
    | "a = Inr ()" and "rc_view R r' \<subseteq>\<^sub>m (rc_view R r)(k \<mapsto> v)" and "rc_view R r' k = Some v"
proof -
  have "case a of
        Inl e \<Rightarrow> is_redis_error e \<and>
          (rc_view R r' \<subseteq>\<^sub>m rc_view R r \<or> rc_view R r' \<subseteq>\<^sub>m (rc_view R r)(k \<mapsto> v))
      | Inr _ \<Rightarrow> rc_view R r' \<subseteq>\<^sub>m (rc_view R r)(k \<mapsto> v) \<and> rc_view R r' k = Some v"
    using assms unfolding redis_laws_def set_law_def by metis
  then show thesis
    using that by (cases a) (auto simp: is_redis_error_iff)
qed

lemma rc_set_nx_cases:
  assumes "redis_laws R" and "rc_set_nx R k v ttl r = (a, r')"
  obtains e where "a = Inl (RedisError e)"
      and "rc_view R r' \<subseteq>\<^sub>m rc_view R r \<or> rc_view R r' \<subseteq>\<^sub>m (rc_view R r)(k \<mapsto> v)"
    | "a = Inr True" and "rc_view R r' \<subseteq>\<^sub>m (rc_view R r)(k \<mapsto> v)" and "rc_view R r' k = Some v"
    | "a = Inr False" and "rc_view R r' \<subseteq>\<^sub>m rc_view R r" and "k \<in> dom (rc_view R r)"
proof -
  have "case a of
        Inl e \<Rightarrow> is_redis_error e \<and>
          (rc_view R r' \<subseteq>\<^sub>m rc_view R r \<or> rc_view R r' \<subseteq>\<^sub>m (rc_view R r)(k \<mapsto> v))
      | Inr True \<Rightarrow> rc_view R r' \<subseteq>\<^sub>m (rc_view R r)(k \<mapsto> v) \<and> rc_view R r' k = Some v
      | Inr False \<Rightarrow> rc_view R r' \<subseteq>\<^sub>m rc_view R r \<and> k \<in> dom (rc_view R r)"
    using assms unfolding redis_laws_def set_nx_law_def by metis
  then show thesis
    using that by (cases a) (auto simp: is_redis_error_iff split: bool.splits)
qed

lemma rc_delete_cases:
  assumes "redis_laws R" and "rc_delete R k r = (a, r')"
  obtains e where "a = Inl (RedisError e)" and "rc_view R r' \<subseteq>\<^sub>m rc_view R r"
    | "a = Inr ()" and "rc_view R r' \<subseteq>\<^sub>m (rc_view R r)(k := None)"
proof -
  have "case a of
        Inl e \<Rightarrow> is_redis_error e \<and> rc_view R r' \<subseteq>\<^sub>m rc_view R r
      | Inr _ \<Rightarrow> rc_view R r' \<subseteq>\<^sub>m (rc_view R r)(k := None)"
    using assms unfolding redis_laws_def delete_law_def by metis
  then show thesis
    using that by (cases a) (auto simp: is_redis_error_iff)
qed

lemma map_le_SomeD: "m \<subseteq>\<^sub>m n \<Longrightarrow> m k = Some v \<Longrightarrow> n k = Some v"
  by (metis domI map_le_def)

subsection \<open>A client that satisfies the laws\<close>

type_synonym mem_state = "(string \<rightharpoonup> string) \<times> bool"

definition unreachable :: exc where
  "unreachable = RedisError ''Connection refused''"

definition mem_redis :: "mem_state redis_client" where
  "mem_redis = \<lparr>
     rc_get = (\<lambda>k (m, up). if up then (Inr (m k), (m, up)) else (Inl unreachable, (m, up))),
     rc_set = (\<lambda>k v ttl (m, up). if up then (Inr (), (m(k \<mapsto> v), up)) else (Inl unreachable, (m, up))),
     rc_set_nx = (\<lambda>k v ttl (m, up).
        if \<not> up then (Inl unreachable, (m, up))
        else if m k = None then (Inr True, (m(k \<mapsto> v), up)) else (Inr False, (m, up))),
     rc_delete = (\<lambda>k (m, up). if up then (Inr (), (m(k := None), up)) else (Inl unreachable, (m, up))),
     rc_view = fst \<rparr>"

lemma mem_redis_simps [simp]:
  "rc_get mem_redis k (m, up) = (if up then Inr (m k) else Inl unreachable, (m, up))"
  "rc_set mem_redis k v ttl (m, up) = (if up then (Inr (), (m(k \<mapsto> v), up)) else (Inl unreachable, (m, up)))"
  "rc_set_nx mem_redis k v ttl (m, up) =
     (if \<not> up then (Inl unreachable, (m, up))
      else if m k = None then (Inr True, (m(k \<mapsto> v), up)) else (Inr False, (m, up)))"
  "rc_delete mem_redis k (m, up) = (if up then (Inr (), (m(k := None), up)) else (Inl unreachable, (m, up)))"
  "rc_view mem_redis s = fst s"
  by (simp_all add: mem_redis_def)

lemma mem_redis_laws [simp]: "redis_laws mem_redis"
  unfolding redis_laws_def get_law_def set_law_def set_nx_law_def delete_law_def
  by (auto simp: mem_redis_def unreachable_def is_redis_error_def split: if_splits)

lemma mem_redis_steady [simp]: "redis_steady mem_redis (m, True)"
  unfolding redis_steady_def redis_answers_def by auto

lemma mem_redis_no_expiry [simp]: "no_expiry mem_redis"
  unfolding no_expiry_def by (auto simp: mem_redis_def)

text \<open>The same without the flag: a server that is always reachable.\<close>

definition live_redis :: "(string \<rightharpoonup> string) redis_client" where
  "live_redis = \<lparr>
     rc_get = (\<lambda>k m. (Inr (m k), m)),
     rc_set = (\<lambda>k v ttl m. (Inr (), m(k \<mapsto> v))),
     rc_set_nx = (\<lambda>k v ttl m. if m k = None then (Inr True, m(k \<mapsto> v)) else (Inr False, m)),
     rc_delete = (\<lambda>k m. (Inr (), m(k := None))),
     rc_view = (\<lambda>m. m) \<rparr>"

lemma live_redis_simps [simp]:
  "rc_get live_redis k m = (Inr (m k), m)" "rc_set live_redis k v ttl m = (Inr (), m(k \<mapsto> v))"
  "rc_set_nx live_redis k v ttl m = (if m k = None then (Inr True, m(k \<mapsto> v)) else (Inr False, m))"
  "rc_delete live_redis k m = (Inr (), m(k := None))" "rc_view live_redis m = m"
  by (simp_all add: live_redis_def)

lemma live_redis_laws [simp]: "redis_laws live_redis"
  unfolding redis_laws_def get_law_def set_law_def set_nx_law_def delete_law_def
  by (auto simp: live_redis_def split: if_splits)

lemma live_redis_steady [simp]: "redis_steady live_redis m"
  unfolding redis_steady_def redis_answers_def by auto

lemma live_redis_no_expiry [simp]: "no_expiry live_redis"
  unfolding no_expiry_def by (auto simp: live_redis_def)

end
