(* ===== verification/PyText.thy ===== *)
theory PyText
  imports Prelude
begin

section \<open>Python text\<close>

text \<open>
  The string operations the program uses. A \<open>char\<close> is a code point below 256 (ASCII and
  Latin-1), and the tables below are those of Python's \<open>str\<close> on that range:
  \<open>str.lower\<close>, \<open>str.strip\<close>, \<open>in\<close>, \<open>str.join\<close>, and the classes \<open>\s\<close>, \<open>\d\<close> of the
  module \<open>re\<close>. Text with code points from 256 on is outside the model.
\<close>

subsection \<open>Characters\<close>

abbreviation ord :: "char \<Rightarrow> nat" where
  "ord c \<equiv> of_char c"

definition is_upper :: "char \<Rightarrow> bool" where
  "is_upper c \<longleftrightarrow> (65 \<le> ord c \<and> ord c \<le> 90) \<or> (192 \<le> ord c \<and> ord c \<le> 222 \<and> ord c \<noteq> 215)"

definition lower_char :: "char \<Rightarrow> char" where
  "lower_char c = (if is_upper c then char_of (ord c + 32) else c)"

definition is_space :: "char \<Rightarrow> bool" where
  "is_space c \<longleftrightarrow> (9 \<le> ord c \<and> ord c \<le> 13) \<or> (28 \<le> ord c \<and> ord c \<le> 32) \<or> ord c = 133 \<or> ord c = 160"

definition is_digit :: "char \<Rightarrow> bool" where
  "is_digit c \<longleftrightarrow> 48 \<le> ord c \<and> ord c \<le> 57"

lemma ord_lower_char: "ord (lower_char c) = (if is_upper c then ord c + 32 else ord c)"
  by (auto simp: lower_char_def is_upper_def)

lemma lower_char_idem [simp]: "lower_char (lower_char c) = lower_char c"
proof -
  have "\<not> is_upper (lower_char c)"
    by (auto simp: is_upper_def ord_lower_char)
  then show ?thesis by (simp add: lower_char_def)
qed

lemma is_space_lower_char [simp]: "is_space (lower_char c) = is_space c"
  by (auto simp: is_space_def ord_lower_char is_upper_def)

lemma is_digit_lower_char [simp]: "is_digit (lower_char c) = is_digit c"
  by (auto simp: is_digit_def ord_lower_char is_upper_def)

lemma is_space_blank [simp]: "is_space (CHR '' '')"
  by (simp add: is_space_def)

lemma digit_not_space: "is_digit c \<Longrightarrow> \<not> is_space c"
  by (auto simp: is_digit_def is_space_def)

subsection \<open>Lower case, substrings, joining\<close>

definition py_lower :: "string \<Rightarrow> string" where
  "py_lower s = map lower_char s"

lemma py_lower_idem [simp]: "py_lower (py_lower s) = py_lower s"
  by (simp add: py_lower_def)

lemma py_lower_append: "py_lower (s @ t) = py_lower s @ py_lower t"
  by (simp add: py_lower_def)

fun startswith :: "string \<Rightarrow> string \<Rightarrow> bool" where
  "startswith [] s = True"
| "startswith (k # ks) [] = False"
| "startswith (k # ks) (c # s) = (k = c \<and> startswith ks s)"

lemma startswith_iff: "startswith k s \<longleftrightarrow> (\<exists>t. s = k @ t)"
  by (induction k s rule: startswith.induct) auto

text \<open>\<open>k in s\<close> for two strings.\<close>

fun contains :: "string \<Rightarrow> string \<Rightarrow> bool" where
  "contains k [] = (k = [])"
| "contains k (c # s) = (startswith k (c # s) \<or> contains k s)"

lemma contains_iff: "contains k s \<longleftrightarrow> (\<exists>p q. s = p @ k @ q)"
proof (induction s)
  case Nil
  then show ?case by simp
next
  case (Cons c s)
  have "(\<exists>p q. c # s = p @ k @ q) \<longleftrightarrow> (\<exists>q. c # s = k @ q) \<or> (\<exists>p q. s = p @ k @ q)"
    by (metis append_Cons append_Nil list.exhaust list.inject)
  with Cons show ?case
    by (simp add: startswith_iff del: startswith.simps)
qed

lemma contains_context: "contains k s \<Longrightarrow> contains k (p @ s @ q)"
  unfolding contains_iff by (metis append.assoc)

fun py_join :: "string \<Rightarrow> string list \<Rightarrow> string" where
  "py_join sep [] = []"
| "py_join sep [x] = x"
| "py_join sep (x # y # ys) = x @ sep @ py_join sep (y # ys)"

lemma py_join_Cons: "ys \<noteq> [] \<Longrightarrow> py_join sep (x # ys) = x @ sep @ py_join sep ys"
  by (cases ys) auto

subsection \<open>Whitespace\<close>

text \<open>\<open>re.compile(r"\s+").sub(" ", text)\<close>: each maximal run of whitespace becomes one blank.\<close>

lemma length_dropWhile_Suc [termination_simp]: "length (dropWhile P s) < Suc (length s)"
  by (simp add: le_imp_less_Suc length_dropWhile_le)

fun collapse_ws :: "string \<Rightarrow> string" where
  "collapse_ws [] = []"
| "collapse_ws (c # s) =
     (if is_space c then CHR '' '' # collapse_ws (dropWhile is_space s) else c # collapse_ws s)"

definition lstrip :: "string \<Rightarrow> string" where
  "lstrip s = dropWhile is_space s"

definition rstrip :: "string \<Rightarrow> string" where
  "rstrip s = rev (dropWhile is_space (rev s))"

definition py_strip :: "string \<Rightarrow> string" where
  "py_strip s = rstrip (lstrip s)"

text \<open>\<open>str.split()\<close>: the maximal runs of non-whitespace, the reference for normalisation.\<close>

function py_split :: "string \<Rightarrow> string list" where
  "py_split s =
     (case lstrip s of [] \<Rightarrow> []
      | c # s' \<Rightarrow> (c # takeWhile (\<lambda>c. \<not> is_space c) s') # py_split (dropWhile (\<lambda>c. \<not> is_space c) s'))"
  by pat_completeness auto
termination
proof (relation "measure length", goal_cases)
  case 1
  then show ?case by simp
next
  case (2 s c s')
  have "length (dropWhile (\<lambda>c. \<not> is_space c) s') \<le> length s'"
    by (rule length_dropWhile_le)
  moreover have "length (lstrip s) \<le> length s"
    by (simp add: lstrip_def length_dropWhile_le)
  ultimately show ?case using 2 by simp
qed

declare py_split.simps [simp del]

lemma lstrip_Cons_not_space: "lstrip s = c # s' \<Longrightarrow> \<not> is_space c"
  by (metis hd_dropWhile list.distinct(1) list.sel(1) lstrip_def)

lemma lstrip_space [simp]: "is_space c \<Longrightarrow> lstrip (c # s) = lstrip s"
  by (simp add: lstrip_def)

lemma lstrip_not_space [simp]: "\<not> is_space c \<Longrightarrow> lstrip (c # s) = c # s"
  by (simp add: lstrip_def)

lemma lstrip_Nil [simp]: "lstrip [] = []"
  by (simp add: lstrip_def)

lemma collapse_ws_Cons_space: "is_space c \<Longrightarrow> collapse_ws (c # s) = CHR '' '' # collapse_ws (lstrip s)"
  by (simp add: lstrip_def)

lemma lstrip_collapse_lstrip: "lstrip (collapse_ws (lstrip s)) = collapse_ws (lstrip s)"
proof (cases "lstrip s")
  case (Cons c s')
  with lstrip_Cons_not_space [OF Cons] show ?thesis by simp
qed simp

lemma lstrip_collapse: "lstrip (collapse_ws s) = collapse_ws (lstrip s)"
proof (cases s)
  case (Cons c s')
  then show ?thesis
    by (cases "is_space c") (simp_all add: collapse_ws_Cons_space lstrip_collapse_lstrip del: collapse_ws.simps(2), simp)
qed simp

lemma collapse_ws_word: "\<forall>c \<in> set w. \<not> is_space c \<Longrightarrow> collapse_ws (w @ s) = w @ collapse_ws s"
  by (induction w) auto

lemma rstrip_word: "w \<noteq> [] \<Longrightarrow> \<forall>c \<in> set w. \<not> is_space c \<Longrightarrow> rstrip w = w"
  by (cases w rule: rev_cases) (auto simp: rstrip_def)

lemma rstrip_append: "rstrip (w @ x) = (if rstrip x = [] then rstrip w else w @ rstrip x)"
  by (auto simp: rstrip_def dropWhile_append)

lemma rstrip_blank: "rstrip (CHR '' '' # x) = (if rstrip x = [] then [] else CHR '' '' # rstrip x)"
  using rstrip_append [of "[CHR '' '']" x] by (simp add: rstrip_def)

lemma py_split_words:
  "w \<in> set (py_split s) \<Longrightarrow> w \<noteq> [] \<and> (\<forall>c \<in> set w. \<not> is_space c)"
proof (induction s rule: py_split.induct)
  case (1 s)
  show ?case
  proof (cases "lstrip s")
    case Nil
    with "1.prems" show ?thesis by (simp add: py_split.simps [of s])
  next
    case (Cons c s')
    then have c: "\<not> is_space c"
      by (rule lstrip_Cons_not_space)
    from "1.prems" Cons consider "w = c # takeWhile (\<lambda>c. \<not> is_space c) s'"
      | "w \<in> set (py_split (dropWhile (\<lambda>c. \<not> is_space c) s'))"
      by (auto simp: py_split.simps [of s])
    then show ?thesis
    proof cases
      case 1
      with c show ?thesis by (auto dest: set_takeWhileD)
    next
      case 2
      then show ?thesis by (rule "1.IH" [OF Cons])
    qed
  qed
qed

text \<open>Stripping and collapsing whitespace is splitting into words and joining them by blanks.\<close>

lemma strip_collapse_eq_join: "py_strip (collapse_ws s) = py_join '' '' (py_split s)"
proof -
  have "rstrip (collapse_ws (lstrip s)) = py_join '' '' (py_split s)"
  proof (induction s rule: py_split.induct)
    case (1 s)
    show ?case
    proof (cases "lstrip s")
      case Nil
      then show ?thesis by (simp add: py_split.simps [of s] rstrip_def del: lstrip_space)
    next
      case (Cons c s')
      define w where "w = c # takeWhile (\<lambda>c. \<not> is_space c) s'"
      define r where "r = dropWhile (\<lambda>c. \<not> is_space c) s'"
      have c: "\<not> is_space c"
        by (rule lstrip_Cons_not_space [OF Cons])
      have w: "w \<noteq> []" "\<forall>c \<in> set w. \<not> is_space c"
        using c by (auto simp: w_def dest: set_takeWhileD)
      have IH: "rstrip (collapse_ws (lstrip r)) = py_join '' '' (py_split r)"
        using "1.IH" [OF Cons] by (simp add: r_def)
      have split: "py_split s = w # py_split r"
        by (simp add: py_split.simps [of s] Cons w_def r_def)
      have s: "lstrip s = w @ r"
        by (simp add: Cons w_def r_def)
      have r: "collapse_ws r = (if r = [] then [] else CHR '' '' # collapse_ws (lstrip r))"
      proof (cases r)
        case (Cons d r')
        then have "is_space d"
          using hd_dropWhile [of "\<lambda>c. \<not> is_space c" s'] by (simp add: r_def)
        with Cons show ?thesis by (simp add: collapse_ws_Cons_space del: collapse_ws.simps(2))
      qed simp
      have nonempty: "py_join '' '' xs = [] \<longleftrightarrow> xs = []" if "\<forall>x \<in> set xs. x \<noteq> []" for xs :: "string list"
        using that by (cases xs rule: remdups_adj.cases) auto
      have ne: "py_join '' '' (py_split r) = [] \<longleftrightarrow> py_split r = []"
        by (rule nonempty) (use py_split_words in blast)
      have nil: "r = [] \<Longrightarrow> py_split r = []"
        by (simp add: py_split.simps [of "[]"])
      have lhs: "rstrip (collapse_ws (lstrip s)) =
          (if rstrip (collapse_ws r) = [] then w else w @ rstrip (collapse_ws r))"
        by (simp add: s collapse_ws_word [OF w(2)] rstrip_append rstrip_word [OF w])
      have tail: "rstrip (collapse_ws r) =
          (if py_split r = [] then [] else CHR '' '' # py_join '' '' (py_split r))"
        using IH ne nil by (simp add: r rstrip_blank) (simp add: rstrip_def)
      show ?thesis
        by (simp add: lhs tail split py_join_Cons)
    qed
  qed
  then show ?thesis by (simp add: py_strip_def lstrip_collapse)
qed

lemma py_split_lower: "py_split (py_lower s) = map py_lower (py_split s)"
proof (induction s rule: py_split.induct)
  case (1 s)
  have l: "lstrip (py_lower s) = py_lower (lstrip s)"
    by (simp add: lstrip_def py_lower_def map_dropWhile_comm)
  show ?case
  proof (cases "lstrip s")
    case Nil
    then show ?thesis by (simp add: py_split.simps [of s] py_split.simps [of "py_lower s"] l) (simp add: py_lower_def)
  next
    case (Cons c s')
    with "1.IH" [OF Cons] show ?thesis
      by (simp add: py_split.simps [of s] py_split.simps [of "py_lower s"] l)
         (simp add: py_lower_def map_dropWhile_comm map_takeWhile_comm)
  qed
qed

lemma py_split_join:
  assumes "\<forall>w \<in> set ws. w \<noteq> [] \<and> (\<forall>c \<in> set w. \<not> is_space c)"
  shows "py_split (py_join '' '' ws) = ws"
  using assms
proof (induction ws)
  case Nil
  then show ?case by (simp add: py_split.simps [of "[]"] lstrip_def)
next
  case (Cons w ws)
  from Cons.prems obtain c w' where w: "w = c # w'" "\<not> is_space c" "\<forall>c \<in> set w'. \<not> is_space c"
    by (cases w) auto
  have IH: "py_split (py_join '' '' ws) = ws" using Cons by simp
  have blank: "py_split (CHR '' '' # t) = py_split t" for t
    by (simp add: py_split.simps [of "CHR '' '' # t"] py_split.simps [of t])
  have tw: "takeWhile (\<lambda>c. \<not> is_space c) (w' @ CHR '' '' # t) = w'"
    "dropWhile (\<lambda>c. \<not> is_space c) (w' @ CHR '' '' # t) = CHR '' '' # t" for t
    using w(3) by (induction w') auto
  have tn: "takeWhile (\<lambda>c. \<not> is_space c) w' = w'" "dropWhile (\<lambda>c. \<not> is_space c) w' = []"
    using w(3) by (simp_all add: takeWhile_eq_all_conv dropWhile_eq_Nil_conv)
  have nil: "py_split [] = []"
    by (simp add: py_split.simps [of "[]"] lstrip_def)
  show ?case
  proof (cases "ws = []")
    case True
    with w tn nil show ?thesis by (simp add: py_split.simps [of "c # w'"] del: dropWhile_eq_Nil_conv)
  next
    case False
    with w IH blank tw show ?thesis
      by (simp add: py_join_Cons py_split.simps [of "c # w' @ CHR '' '' # t" for t])
  qed
qed

end
