(* ===== verification/Json.thy ===== *)
theory Json
  imports "HOL-Library.AList" PyText
begin

section \<open>JSON\<close>

text \<open>
  \<^verbatim>\<open>json.dumps(value, default=str)\<close> and \<^verbatim>\<open>json.loads(raw)\<close>, the encoding of every value the
  program keeps in Redis: separators \<open>", "\<close> and \<open>": "\<close>, non-ASCII characters escaped.
  A float is kept as the literal that prints it. The parser takes fuel, one unit per value
  and per element; \<open>json_loads\<close> gives it more than twice the length of the text. \<open>loads_dumps\<close>
  shows that everything \<open>json_dumps\<close> writes is read back, and \<open>json_loads_complete\<close> that no text
  is refused for lack of fuel: what parses with any fuel parses with this one. (Python's own
  recursion limit on deeply nested text is not modelled.) Objects are association lists in
  insertion order; a repeated key keeps its last value. Escapes of code points from 256 on are
  outside the model and raise like other malformed text.
\<close>

datatype json =
    JNull
  | JBool bool
  | JInt int
  | JFloat string
  | JStr string
  | JList "json list"
  | JObj "(string \<times> json) list"

subsection \<open>Numbers\<close>

definition digit_char :: "nat \<Rightarrow> char" where
  "digit_char n = char_of (48 + n)"

fun nat_str :: "nat \<Rightarrow> string" where
  "nat_str n = (if n < 10 then [digit_char n] else nat_str (n div 10) @ [digit_char (n mod 10)])"

declare nat_str.simps [simp del]

definition int_str :: "int \<Rightarrow> string" where
  "int_str i = (if i < 0 then CHR ''-'' # nat_str (nat (- i)) else nat_str (nat i))"

definition str_nat :: "string \<Rightarrow> nat" where
  "str_nat ds = foldl (\<lambda>n c. 10 * n + (ord c - 48)) 0 ds"

lemma digit_char: "n < 10 \<Longrightarrow> ord (digit_char n) = 48 + n \<and> is_digit (digit_char n)"
  by (simp add: digit_char_def is_digit_def)

lemma nat_str_digits: "\<forall>c \<in> set (nat_str n). is_digit c"
proof (induction n rule: nat_str.induct)
  case (1 n)
  then show ?case by (cases "n < 10") (auto simp: nat_str.simps [of n] digit_char)
qed

lemma nat_str_nonempty [simp]: "nat_str n \<noteq> []"
  by (subst nat_str.simps) simp

lemma str_nat_str [simp]: "str_nat (nat_str n) = n"
proof (induction n rule: nat_str.induct)
  case (1 n)
  show ?case
  proof (cases "n < 10")
    case True
    then show ?thesis by (simp add: nat_str.simps [of n] str_nat_def digit_char)
  next
    case False
    with "1.IH" have "str_nat (nat_str (n div 10)) = n div 10" by simp
    with False show ?thesis
      by (simp add: nat_str.simps [of n] str_nat_def digit_char)
  qed
qed

lemma nat_str_hd_zero: "hd (nat_str n) = CHR ''0'' \<Longrightarrow> n = 0"
proof (induction n rule: nat_str.induct)
  case (1 n)
  have z: "n < 10 \<Longrightarrow> digit_char n = CHR ''0'' \<Longrightarrow> n = 0"
    using digit_char [of n] by auto
  show ?case
  proof (cases "n < 10")
    case True
    with "1.prems" z show ?thesis by (simp add: nat_str.simps [of n])
  next
    case False
    then have "hd (nat_str n) = hd (nat_str (n div 10))"
      by (simp add: nat_str.simps [of n])
    with "1.IH" [OF False] "1.prems" have "n div 10 = 0" by simp
    with False show ?thesis by linarith
  qed
qed

subsection \<open>Printing\<close>

abbreviation quote :: char where "quote \<equiv> CHR 0x22"
abbreviation backslash :: char where "backslash \<equiv> CHR 0x5C"

definition hex_digit :: "nat \<Rightarrow> char" where
  "hex_digit n = (if n < 10 then char_of (48 + n) else char_of (87 + n))"

definition escape_char :: "char \<Rightarrow> string" where
  "escape_char c =
     (if c = quote then [backslash, quote]
      else if c = backslash then [backslash, backslash]
      else if ord c = 8 then [backslash, CHR ''b'']
      else if ord c = 9 then [backslash, CHR ''t'']
      else if ord c = 10 then [backslash, CHR ''n'']
      else if ord c = 12 then [backslash, CHR ''f'']
      else if ord c = 13 then [backslash, CHR ''r'']
      else if ord c < 32 \<or> 126 < ord c
      then [backslash, CHR ''u'', CHR ''0'', CHR ''0'', hex_digit (ord c div 16), hex_digit (ord c mod 16)]
      else [c])"

definition json_string :: "string \<Rightarrow> string" where
  "json_string s = quote # concat (map escape_char s) @ [quote]"

fun json_dumps :: "json \<Rightarrow> string" where
  "json_dumps JNull = ''null''"
| "json_dumps (JBool b) = (if b then ''true'' else ''false'')"
| "json_dumps (JInt i) = int_str i"
| "json_dumps (JFloat l) = l"
| "json_dumps (JStr s) = json_string s"
| "json_dumps (JList xs) = ''['' @ py_join '', '' (map json_dumps xs) @ '']''"
| "json_dumps (JObj kvs) =
     ''{'' @ py_join '', '' (map (\<lambda>kv. json_string (fst kv) @ '': '' @ json_dumps (snd kv)) kvs) @ ''}''"

subsection \<open>Parsing\<close>

definition is_json_ws :: "char \<Rightarrow> bool" where
  "is_json_ws c \<longleftrightarrow> ord c = 32 \<or> ord c = 9 \<or> ord c = 10 \<or> ord c = 13"

abbreviation skip_ws :: "string \<Rightarrow> string" where
  "skip_ws s \<equiv> dropWhile is_json_ws s"

definition hex_val :: "char \<Rightarrow> nat option" where
  "hex_val c =
     (if is_digit c then Some (ord c - 48)
      else if 97 \<le> ord c \<and> ord c \<le> 102 then Some (ord c - 87)
      else if 65 \<le> ord c \<and> ord c \<le> 70 then Some (ord c - 55)
      else None)"

definition unescape :: "char \<Rightarrow> char option" where
  "unescape e =
     (if e = quote then Some quote
      else if e = backslash then Some backslash
      else if e = CHR ''/'' then Some (CHR ''/'')
      else if e = CHR ''b'' then Some (char_of (8 :: nat))
      else if e = CHR ''t'' then Some (char_of (9 :: nat))
      else if e = CHR ''n'' then Some (char_of (10 :: nat))
      else if e = CHR ''f'' then Some (char_of (12 :: nat))
      else if e = CHR ''r'' then Some (char_of (13 :: nat))
      else None)"

definition unicode_escape :: "string \<Rightarrow> char option" where
  "unicode_escape h =
     (case map hex_val h of
        [Some 0, Some 0, Some a, Some b] \<Rightarrow> Some (char_of (16 * a + b))
      | _ \<Rightarrow> None)"

definition push :: "char \<Rightarrow> (string \<times> string) option \<Rightarrow> (string \<times> string) option" where
  "push c r = map_option (\<lambda>(x, s). (c # x, s)) r"

text \<open>The characters after an opening quote, up to the closing one.\<close>

fun parse_chars :: "string \<Rightarrow> (string \<times> string) option" where
  "parse_chars [] = None"
| "parse_chars (c # s) =
     (if c = quote then Some ([], s)
      else if c = backslash
      then (case s of [] \<Rightarrow> None
            | e # s' \<Rightarrow>
                if e = CHR ''u''
                then (case unicode_escape (take 4 s') of None \<Rightarrow> None | Some d \<Rightarrow> push d (parse_chars (drop 4 s')))
                else (case unescape e of None \<Rightarrow> None | Some d \<Rightarrow> push d (parse_chars s')))
      else if ord c < 32 then None
      else push c (parse_chars s))"

definition int_part :: "string \<Rightarrow> string option" where
  "int_part s =
     (let ds = takeWhile is_digit s
      in if ds = [] then None else if hd ds = CHR ''0'' then Some [CHR ''0''] else Some ds)"

definition frac_part :: "string \<Rightarrow> string" where
  "frac_part s =
     (case s of [] \<Rightarrow> []
      | c # r \<Rightarrow> if c = CHR ''.'' \<and> takeWhile is_digit r \<noteq> [] then c # takeWhile is_digit r else [])"

definition exp_part :: "string \<Rightarrow> string" where
  "exp_part s =
     (case s of [] \<Rightarrow> []
      | c # r \<Rightarrow>
          if c = CHR ''e'' \<or> c = CHR ''E''
          then (let sg = (case r of [] \<Rightarrow> [] | x # _ \<Rightarrow> if x = CHR ''+'' \<or> x = CHR ''-'' then [x] else []);
                    ds = takeWhile is_digit (drop (length sg) r)
                in if ds = [] then [] else c # sg @ ds)
          else [])"

definition parse_number :: "string \<Rightarrow> (json \<times> string) option" where
  "parse_number s =
     (let sg = (case s of [] \<Rightarrow> [] | c # _ \<Rightarrow> if c = CHR ''-'' then [c] else [])
      in case int_part (drop (length sg) s) of None \<Rightarrow> None
         | Some ip \<Rightarrow>
             let s1 = drop (length sg + length ip) s;
                 fr = frac_part s1;
                 ex = exp_part (drop (length fr) s1)
             in if fr = [] \<and> ex = []
                then Some (JInt (if sg = [] then int (str_nat ip) else - int (str_nat ip)), s1)
                else Some (JFloat (sg @ ip @ fr @ ex), drop (length fr + length ex) s1))"

definition parse_literal :: "string \<Rightarrow> (json \<times> string) option" where
  "parse_literal s =
     (if startswith ''null'' s then Some (JNull, drop 4 s)
      else if startswith ''true'' s then Some (JBool True, drop 4 s)
      else if startswith ''false'' s then Some (JBool False, drop 5 s)
      else if startswith ''NaN'' s then Some (JFloat ''NaN'', drop 3 s)
      else if startswith ''Infinity'' s then Some (JFloat ''Infinity'', drop 8 s)
      else if startswith ''-Infinity'' s then Some (JFloat ''-Infinity'', drop 9 s)
      else parse_number s)"

fun parse_value :: "nat \<Rightarrow> string \<Rightarrow> (json \<times> string) option"
  and parse_elems :: "nat \<Rightarrow> string \<Rightarrow> (json list \<times> string) option"
  and parse_members :: "nat \<Rightarrow> string \<Rightarrow> ((string \<times> json) list \<times> string) option"
where
  "parse_value 0 s = None"
| "parse_value (Suc n) s =
     (case s of [] \<Rightarrow> None
      | c # r \<Rightarrow>
          if c = quote then map_option (\<lambda>(x, t). (JStr x, t)) (parse_chars r)
          else if c = CHR ''[''
          then (case skip_ws r of [] \<Rightarrow> None
                | d # t \<Rightarrow> if d = CHR '']'' then Some (JList [], t)
                           else map_option (\<lambda>(xs, t). (JList xs, t)) (parse_elems n (d # t)))
          else if c = CHR ''{''
          then (case skip_ws r of [] \<Rightarrow> None
                | d # t \<Rightarrow> if d = CHR ''}'' then Some (JObj [], t)
                           else map_option (\<lambda>(kvs, t). (JObj (fold (\<lambda>(k, v). AList.update k v) kvs []), t))
                                  (parse_members n (d # t)))
          else parse_literal s)"
| "parse_elems 0 s = None"
| "parse_elems (Suc n) s =
     (case parse_value n s of None \<Rightarrow> None
      | Some (v, r) \<Rightarrow>
          (case skip_ws r of [] \<Rightarrow> None
           | d # t \<Rightarrow>
               if d = CHR '']'' then Some ([v], t)
               else if d = CHR '','' then map_option (\<lambda>(xs, u). (v # xs, u)) (parse_elems n (skip_ws t))
               else None))"
| "parse_members 0 s = None"
| "parse_members (Suc n) s =
     (case s of [] \<Rightarrow> None
      | c # r \<Rightarrow>
          if c \<noteq> quote then None
          else (case parse_chars r of None \<Rightarrow> None
                | Some (k, r1) \<Rightarrow>
                    (case skip_ws r1 of [] \<Rightarrow> None
                     | e # r2 \<Rightarrow>
                         if e \<noteq> CHR '':'' then None
                         else (case parse_value n (skip_ws r2) of None \<Rightarrow> None
                               | Some (v, r3) \<Rightarrow>
                                   (case skip_ws r3 of [] \<Rightarrow> None
                                    | d # t \<Rightarrow>
                                        if d = CHR ''}'' then Some ([(k, v)], t)
                                        else if d = CHR '',''
                                        then map_option (\<lambda>(kvs, u). ((k, v) # kvs, u)) (parse_members n (skip_ws t))
                                        else None)))))"

definition json_loads :: "string \<Rightarrow> exc + json" where
  "json_loads s =
     (case parse_value (2 * length s + 2) (skip_ws s) of None \<Rightarrow> Inl (ValueError ''Expecting value'')
      | Some (v, r) \<Rightarrow>
          if skip_ws r = [] then Inr v else Inl (ValueError ''Extra data''))"


subsection \<open>What is written is read back\<close>

definition is_float_literal :: "string \<Rightarrow> bool" where
  "is_float_literal l \<longleftrightarrow>
     (\<exists>sg n fs. (sg = [] \<or> sg = ''-'') \<and> l = sg @ nat_str n @ CHR ''.'' # fs \<and> fs \<noteq> []
        \<and> (\<forall>c \<in> set fs. is_digit c))"

text \<open>What a Python dict, list or scalar looks like: the keys of an object are distinct.\<close>

fun wf_json :: "json \<Rightarrow> bool" where
  "wf_json (JFloat l) = is_float_literal l"
| "wf_json (JList xs) = (\<forall>x \<in> set xs. wf_json x)"
| "wf_json (JObj kvs) = (distinct (map fst kvs) \<and> (\<forall>kv \<in> set kvs. wf_json (snd kv)))"
| "wf_json _ = True"

lemma hex_val_digit: "n < 16 \<Longrightarrow> hex_val (hex_digit n) = Some n"
  by (auto simp: hex_val_def hex_digit_def is_digit_def)

lemma hex_val_zero: "hex_val (CHR ''0'') = Some 0"
  by (simp add: hex_val_def is_digit_def)

lemma parse_chars_escape: "parse_chars (escape_char c @ t) = push c (parse_chars t)"
proof -
  have ordq: "ord quote = 34" "ord backslash = 92" by simp_all
  have inj: "ord c = n \<Longrightarrow> char_of n = c" for n :: nat
    by (metis char_of_char)
  consider "c = quote" | "c = backslash" | "ord c \<in> {8, 9, 10, 12, 13}"
    | "c \<noteq> quote" "c \<noteq> backslash" "ord c \<notin> {8, 9, 10, 12, 13}" "ord c < 32 \<or> 126 < ord c"
    | "c \<noteq> quote" "c \<noteq> backslash" "ord c \<notin> {8, 9, 10, 12, 13}" "\<not> (ord c < 32 \<or> 126 < ord c)"
    by blast
  then show ?thesis
  proof cases
    case 1
    then show ?thesis by (simp add: escape_char_def unescape_def)
  next
    case 2
    then show ?thesis by (simp add: escape_char_def unescape_def)
  next
    case 3
    then have "c \<noteq> quote" "c \<noteq> backslash" using ordq by auto
    with 3 show ?thesis
      by (auto simp: escape_char_def unescape_def dest: inj)
  next
    case 4
    have lt: "ord c < 256" by simp
    then have "ord c div 16 < 16" by arith
    then have "hex_val (hex_digit (ord c div 16)) = Some (ord c div 16)"
      "hex_val (hex_digit (ord c mod 16)) = Some (ord c mod 16)"
      by (simp_all add: hex_val_digit)
    then have "unicode_escape [CHR ''0'', CHR ''0'', hex_digit (ord c div 16), hex_digit (ord c mod 16)] = Some c"
      by (simp add: unicode_escape_def hex_val_zero)
    with 4 show ?thesis by (auto simp: escape_char_def)
  next
    case 5
    then show ?thesis by (auto simp: escape_char_def)
  qed
qed

lemma parse_chars_string: "parse_chars (concat (map escape_char s) @ quote # rest) = Some (s, rest)"
  by (induction s) (simp_all add: parse_chars_escape push_def)

lemma fold_update_append:
  "distinct (map fst acc @ map fst kvs) \<Longrightarrow> fold (\<lambda>(k, v). AList.update k v) kvs acc = acc @ kvs"
proof (induction kvs arbitrary: acc)
  case (Cons kv kvs)
  have upd: "k \<notin> fst ` set al \<Longrightarrow> AList.update k v al = al @ [(k, v)]" for k v and al :: "('a \<times> 'b) list"
    by (induction al) auto
  from Cons show ?case
    by (cases kv) (auto simp: upd)
qed simp

definition delimited :: "string \<Rightarrow> bool" where
  "delimited rest \<longleftrightarrow> rest = [] \<or> hd rest \<in> {CHR '','', CHR '']'', CHR ''}''}"

lemma int_part_nat:
  assumes "rest = [] \<or> \<not> is_digit (hd rest)"
  shows "int_part (nat_str n @ rest) = Some (nat_str n)"
proof -
  have tw: "takeWhile is_digit (nat_str n @ rest) = nat_str n"
    using assms nat_str_digits [of n] by (cases rest) auto
  show ?thesis
  proof (cases "hd (nat_str n) = CHR ''0''")
    case True
    then have "n = 0" by (rule nat_str_hd_zero)
    moreover have "nat_str 0 = [CHR ''0'']" using char_of_char [of "CHR ''0''", where ?'a = nat]
      by (simp add: nat_str.simps [of 0] digit_char_def)
    ultimately show ?thesis using tw by (simp add: int_part_def)
  next
    case False
    with tw show ?thesis by (simp add: int_part_def)
  qed
qed

lemma nat_str_hd: "is_digit (hd (nat_str n))"
  using nat_str_digits nat_str_nonempty by (meson hd_in_set)

lemma digit_not_literal:
  assumes "is_digit (hd s)" "s \<noteq> []"
  shows "parse_literal (s @ r) = parse_number (s @ r)"
    "parse_literal (CHR ''-'' # s @ r) = parse_number (CHR ''-'' # s @ r)"
proof -
  obtain c s' where s: "s = c # s'" using assms(2) by (cases s) auto
  then have c: "c \<noteq> CHR ''n''" "c \<noteq> CHR ''t''" "c \<noteq> CHR ''f''" "c \<noteq> CHR ''N''" "c \<noteq> CHR ''I''" "c \<noteq> CHR ''-''"
    using assms(1) by (auto simp: is_digit_def)
  show "parse_literal (s @ r) = parse_number (s @ r)"
    using c by (simp add: s parse_literal_def)
  show "parse_literal (CHR ''-'' # s @ r) = parse_number (CHR ''-'' # s @ r)"
    using c by (simp add: s parse_literal_def)
qed

lemma delimited_not: "delimited rest \<Longrightarrow> rest = [] \<or> (\<not> is_digit (hd rest) \<and> hd rest \<noteq> CHR ''.'' \<and> hd rest \<noteq> CHR ''e'' \<and> hd rest \<noteq> CHR ''E'')"
  by (auto simp: delimited_def is_digit_def)

lemma parse_literal_int:
  assumes "delimited rest"
  shows "parse_literal (int_str i @ rest) = Some (JInt i, rest)"
proof -
  have ip: "int_part (nat_str n @ rest) = Some (nat_str n)" for n
    by (rule int_part_nat) (use delimited_not [OF assms] in blast)
  have fe: "frac_part rest = []" "exp_part rest = []"
    using delimited_not [OF assms] by (auto simp: frac_part_def exp_part_def split: list.splits)
  show ?thesis
  proof (cases "i < 0")
    case True
    with ip fe show ?thesis
      by (simp add: int_str_def digit_not_literal nat_str_hd parse_number_def Let_def)
  next
    case False
    moreover have "hd (nat_str (nat i)) \<noteq> CHR ''-''"
      using nat_str_hd [of "nat i"] by (auto simp: is_digit_def)
    then have "(case nat_str (nat i) @ rest of [] \<Rightarrow> [] | c # _ \<Rightarrow> if c = CHR ''-'' then [c] else []) = []"
      by (cases "nat_str (nat i)") auto
    ultimately show ?thesis
      using ip fe by (simp add: int_str_def digit_not_literal nat_str_hd parse_number_def Let_def)
  qed
qed

lemma parse_literal_float:
  assumes "delimited rest" and "is_float_literal l"
  shows "parse_literal (l @ rest) = Some (JFloat l, rest)"
proof -
  obtain sg n fs where l: "l = sg @ nat_str n @ CHR ''.'' # fs" and sg: "sg = [] \<or> sg = ''-''"
    and fs: "fs \<noteq> []" "\<forall>c \<in> set fs. is_digit c"
    using assms(2) unfolding is_float_literal_def by blast
  have ip: "int_part (nat_str n @ CHR ''.'' # fs @ rest) = Some (nat_str n)"
    by (rule int_part_nat) (simp add: is_digit_def)
  have tw: "takeWhile is_digit (fs @ rest) = fs"
    using fs(2) delimited_not [OF assms(1)] by (cases rest) auto
  have fe: "frac_part (CHR ''.'' # fs @ rest) = CHR ''.'' # fs" "exp_part rest = []"
    using delimited_not [OF assms(1)] fs(1) tw by (auto simp: frac_part_def exp_part_def split: list.splits)
  have hd: "hd (nat_str n) \<noteq> CHR ''-''"
    using nat_str_hd [of n] by (auto simp: is_digit_def)
  then have "(case nat_str n @ CHR ''.'' # fs @ rest of [] \<Rightarrow> [] | c # _ \<Rightarrow> if c = CHR ''-'' then [c] else []) = []"
    by (cases "nat_str n") auto
  with sg ip fe show ?thesis
    by (auto simp: l digit_not_literal nat_str_hd parse_number_def Let_def)
qed

lemma dumps_hd: "wf_json v \<Longrightarrow> json_dumps v \<noteq> [] \<and> \<not> is_json_ws (hd (json_dumps v)) \<and> hd (json_dumps v) \<noteq> CHR '']''"
proof -
  have d: "\<not> is_json_ws (hd (nat_str n)) \<and> hd (nat_str n) \<noteq> CHR '']''" for n
    using nat_str_hd [of n] by (auto simp: is_digit_def is_json_ws_def)
  show "wf_json v \<Longrightarrow> ?thesis"
    using d by (cases v) (auto simp: int_str_def json_string_def is_json_ws_def is_float_literal_def)
qed

lemma skip_ws_dumps: "wf_json v \<Longrightarrow> skip_ws (json_dumps v @ r) = json_dumps v @ r"
  using dumps_hd [of v] by (cases "json_dumps v") auto

lemma skip_ws_cons: "\<not> is_json_ws c \<Longrightarrow> skip_ws (c # r) = c # r"
  by simp

lemma json_ws_simps [simp]:
  "is_json_ws (CHR '' '')" "\<not> is_json_ws (CHR '','')" "\<not> is_json_ws (CHR '']'')"
  "\<not> is_json_ws (CHR ''}'')" "\<not> is_json_ws (CHR '':'')" "\<not> is_json_ws quote"
  by (simp_all add: is_json_ws_def)

lemma delimited_simps [simp]:
  "delimited (CHR '','' # r)" "delimited (CHR '']'' # r)" "delimited (CHR ''}'' # r)" "delimited []"
  by (simp_all add: delimited_def)

lemma parse_elems_dumps:
  assumes "xs \<noteq> []" and "\<forall>x \<in> set xs. wf_json x"
    and "\<And>x m r. x \<in> set xs \<Longrightarrow> delimited r \<Longrightarrow> 2 * length (json_dumps x) \<le> m \<Longrightarrow>
           parse_value m (json_dumps x @ r) = Some (x, r)"
    and "2 * length (py_join '', '' (map json_dumps xs)) < n"
  shows "parse_elems n (py_join '', '' (map json_dumps xs) @ CHR '']'' # rest) = Some (xs, rest)"
  using assms
proof (induction xs arbitrary: n)
  case (Cons x xs)
  obtain m where n: "n = Suc m" using Cons.prems(4) by (cases n) auto
  show ?case
  proof (cases "xs = []")
    case True
    with n Cons.prems show ?thesis by simp
  next
    case False
    let ?tl = "py_join '', '' (map json_dumps xs)"
    have j: "py_join '', '' (map json_dumps (x # xs)) = json_dumps x @ '', '' @ ?tl"
      using False by (simp add: py_join_Cons)
    have IH: "parse_elems m (?tl @ CHR '']'' # rest) = Some (xs, rest)"
      using False Cons.prems j n by (intro Cons.IH) simp_all
    obtain y ys where "xs = y # ys" using False by (cases xs) auto
    then have "skip_ws (?tl @ CHR '']'' # rest) = ?tl @ CHR '']'' # rest"
      using Cons.prems(2) skip_ws_dumps [of y] by (cases ys) simp_all
    moreover have "parse_value m (json_dumps x @ '', '' @ ?tl @ CHR '']'' # rest)
        = Some (x, '', '' @ ?tl @ CHR '']'' # rest)"
      using Cons.prems j n by simp
    ultimately show ?thesis using IH unfolding j n by simp
  qed
qed simp

definition dumps_member :: "string \<times> json \<Rightarrow> string" where
  "dumps_member kv = json_string (fst kv) @ '': '' @ json_dumps (snd kv)"

lemma json_dumps_JObj: "json_dumps (JObj kvs) = ''{'' @ py_join '', '' (map dumps_member kvs) @ ''}''"
  by (simp add: dumps_member_def [abs_def])

lemma dumps_member_append:
  "dumps_member (k, v) @ t = quote # concat (map escape_char k) @ quote # CHR '':'' # CHR '' '' # json_dumps v @ t"
  by (simp add: dumps_member_def json_string_def)

lemma length_dumps_member: "length (json_dumps (snd kv)) \<le> length (dumps_member kv)"
  by (simp add: dumps_member_def)

lemma parse_members_dumps:
  assumes "kvs \<noteq> []" and "\<forall>kv \<in> set kvs. wf_json (snd kv)"
    and "\<And>kv m r. kv \<in> set kvs \<Longrightarrow> delimited r \<Longrightarrow> 2 * length (json_dumps (snd kv)) \<le> m \<Longrightarrow>
           parse_value m (json_dumps (snd kv) @ r) = Some (snd kv, r)"
    and "2 * length (py_join '', '' (map dumps_member kvs)) < n"
  shows "parse_members n (py_join '', '' (map dumps_member kvs) @ CHR ''}'' # rest) = Some (kvs, rest)"
  using assms
proof (induction kvs arbitrary: n)
  case (Cons kv kvs)
  obtain m where n: "n = Suc m" using Cons.prems(4) by (cases n) auto
  obtain k v where kv: "kv = (k, v)" by (cases kv)
  have wf: "wf_json v" using Cons.prems(2) kv by simp
  have chars: "parse_chars (concat (map escape_char k) @ quote # t) = Some (k, t)" for t
    by (rule parse_chars_string)
  have ws: "skip_ws (json_dumps v @ t) = json_dumps v @ t" for t
    by (rule skip_ws_dumps [OF wf])
  show ?case
  proof (cases "kvs = []")
    case True
    have "parse_value m (json_dumps v @ CHR ''}'' # rest) = Some (v, CHR ''}'' # rest)"
      using Cons.prems(3) [of kv] Cons.prems(4) length_dumps_member [of kv] kv n True by simp
    with n kv True chars ws show ?thesis by (simp add: dumps_member_append)
  next
    case False
    let ?tl = "py_join '', '' (map dumps_member kvs)"
    have j: "py_join '', '' (map dumps_member (kv # kvs)) = dumps_member kv @ '', '' @ ?tl"
      using False by (simp add: py_join_Cons)
    have len: "2 * length (dumps_member kv) + 2 * length ?tl < m"
      using Cons.prems(4) unfolding j n by simp
    have IH: "parse_members m (?tl @ CHR ''}'' # rest) = Some (kvs, rest)"
      using False Cons.prems(2,3) len by (intro Cons.IH) simp_all
    obtain k' v' ys where y: "kvs = (k', v') # ys" using False by (cases kvs) auto
    have "skip_ws (?tl @ CHR ''}'' # rest) = ?tl @ CHR ''}'' # rest"
      using y by (cases ys) (simp_all add: dumps_member_append)
    moreover have "parse_value m (json_dumps v @ '', '' @ ?tl @ CHR ''}'' # rest)
        = Some (v, '', '' @ ?tl @ CHR ''}'' # rest)"
      using Cons.prems(3) [of kv] len length_dumps_member [of kv] kv by simp
    ultimately show ?thesis
      using IH chars ws unfolding j n by (simp add: kv dumps_member_append)
  qed
qed simp

lemma number_head: "hd (nat_str k) \<noteq> quote \<and> hd (nat_str k) \<noteq> CHR ''['' \<and> hd (nat_str k) \<noteq> CHR ''{''"
  using nat_str_hd [of k] by (auto simp: is_digit_def)

lemma parse_list_dumps:
  assumes "parse_elems m (py_join '', '' (map json_dumps xs) @ CHR '']'' # rest) = Some (xs, rest)"
    and "xs \<noteq> []" "wf_json (JList xs)"
  shows "parse_value (Suc m) (json_dumps (JList xs) @ rest) = Some (JList xs, rest)"
proof -
  obtain y ys where y: "xs = y # ys" using assms(2) by (cases xs) auto
  then have "wf_json y" using assms(3) by simp
  then obtain c t where c: "json_dumps y = c # t" "\<not> is_json_ws c" "c \<noteq> CHR '']''"
    using dumps_hd [of y] by (cases "json_dumps y") auto
  then obtain t' where t': "py_join '', '' (map json_dumps xs) @ CHR '']'' # rest = c # t'"
    using y by (cases ys) auto
  show ?thesis using assms(1) c unfolding json_dumps.simps by (simp add: t')
qed

lemma parse_object_dumps:
  assumes "parse_members m (py_join '', '' (map dumps_member kvs) @ CHR ''}'' # rest) = Some (kvs, rest)"
    and "kvs \<noteq> []" "wf_json (JObj kvs)"
  shows "parse_value (Suc m) (json_dumps (JObj kvs) @ rest) = Some (JObj kvs, rest)"
proof -
  obtain k v ys where "kvs = (k, v) # ys" using assms(2) by (cases kvs) auto
  then obtain t' where t': "py_join '', '' (map dumps_member kvs) @ CHR ''}'' # rest = quote # t'"
    by (cases ys) (auto simp: dumps_member_append)
  have "fold (\<lambda>(k, v). AList.update k v) kvs [] = kvs"
    using assms(3) by (simp add: fold_update_append)
  then show ?thesis using assms(1) unfolding json_dumps_JObj by (simp add: t')
qed

lemma parse_value_dumps:
  "wf_json v \<Longrightarrow> delimited rest \<Longrightarrow> 2 * length (json_dumps v) \<le> n \<Longrightarrow>
   parse_value n (json_dumps v @ rest) = Some (v, rest)"
proof (induction v arbitrary: rest n)
  case (JInt i)
  obtain c s where c: "int_str i = c # s" "c \<noteq> quote" "c \<noteq> CHR ''[''" "c \<noteq> CHR ''{''"
    using number_head [of "nat i"] by (cases "int_str i") (auto simp: int_str_def split: if_splits)
  then obtain m where "n = Suc m" using JInt.prems by (cases n) auto
  with c parse_literal_int [OF JInt.prems(2), of i] show ?case by simp
next
  case (JFloat l)
  obtain c s where c: "l = c # s" "c \<noteq> quote" "c \<noteq> CHR ''[''" "c \<noteq> CHR ''{''"
  proof -
    obtain sg k fs where l: "l = sg @ nat_str k @ CHR ''.'' # fs" "sg = [] \<or> sg = ''-''"
      using JFloat.prems(1) by (auto simp: is_float_literal_def)
    then show ?thesis using number_head [of k] that by (cases "nat_str k") auto
  qed
  then obtain m where "n = Suc m" using JFloat.prems by (cases n) auto
  with c parse_literal_float [OF JFloat.prems(2), of l] JFloat.prems(1) show ?case by simp
next
  case (JList xs)
  obtain m where n: "n = Suc m" using JList.prems by (cases n) auto
  show ?case
  proof (cases "xs = []")
    case False
    have "parse_elems m (py_join '', '' (map json_dumps xs) @ CHR '']'' # rest) = Some (xs, rest)"
      using False JList.prems n by (intro parse_elems_dumps) (auto intro: JList.IH)
    then show ?thesis unfolding n by (rule parse_list_dumps) (use False JList.prems(1) in auto)
  qed (use n in simp)
next
  case (JObj kvs)
  obtain m where n: "n = Suc m" using JObj.prems by (cases n) auto
  show ?case
  proof (cases "kvs = []")
    case False
    have "parse_members m (py_join '', '' (map dumps_member kvs) @ CHR ''}'' # rest) = Some (kvs, rest)"
      using False JObj.prems n unfolding json_dumps_JObj
      by (intro parse_members_dumps) (auto intro!: JObj.IH)
    then show ?thesis unfolding n by (rule parse_object_dumps) (use False JObj.prems(1) in auto)
  qed (use n in simp)
next
  case (JStr s)
  then obtain m where "n = Suc m" by (cases n) (auto simp: json_string_def)
  then show ?case by (simp add: json_string_def parse_chars_string)
next
  case JNull
  then obtain m where "n = Suc m" by (cases n) auto
  then show ?case by (simp add: parse_literal_def)
next
  case (JBool b)
  then obtain m where "n = Suc m" by (cases n) (auto split: if_splits)
  then show ?case by (simp add: parse_literal_def)
qed

lemma loads_dumps [simp]: "wf_json v \<Longrightarrow> json_loads (json_dumps v) = Inr v"
  using parse_value_dumps [of v "[]" "2 * length (json_dumps v) + 2"] skip_ws_dumps [of v "[]"]
  by (simp add: json_loads_def)

subsection \<open>The fuel of the parser is enough\<close>

lemma length_skip_ws: "length (skip_ws s) \<le> length s"
  by (rule length_dropWhile_le)

lemma length_parse_chars: "parse_chars s = Some (x, t) \<Longrightarrow> length t < length s"
proof (induction s arbitrary: x t rule: parse_chars.induct)
  case (2 c s)
  show ?case
  proof (cases "c = quote \<or> c \<noteq> backslash")
    case True
    with 2 show ?thesis by (fastforce simp: push_def split: if_splits)
  next
    case False
    then obtain e s' where s: "s = e # s'" "c = backslash" "c \<noteq> quote"
      using "2.prems" by (cases s) auto
    show ?thesis
    proof (cases "e = CHR ''u''")
      case True
      then obtain d x' where "unicode_escape (take 4 s') = Some d" "parse_chars (drop 4 s') = Some (x', t)"
        using "2.prems" s by (auto simp: push_def split: option.splits)
      from "2.IH"(1) [OF s(3,2,1) True this] show ?thesis using s by simp
    next
      case False
      then obtain d x' where "unescape e = Some d" "parse_chars s' = Some (x', t)"
        using "2.prems" s by (auto simp: push_def split: option.splits)
      from "2.IH"(2) [OF s(3,2,1) False this] show ?thesis using s by simp
    qed
  qed
qed simp

lemma int_part_nonempty: "int_part s = Some ip \<Longrightarrow> ip \<noteq> [] \<and> s \<noteq> []"
  by (auto simp: int_part_def Let_def split: if_splits)

lemma length_parse_number: "parse_number s = Some (v, r) \<Longrightarrow> length r < length s"
  by (auto simp: parse_number_def Let_def dest!: int_part_nonempty split: option.splits if_splits list.splits)

lemma length_parse_literal: "s \<noteq> [] \<Longrightarrow> parse_literal s = Some (v, r) \<Longrightarrow> length r < length s"
  by (auto simp: parse_literal_def dest: length_parse_number split: if_splits)

lemma skip_ws_Cons: "skip_ws r = d # t \<Longrightarrow> length t < length r"
  using length_skip_ws [of r] by simp

text \<open>The ways a value is read; both facts about the parser go along them.\<close>

lemma parse_value_cases:
  assumes "parse_value (Suc n) s = Some (v, r)"
  obtains (str) t x where "s = quote # t" "parse_chars t = Some (x, r)" "v = JStr x"
    | (nil) t where "s = CHR ''['' # t" "skip_ws t = CHR '']'' # r" "v = JList []"
    | (list) t d u xs where "s = CHR ''['' # t" "skip_ws t = d # u" "d \<noteq> CHR '']''"
        "parse_elems n (d # u) = Some (xs, r)" "v = JList xs"
    | (empty) t where "s = CHR ''{'' # t" "skip_ws t = CHR ''}'' # r" "v = JObj []"
    | (object) t d u kvs where "s = CHR ''{'' # t" "skip_ws t = d # u" "d \<noteq> CHR ''}''"
        "parse_members n (d # u) = Some (kvs, r)" "v = JObj (fold (\<lambda>(k, v). AList.update k v) kvs [])"
    | (literal) c t where "s = c # t" "c \<noteq> quote" "c \<noteq> CHR ''[''" "c \<noteq> CHR ''{''" "parse_literal s = Some (v, r)"
proof -
  obtain c t where s: "s = c # t" using assms by (cases s) auto
  consider "c = quote" | "c = CHR ''[''" | "c = CHR ''{''" | "c \<noteq> quote" "c \<noteq> CHR ''[''" "c \<noteq> CHR ''{''" by blast
  then show thesis
  proof cases
    case 1
    with assms s str show thesis by auto
  next
    case 2
    with assms s nil list show thesis by (cases "skip_ws t") (auto simp del: dropWhile_eq_Nil_conv split: if_splits)
  next
    case 3
    with assms s empty object show thesis by (cases "skip_ws t") (auto simp del: dropWhile_eq_Nil_conv split: if_splits)
  next
    case 4
    with assms s literal show thesis by auto
  qed
qed

lemma parse_shorter:
  "parse_value n s = Some (v, r) \<Longrightarrow> length r < length s"
  "parse_elems n s = Some (xs, r) \<Longrightarrow> length r < length s"
  "parse_members n s = Some (kvs, r) \<Longrightarrow> length r < length s"
proof (induction n s and n s and n s arbitrary: v r and xs r and kvs r rule: parse_value_parse_elems_parse_members.induct)
  case (2 n s)
  from "2.prems" show ?case
  proof (cases rule: parse_value_cases)
    case (str t x)
    then show ?thesis using length_parse_chars [OF str(2)] by simp
  next
    case (nil t)
    then show ?thesis using skip_ws_Cons [OF nil(2)] by simp
  next
    case (list t d u xs)
    have "length r < length (d # u)" by (rule "2.IH"(1)) (use list in simp_all)
    then show ?thesis using skip_ws_Cons [OF list(2)] list(1) by simp
  next
    case (empty t)
    then show ?thesis using skip_ws_Cons [OF empty(2)] by simp
  next
    case (object t d u kvs)
    have "length r < length (d # u)" by (rule "2.IH"(2)) (use object in simp_all)
    then show ?thesis using skip_ws_Cons [OF object(2)] object(1) by simp
  next
    case (literal c t)
    then show ?thesis using length_parse_literal [OF _ literal(5)] by simp
  qed
next
  case (4 n s)
  then obtain w r1 d t where v: "parse_value n s = Some (w, r1)" "skip_ws r1 = d # t"
    by (auto split: option.splits list.splits)
  have "length t < length s" using "4.IH"(1) [OF v(1)] skip_ws_Cons [OF v(2)] by simp
  moreover have "length r \<le> length t"
  proof (cases "d = CHR '']''")
    case False
    then obtain ys where e: "d = CHR '',''" "parse_elems n (skip_ws t) = Some (ys, r)"
      using "4.prems" v by (auto split: if_splits)
    then show ?thesis using "4.IH"(2) [OF v(1) refl v(2) False e] length_skip_ws [of t] by simp
  qed (use "4.prems" v in simp)
  ultimately show ?case by simp
next
  case (6 n s)
  then obtain c r0 k r1 r2 w r3 d t where v: "s = c # r0" "c = quote" "parse_chars r0 = Some (k, r1)"
    "skip_ws r1 = CHR '':'' # r2" "parse_value n (skip_ws r2) = Some (w, r3)" "skip_ws r3 = d # t"
    by (auto split: option.splits list.splits if_splits)
  have "length r3 < length (skip_ws r2)" by (rule "6.IH"(1)) (use v in simp_all)
  then have "length t < length s"
    using length_parse_chars [OF v(3)] skip_ws_Cons [OF v(4)] skip_ws_Cons [OF v(6)] length_skip_ws [of r2] v(1) by simp
  moreover have "length r \<le> length t"
  proof (cases "d = CHR ''}''")
    case False
    then obtain ys where e: "d = CHR '',''" "parse_members n (skip_ws t) = Some (ys, r)"
      using "6.prems" v by (auto split: if_splits)
    have "length r < length (skip_ws t)" by (rule "6.IH"(2)) (use v e False in simp_all)
    then show ?thesis using length_skip_ws [of t] by simp
  qed (use "6.prems" v in simp)
  ultimately show ?case by simp
qed simp_all

lemma parse_enough:
  "parse_value n s = Some (v, r) \<Longrightarrow> 2 * length s \<le> m \<Longrightarrow> parse_value m s = Some (v, r)"
  "parse_elems n s = Some (xs, r) \<Longrightarrow> 2 * length s < m \<Longrightarrow> parse_elems m s = Some (xs, r)"
  "parse_members n s = Some (kvs, r) \<Longrightarrow> 2 * length s < m \<Longrightarrow> parse_members m s = Some (kvs, r)"
proof (induction n s and n s and n s arbitrary: v r m and xs r m and kvs r m rule: parse_value_parse_elems_parse_members.induct)
  case (2 n s)
  then obtain k where k: "m = Suc k" "2 * length s \<le> Suc k" by (cases m) auto
  from "2.prems"(1) show ?case
  proof (cases rule: parse_value_cases)
    case (list t d u xs)
    have "parse_elems k (d # u) = Some (xs, r)"
      by (rule "2.IH"(1)) (use list k(2) skip_ws_Cons [OF list(2)] in simp_all)
    then show ?thesis using list(1-3,5) k(1) by simp
  next
    case (object t d u kvs)
    have "parse_members k (d # u) = Some (kvs, r)"
      by (rule "2.IH"(2)) (use object k(2) skip_ws_Cons [OF object(2)] in simp_all)
    then show ?thesis using object(1-3,5) k(1) by simp
  qed (use k(1) in simp_all)
next
  case (4 n s)
  obtain w r1 d t where v: "parse_value n s = Some (w, r1)" "skip_ws r1 = d # t"
    using "4.prems"(1) by (auto split: option.splits list.splits)
  obtain k where k: "m = Suc k" "2 * length s \<le> k" using "4.prems"(2) by (cases m) auto
  have first: "parse_value k s = Some (w, r1)" by (rule "4.IH"(1) [OF v(1) k(2)])
  have t: "length (skip_ws t) < length s"
    using parse_shorter(1) [OF v(1)] skip_ws_Cons [OF v(2)] length_skip_ws [of t] by simp
  have rest: "parse_elems k (skip_ws t) = Some (ys, r)"
    if "d \<noteq> CHR '']''" "d = CHR '',''" "parse_elems n (skip_ws t) = Some (ys, r)" for ys
    using "4.IH"(2) [OF v(1) refl v(2) that] k(2) t by simp
  show ?case using "4.prems"(1) v first rest k(1) by (auto split: if_splits)
next
  case (6 n s)
  obtain c r0 key r1 r2 w r3 d t where v: "s = c # r0" "c = quote" "parse_chars r0 = Some (key, r1)"
    "skip_ws r1 = CHR '':'' # r2" "parse_value n (skip_ws r2) = Some (w, r3)" "skip_ws r3 = d # t"
    using "6.prems"(1) by (auto split: option.splits list.splits if_splits)
  obtain k where k: "m = Suc k" "2 * length s \<le> k" using "6.prems"(2) by (cases m) auto
  have r2: "length (skip_ws r2) < length s"
    using length_parse_chars [OF v(3)] skip_ws_Cons [OF v(4)] length_skip_ws [of r2] v(1) by simp
  then have t: "length (skip_ws t) < length s"
    using parse_shorter(1) [OF v(5)] skip_ws_Cons [OF v(6)] length_skip_ws [of t] by simp
  have first: "parse_value k (skip_ws r2) = Some (w, r3)"
    by (rule "6.IH"(1)) (use v r2 k(2) in simp_all)
  have rest: "parse_members k (skip_ws t) = Some (ys, r)"
    if "d \<noteq> CHR ''}''" "d = CHR '',''" "parse_members n (skip_ws t) = Some (ys, r)" for ys
    by (rule "6.IH"(2)) (use v that t k(2) in simp_all)
  show ?case using "6.prems"(1) v first rest k(1) by (auto split: if_splits)
qed simp_all

text \<open>A text that parses with any fuel is read by \<open>json_loads\<close>, which gives two units per character.\<close>

lemma json_loads_complete:
  assumes "parse_value n (skip_ws s) = Some (v, r)" and "skip_ws r = []"
  shows "json_loads s = Inr v"
proof -
  have "parse_value (2 * length s + 2) (skip_ws s) = Some (v, r)"
    by (rule parse_enough(1) [OF assms(1)]) (simp add: le_SucI length_skip_ws)
  with assms(2) show ?thesis by (simp add: json_loads_def del: parse_value.simps)
qed

end
