(* ===== verification/Cache.thy ===== *)
theory Cache
  imports Redis Json
begin

section \<open>The Redis cache of AI operations\<close>

text \<open>
  \<^verbatim>\<open>backend/core/cache.py\<close>: text normalisation, hashed cache keys and \<^verbatim>\<open>RedisCache\<close>. SHA-256 is a
  parameter \<open>H\<close> of the key functions. The locale \<open>memo_store\<close> is the contract that the two
  users of the cache (\<^verbatim>\<open>graph/classifier.py\<close> and \<^verbatim>\<open>tools/knowledge_base.py\<close>) rely on: reading and
  writing never raise, a hit returns something that was stored, and a write adds at most the
  entry written. It is interpreted here on the code's \<open>cache_get\<close> and \<open>cache_set\<close>.
\<close>

definition normalize_text :: "string \<Rightarrow> string" where
  "normalize_text t = py_lower (py_strip (collapse_ws t))"

definition build_cache_key :: "(string \<Rightarrow> string) \<Rightarrow> string \<Rightarrow> string list \<Rightarrow> string" where
  "build_cache_key H key_prefix parts = key_prefix @ '':'' @ H (py_join '':'' parts)"

record cache_config =
  cc_key_prefix :: string
  cc_ttl_seconds :: int

definition cache_build_key :: "(string \<Rightarrow> string) \<Rightarrow> cache_config \<Rightarrow> string list \<Rightarrow> string" where
  "cache_build_key H c parts = build_cache_key H (cc_key_prefix c) parts"

text \<open>\<open>RedisCache.get\<close>: \<open>None\<close> on a miss, on a JSON \<open>null\<close>, on a malformed record and on a Redis error.\<close>

definition cache_get :: "'r redis_client \<Rightarrow> string \<Rightarrow> (json option, 'r) comp" where
  "cache_get R key r =
     (case rc_get R key r of
        (Inl (RedisError _), r') \<Rightarrow> (Inr None, r')
      | (Inl e, r') \<Rightarrow> (Inl e, r')
      | (Inr None, r') \<Rightarrow> (Inr None, r')
      | (Inr (Some raw), r') \<Rightarrow>
          (case json_loads raw of
             Inr JNull \<Rightarrow> (Inr None, r')
           | Inr v \<Rightarrow> (Inr (Some v), r')
           | Inl _ \<Rightarrow> (Inr None, r')))"

definition cache_set :: "'r redis_client \<Rightarrow> cache_config \<Rightarrow> string \<Rightarrow> json \<Rightarrow> (unit, 'r) comp" where
  "cache_set R c key v r =
     (case rc_set R key (json_dumps v) (cc_ttl_seconds c) r of
        (Inl (RedisError _), r') \<Rightarrow> (Inr (), r')
      | (Inl e, r') \<Rightarrow> (Inl e, r')
      | (Inr _, r') \<Rightarrow> (Inr (), r'))"

subsection \<open>Keys\<close>

lemma normalize_text_words: "normalize_text t = py_join '' '' (map py_lower (py_split t))"
proof -
  have join: "py_lower (py_join '' '' ws) = py_join '' '' (map py_lower ws)" for ws
  proof (induction ws)
    case (Cons w ws)
    have "py_lower (CHR '' '' # t) = CHR '' '' # py_lower t" for t
      by (simp add: py_lower_def lower_char_def is_upper_def)
    with Cons show ?case by (cases "ws = []") (simp_all add: py_join_Cons py_lower_append)
  qed (simp add: py_lower_def)
  show ?thesis
    by (simp add: normalize_text_def strip_collapse_eq_join join)
qed

lemma lower_words_clean:
  "w \<in> set (map py_lower (py_split t)) \<Longrightarrow> w \<noteq> [] \<and> (\<forall>c \<in> set w. \<not> is_space c)"
  using py_split_words by (fastforce simp: py_lower_def)

lemma py_split_normalize: "py_split (normalize_text t) = map py_lower (py_split t)"
  unfolding normalize_text_words by (rule py_split_join) (use lower_words_clean in blast)

lemma namespace_key_inj:
  assumes "CHR '':'' \<notin> set p" "CHR '':'' \<notin> set q"
  shows "p @ '':'' @ s = q @ '':'' @ t \<longleftrightarrow> p = q \<and> s = t"
proof -
  have "takeWhile (\<lambda>c. c \<noteq> CHR '':'') (x @ '':'' @ y) = x" if "CHR '':'' \<notin> set x" for x y :: string
    using that by (induction x) auto
  then show ?thesis using assms by (metis same_append_eq)
qed

lemma build_cache_key_ns:
  assumes "CHR '':'' \<notin> set p" "CHR '':'' \<notin> set q" "p \<noteq> q"
  shows "build_cache_key H p xs \<noteq> q @ '':'' @ t"
  using namespace_key_inj [OF assms(1,2)] assms(3) by (simp add: build_cache_key_def)

subsection \<open>The contract of a memo store\<close>

text \<open>
  \<open>holds s k v\<close>: a lookup of \<open>k\<close> in \<open>s\<close> may return \<open>v\<close>. \<open>lawful\<close> is the assumption the provider
  itself needs (for the code's cache, that Redis keeps its laws), and \<open>storable\<close> the values it can
  write.
\<close>

locale memo_store =
  fixes look :: "'k \<Rightarrow> ('v option, 's) comp"
    and keep :: "'k \<Rightarrow> 'v \<Rightarrow> (unit, 's) comp"
    and holds :: "'s \<Rightarrow> 'k \<Rightarrow> 'v \<Rightarrow> bool"
    and storable :: "'v \<Rightarrow> bool"
    and lawful :: bool
  assumes look_total: "lawful \<Longrightarrow> \<exists>v s'. look k s = (Inr v, s')"
    and look_sound: "lawful \<Longrightarrow> look k s = (Inr (Some v), s') \<Longrightarrow> holds s k v"
    and look_mono: "lawful \<Longrightarrow> look k s = (a, s') \<Longrightarrow> holds s' k' v' \<Longrightarrow> holds s k' v'"
    and keep_total: "lawful \<Longrightarrow> \<exists>s'. keep k v s = (Inr (), s')"
    and keep_mono: "lawful \<Longrightarrow> storable v \<Longrightarrow> keep k v s = (b, s') \<Longrightarrow> holds s' k' v' \<Longrightarrow>
      holds s k' v' \<or> (k' = k \<and> v' = v)"
begin

text \<open>An invariant \<open>P\<close> of all the entries survives reads, and writes of entries that satisfy it.\<close>

lemma look_entries:
  "lawful \<Longrightarrow> \<forall>k v. holds s k v \<longrightarrow> P k v \<Longrightarrow> look k s = (a, s') \<Longrightarrow> \<forall>k v. holds s' k v \<longrightarrow> P k v"
  using look_mono by blast

lemma keep_entries:
  "lawful \<Longrightarrow> \<forall>k v. holds s k v \<longrightarrow> P k v \<Longrightarrow> storable v \<Longrightarrow> P k v \<Longrightarrow> keep k v s = (a, s') \<Longrightarrow>
     \<forall>k v. holds s' k v \<longrightarrow> P k v"
  using keep_mono by blast

lemma look_hit:
  "lawful \<Longrightarrow> \<forall>k v. holds s k v \<longrightarrow> P k v \<Longrightarrow> look k s = (Inr (Some v), s') \<Longrightarrow> P k v"
  using look_sound by blast

lemma look_cases:
  assumes lawful
  obtains s' where "look k s = (Inr None, s')" | v s' where "look k s = (Inr (Some v), s')"
  using look_total [OF assms, of k s] by (metis not_Some_eq)

lemma keep_ok:
  assumes lawful
  obtains s' where "keep k v s = (Inr (), s')"
  using keep_total [OF assms] by blast

end

text \<open>What the code's cache holds: the records that parse to something other than \<open>null\<close>.\<close>

definition cache_holds :: "'r redis_client \<Rightarrow> 'r \<Rightarrow> string \<Rightarrow> json \<Rightarrow> bool" where
  "cache_holds R r key v \<longleftrightarrow>
     (\<exists>raw. rc_view R r key = Some raw \<and> json_loads raw = Inr v \<and> v \<noteq> JNull)"

lemma cache_get_cases:
  assumes "redis_laws R" "cache_get R key r = (a, r')"
  shows "rc_view R r' \<subseteq>\<^sub>m rc_view R r \<and> (a = Inr None \<or> (\<exists>v. a = Inr (Some v) \<and> cache_holds R r key v))"
proof (cases "rc_get R key r")
  case (Pair b r'')
  from rc_get_cases [OF assms(1) Pair] show ?thesis
  proof cases
    case (1 e)
    with assms(2) Pair show ?thesis by (simp add: cache_get_def)
  next
    case 2
    show ?thesis
    proof (cases "rc_view R r'' key")
      case None
      with 2 assms(2) Pair show ?thesis by (simp add: cache_get_def)
    next
      case (Some raw)
      with 2(2) have "rc_view R r key = Some raw" by (rule map_le_SomeD)
      then have h: "json_loads raw = Inr v \<Longrightarrow> v \<noteq> JNull \<Longrightarrow> cache_holds R r key v" for v
        by (auto simp: cache_holds_def)
      show ?thesis
      proof (cases "json_loads raw")
        case (Inl e)
        with 2 Some assms(2) Pair show ?thesis by (simp add: cache_get_def)
      next
        case (Inr v)
        with 2 Some assms(2) Pair h [of v] show ?thesis by (cases v) (auto simp: cache_get_def)
      qed
    qed
  qed
qed

lemma cache_set_cases:
  assumes "redis_laws R" "cache_set R c key v r = (a, r')"
  shows "a = Inr () \<and> (rc_view R r' \<subseteq>\<^sub>m rc_view R r \<or> rc_view R r' \<subseteq>\<^sub>m (rc_view R r)(key \<mapsto> json_dumps v))"
proof (cases "rc_set R key (json_dumps v) (cc_ttl_seconds c) r")
  case (Pair b r'')
  from rc_set_cases [OF assms(1) Pair] show ?thesis
    by cases (use assms(2) Pair in \<open>auto simp: cache_set_def\<close>)
qed

lemma cache_holds_mono: "rc_view R r' \<subseteq>\<^sub>m rc_view R r \<Longrightarrow> cache_holds R r' k v \<Longrightarrow> cache_holds R r k v"
  by (auto simp: cache_holds_def dest: map_le_SomeD)

lemma cache_holds_upd:
  assumes "rc_view R r' \<subseteq>\<^sub>m (rc_view R r)(key \<mapsto> json_dumps v)" "wf_json v" "cache_holds R r' k' v'"
  shows "cache_holds R r k' v' \<or> (k' = key \<and> v' = v)"
proof -
  from assms(3) obtain raw where raw: "rc_view R r' k' = Some raw" "json_loads raw = Inr v'" "v' \<noteq> JNull"
    by (auto simp: cache_holds_def)
  from map_le_SomeD [OF assms(1) raw(1)] raw assms(2) show ?thesis
    by (auto simp: cache_holds_def split: if_splits)
qed

interpretation redis_cache:
  memo_store "cache_get R" "cache_set R c" "cache_holds R" wf_json "redis_laws R"
  for R :: "'r redis_client" and c
proof
  fix k k' :: string and v v' :: json and s s' :: 'r and a :: "exc + json option" and b :: "exc + unit"
  assume R: "redis_laws R"
  show "\<exists>v s'. cache_get R k s = (Inr v, s')"
    using cache_get_cases [OF R, of k s] by (cases "cache_get R k s") auto
  show "\<exists>s'. cache_set R c k v s = (Inr (), s')"
    using cache_set_cases [OF R, of c k v s] by (cases "cache_set R c k v s") auto
  show "cache_holds R s k v" if "cache_get R k s = (Inr (Some v), s')"
    using cache_get_cases [OF R that] by auto
  show "cache_holds R s k' v'" if "cache_get R k s = (a, s')" "cache_holds R s' k' v'"
    by (rule cache_holds_mono [OF _ that(2)]) (use cache_get_cases [OF R that(1)] in blast)
  show "cache_holds R s k' v' \<or> (k' = k \<and> v' = v)"
    if "wf_json v" "cache_set R c k v s = (b, s')" "cache_holds R s' k' v'"
  proof -
    from cache_set_cases [OF R that(2)] consider "rc_view R s' \<subseteq>\<^sub>m rc_view R s"
      | "rc_view R s' \<subseteq>\<^sub>m (rc_view R s)(k \<mapsto> json_dumps v)" by auto
    then show ?thesis
    proof cases
      case 1
      then show ?thesis using that(3) by (simp add: cache_holds_mono)
    next
      case 2
      then show ?thesis using that(1,3) by (rule cache_holds_upd)
    qed
  qed
qed

subsection \<open>Namespaces\<close>

text \<open>
  The four users of Redis keep their keys under different prefixes. \<open>only_ns ps R\<close>: outside the
  namespaces \<open>ps\<close> nothing is added or changed (it may expire, if keys do).
\<close>

definition in_ns :: "string \<Rightarrow> string \<Rightarrow> bool" where
  "in_ns p k \<longleftrightarrow> startswith (p @ '':'') k"

definition only_ns :: "string list \<Rightarrow> 'r redis_client \<Rightarrow> 'r \<Rightarrow> 'r \<Rightarrow> bool" where
  "only_ns ps R r r' \<longleftrightarrow>
     (\<forall>k. (\<forall>p \<in> set ps. \<not> in_ns p k) \<longrightarrow>
        rc_view R r' k = rc_view R r k \<or> rc_view R r' k = None \<and> \<not> no_expiry R)"

lemma reflp_only_ns [simp]: "reflp (only_ns ps R)"
  by (simp add: reflp_def only_ns_def)

lemma transp_only_ns [simp]: "transp (only_ns ps R)"
  unfolding transp_def only_ns_def by metis

lemma only_ns_mono: "set ps \<subseteq> set qs \<Longrightarrow> only_ns ps R r r' \<Longrightarrow> only_ns qs R r r'"
  unfolding only_ns_def by blast

lemma only_ns_get:
  assumes "rc_view R (snd (rc_get R k r)) \<subseteq>\<^sub>m rc_view R r"
  shows "only_ns ps R r (snd (rc_get R k r))"
proof -
  have "rc_view R (snd (rc_get R k r)) j = rc_view R r j" if "rc_view R (snd (rc_get R k r)) j \<noteq> None" for j
    using that map_le_SomeD [OF assms] by auto
  moreover have "rc_view R (snd (rc_get R k r)) = rc_view R r" if "no_expiry R"
    using that by (simp add: no_expiry_def)
  ultimately show ?thesis unfolding only_ns_def by metis
qed

lemma only_ns_set:
  assumes "rc_view R (snd (rc_set R k v ttl r)) \<subseteq>\<^sub>m rc_view R r
      \<or> rc_view R (snd (rc_set R k v ttl r)) \<subseteq>\<^sub>m (rc_view R r)(k \<mapsto> v)" and "p \<in> set ps" "in_ns p k"
  shows "only_ns ps R r (snd (rc_set R k v ttl r))"
proof -
  have "rc_view R (snd (rc_set R k v ttl r)) j = rc_view R r j"
    if other: "j \<noteq> k" "rc_view R (snd (rc_set R k v ttl r)) j \<noteq> None" for j
  proof -
    obtain x where x: "rc_view R (snd (rc_set R k v ttl r)) j = Some x" using other(2) by blast
    from assms(1) have "rc_view R r j = Some x"
      using map_le_SomeD [where k = j and v = x] x other(1) by (metis fun_upd_other)
    with x show ?thesis by simp
  qed
  moreover have "rc_view R (snd (rc_set R k v ttl r)) j = rc_view R r j" if "no_expiry R" "j \<noteq> k" for j
    using that unfolding no_expiry_def by blast
  ultimately show ?thesis unfolding only_ns_def using assms(2,3) by metis
qed

lemma in_ns_iff: "in_ns p k \<longleftrightarrow> (\<exists>t. k = p @ '':'' @ t)"
  unfolding in_ns_def startswith_iff append_assoc ..

lemma in_ns_key: "in_ns p (p @ '':'' @ t)"
  unfolding in_ns_iff by blast

lemma in_ns_build_key [simp]: "in_ns p (build_cache_key H p xs)"
  unfolding build_cache_key_def by (rule in_ns_key)

lemma in_ns_unique: "CHR '':'' \<notin> set p \<Longrightarrow> CHR '':'' \<notin> set q \<Longrightarrow> in_ns p k \<Longrightarrow> in_ns q k \<Longrightarrow> p = q"
  using namespace_key_inj [of p q] unfolding in_ns_iff by blast

lemma rc_get_ns:
  assumes "redis_laws R"
  shows "only_ns ps R r (snd (rc_get R k r))"
proof (cases "rc_get R k r")
  case (Pair a r')
  from rc_get_cases [OF assms Pair] have "rc_view R r' \<subseteq>\<^sub>m rc_view R r" by cases
  with Pair only_ns_get [of R k r ps] show ?thesis by simp
qed

lemma rc_set_ns:
  assumes "redis_laws R" "p \<in> set ps" "in_ns p k"
  shows "only_ns ps R r (snd (rc_set R k v ttl r))"
proof (cases "rc_set R k v ttl r")
  case (Pair a r')
  from rc_set_cases [OF assms(1) Pair]
  have "rc_view R r' \<subseteq>\<^sub>m rc_view R r \<or> rc_view R r' \<subseteq>\<^sub>m (rc_view R r)(k \<mapsto> v)" by cases auto
  with Pair only_ns_set [of R k v ttl r, OF _ assms(2,3)] show ?thesis by simp
qed

lemma cache_get_ns:
  assumes "redis_laws R"
  shows "steps (only_ns ps R) (cache_get R k)"
  unfolding steps_def
proof
  fix r
  have "snd (cache_get R k r) = snd (rc_get R k r)"
    unfolding cache_get_def by (auto split: prod.split sum.split option.split exc.split json.split)
  with rc_get_ns [OF assms] show "only_ns ps R r (snd (cache_get R k r))" by simp
qed

lemma cache_set_ns:
  assumes "redis_laws R" "p \<in> set ps" "in_ns p k"
  shows "steps (only_ns ps R) (cache_set R c k v)"
  unfolding steps_def
proof
  fix r
  have "snd (cache_set R c k v r) = snd (rc_set R k (json_dumps v) (cc_ttl_seconds c) r)"
    unfolding cache_set_def by (auto split: prod.split sum.split exc.split)
  with rc_set_ns [OF assms] show "only_ns ps R r (snd (cache_set R c k v r))" by simp
qed

subsection \<open>Properties\<close>

text \<open>Two texts are normalised to the same string exactly when their whitespace-separated words
  agree up to letter case, and normalising twice changes nothing.\<close>

lemma normalize_text_iff:
  "(normalize_text t = normalize_text u \<longleftrightarrow> map py_lower (py_split t) = map py_lower (py_split u))
   \<and> normalize_text (normalize_text t) = normalize_text t"
proof
  show "normalize_text t = normalize_text u \<longleftrightarrow> map py_lower (py_split t) = map py_lower (py_split u)"
    using py_split_normalize normalize_text_words by metis
  show "normalize_text (normalize_text t) = normalize_text t"
    by (simp add: normalize_text_words [of "normalize_text t"] py_split_normalize)
       (simp add: normalize_text_words comp_def)
qed

end
