(* ===== verification/Enums.thy ===== *)
theory Enums
  imports PyText
begin

section \<open>The enumerations\<close>

text \<open>
  \<^verbatim>\<open>backend/database/enums.py\<close> and the three enumerations of \<^verbatim>\<open>backend/graph/state.py\<close>. Every
  Python enum here is a \<open>str\<close> enum; its datatype has the members in declaration order, a
  \<open>..._value\<close> function (\<open>.value\<close>) and a lookup by value (\<open>Cls(value)\<close>, \<open>None\<close> for the
  \<open>ValueError\<close>). The lemmas show that lookup inverts value.
\<close>

datatype user_role = AGENT | SUPERVISOR | ADMIN
datatype customer_tier = STANDARD | PREMIUM | ENTERPRISE
datatype ticket_priority = LOW | MEDIUM | HIGH | URGENT
datatype ticket_status =
  TS_NEW | TS_TRIAGED | TS_ASSIGNED | TS_DRAFTED | TS_APPROVAL_REQUIRED | TS_APPROVED | TS_SENT | TS_CLOSED
datatype approval_status = AS_PENDING | AS_APPROVED | AS_REJECTED

datatype ticket_category = BILLING | TECHNICAL | ACCOUNT | GENERAL
datatype support_agent_type = BILLING_AGENT | TECHNICAL_AGENT | ACCOUNT_AGENT | GENERAL_AGENT
datatype workflow_status = WS_PENDING | WS_IN_PROGRESS | WS_COMPLETED

fun user_role_value :: "user_role \<Rightarrow> string" where
  "user_role_value AGENT = ''agent''"
| "user_role_value SUPERVISOR = ''supervisor''"
| "user_role_value ADMIN = ''admin''"

fun customer_tier_value :: "customer_tier \<Rightarrow> string" where
  "customer_tier_value STANDARD = ''standard''"
| "customer_tier_value PREMIUM = ''premium''"
| "customer_tier_value ENTERPRISE = ''enterprise''"

fun ticket_priority_value :: "ticket_priority \<Rightarrow> string" where
  "ticket_priority_value LOW = ''low''"
| "ticket_priority_value MEDIUM = ''medium''"
| "ticket_priority_value HIGH = ''high''"
| "ticket_priority_value URGENT = ''urgent''"

fun ticket_status_value :: "ticket_status \<Rightarrow> string" where
  "ticket_status_value TS_NEW = ''new''"
| "ticket_status_value TS_TRIAGED = ''triaged''"
| "ticket_status_value TS_ASSIGNED = ''assigned''"
| "ticket_status_value TS_DRAFTED = ''drafted''"
| "ticket_status_value TS_APPROVAL_REQUIRED = ''approval_required''"
| "ticket_status_value TS_APPROVED = ''approved''"
| "ticket_status_value TS_SENT = ''sent''"
| "ticket_status_value TS_CLOSED = ''closed''"

fun approval_status_value :: "approval_status \<Rightarrow> string" where
  "approval_status_value AS_PENDING = ''pending''"
| "approval_status_value AS_APPROVED = ''approved''"
| "approval_status_value AS_REJECTED = ''rejected''"

fun ticket_category_value :: "ticket_category \<Rightarrow> string" where
  "ticket_category_value BILLING = ''billing''"
| "ticket_category_value TECHNICAL = ''technical''"
| "ticket_category_value ACCOUNT = ''account''"
| "ticket_category_value GENERAL = ''general''"

fun support_agent_value :: "support_agent_type \<Rightarrow> string" where
  "support_agent_value BILLING_AGENT = ''billing_agent''"
| "support_agent_value TECHNICAL_AGENT = ''technical_agent''"
| "support_agent_value ACCOUNT_AGENT = ''account_agent''"
| "support_agent_value GENERAL_AGENT = ''general_agent''"

fun workflow_status_value :: "workflow_status \<Rightarrow> string" where
  "workflow_status_value WS_PENDING = ''pending''"
| "workflow_status_value WS_IN_PROGRESS = ''in_progress''"
| "workflow_status_value WS_COMPLETED = ''completed''"

text \<open>The members of each class, in declaration order, as iterating the class yields them.\<close>

definition user_roles :: "user_role list" where "user_roles = [AGENT, SUPERVISOR, ADMIN]"
definition customer_tiers :: "customer_tier list" where "customer_tiers = [STANDARD, PREMIUM, ENTERPRISE]"
definition ticket_priorities :: "ticket_priority list" where
  "ticket_priorities = [LOW, MEDIUM, HIGH, URGENT]"
definition ticket_statuses :: "ticket_status list" where
  "ticket_statuses =
     [TS_NEW, TS_TRIAGED, TS_ASSIGNED, TS_DRAFTED, TS_APPROVAL_REQUIRED, TS_APPROVED, TS_SENT, TS_CLOSED]"
definition approval_statuses :: "approval_status list" where
  "approval_statuses = [AS_PENDING, AS_APPROVED, AS_REJECTED]"
definition ticket_categories :: "ticket_category list" where
  "ticket_categories = [BILLING, TECHNICAL, ACCOUNT, GENERAL]"

text \<open>\<open>_member_values\<close>: the labels of the native PostgreSQL enum.\<close>

definition member_values :: "('a \<Rightarrow> string) \<Rightarrow> 'a list \<Rightarrow> string list" where
  "member_values val members = map val members"

text \<open>\<open>Cls(value)\<close>: the first member with that value.\<close>

definition member_of_value :: "('a \<Rightarrow> string) \<Rightarrow> 'a list \<Rightarrow> string \<Rightarrow> 'a option" where
  "member_of_value val members v = find (\<lambda>m. val m = v) members"

definition user_role_of_value :: "string \<Rightarrow> user_role option" where
  "user_role_of_value = member_of_value user_role_value user_roles"

definition category_of_value :: "string \<Rightarrow> ticket_category option" where
  "category_of_value = member_of_value ticket_category_value ticket_categories"

definition priority_of_value :: "string \<Rightarrow> ticket_priority option" where
  "priority_of_value = member_of_value ticket_priority_value ticket_priorities"

lemma member_of_value_SomeD: "member_of_value val members v = Some m \<Longrightarrow> val m = v \<and> m \<in> set members"
  by (auto simp: member_of_value_def find_Some_iff dest: nth_mem)

lemma member_of_value_inverse:
  "inj_on val (set members) \<Longrightarrow> m \<in> set members \<Longrightarrow> member_of_value val members (val m) = Some m"
  by (induction members) (auto simp: member_of_value_def)

lemma user_role_of_value [simp]: "user_role_of_value (user_role_value r) = Some r"
  by (cases r) (simp_all add: user_role_of_value_def member_of_value_def user_roles_def)

lemma category_of_value [simp]: "category_of_value (ticket_category_value c) = Some c"
  by (cases c) (simp_all add: category_of_value_def member_of_value_def ticket_categories_def)

lemma priority_of_value [simp]: "priority_of_value (ticket_priority_value p) = Some p"
  by (cases p) (simp_all add: priority_of_value_def member_of_value_def ticket_priorities_def)

lemma category_of_value_SomeD: "category_of_value s = Some c \<Longrightarrow> s = ticket_category_value c"
  unfolding category_of_value_def by (auto dest: member_of_value_SomeD)

lemma user_role_of_value_SomeD: "user_role_of_value s = Some r \<Longrightarrow> s = user_role_value r"
  unfolding user_role_of_value_def by (auto dest: member_of_value_SomeD)

lemma category_value_no_colon: "CHR '':'' \<notin> set (ticket_category_value c)"
  by (cases c) auto

text \<open>The order of the roles in \<^verbatim>\<open>UserRole\<close>, least capable first.\<close>

instantiation user_role :: linorder
begin

definition less_eq_user_role :: "user_role \<Rightarrow> user_role \<Rightarrow> bool" where
  "less_eq_user_role a b \<longleftrightarrow> a = AGENT \<or> b = ADMIN \<or> a = b"

definition less_user_role :: "user_role \<Rightarrow> user_role \<Rightarrow> bool" where
  "less_user_role a b \<longleftrightarrow> a \<noteq> b \<and> (a = AGENT \<or> b = ADMIN)"

instance
proof
  fix a b c :: user_role
  show "a < b \<longleftrightarrow> a \<le> b \<and> \<not> b \<le> a"
    by (cases a; cases b) (simp_all add: less_eq_user_role_def less_user_role_def)
  show "a \<le> a" by (simp add: less_eq_user_role_def)
  show "a \<le> b \<Longrightarrow> b \<le> c \<Longrightarrow> a \<le> c"
    by (cases a; cases b; cases c) (simp_all add: less_eq_user_role_def)
  show "a \<le> b \<Longrightarrow> b \<le> a \<Longrightarrow> a = b"
    by (cases a; cases b) (simp_all add: less_eq_user_role_def)
  show "a \<le> b \<or> b \<le> a"
    by (cases a; cases b) (simp_all add: less_eq_user_role_def)
qed

end

end
