(* ===== verification/Identity.thy ===== *)
theory Identity
  imports "HOL-Library.Word" "HOL-Library.Product_Lexorder" Json
begin

section \<open>UUIDs and timestamps\<close>

text \<open>
  The two value types of the standard library that the rows, the tokens and the checkpoints
  are made of: \<^verbatim>\<open>uuid.UUID\<close> as a 128-bit word with \<open>str\<close> and the parsing constructor, and
  an aware UTC \<^verbatim>\<open>datetime\<close> with \<open>isoformat\<close> and \<open>fromisoformat\<close>. The lemmas are the two
  round trips and the order of timestamps.
\<close>

subsection \<open>UUIDs\<close>

type_synonym uuid = "128 word"

fun hex_digits :: "nat \<Rightarrow> nat \<Rightarrow> string" where
  "hex_digits 0 n = []"
| "hex_digits (Suc k) n = hex_digits k (n div 16) @ [hex_digit (n mod 16)]"

text \<open>\<open>str(u)\<close>: 32 hexadecimal digits in groups of 8, 4, 4, 4, 12.\<close>

definition uuid_str :: "uuid \<Rightarrow> string" where
  "uuid_str u =
     (let h = hex_digits 32 (unat u)
      in take 8 h @ ''-'' @ take 4 (drop 8 h) @ ''-'' @ take 4 (drop 12 h) @ ''-''
         @ take 4 (drop 16 h) @ ''-'' @ drop 20 h)"

text \<open>\<open>s.replace(k, "")\<close> for a non-empty \<open>k\<close>.\<close>

fun drop_all :: "string \<Rightarrow> nat \<Rightarrow> string \<Rightarrow> string" where
  "drop_all k (Suc i) (c # s) = drop_all k i s"
| "drop_all k 0 (c # s) = (if startswith k (c # s) then drop_all k (length k - 1) s else c # drop_all k 0 s)"
| "drop_all k i [] = []"

abbreviation remove :: "string \<Rightarrow> string \<Rightarrow> string" where
  "remove k s \<equiv> drop_all k 0 s"

text \<open>
  The digits of \<open>int(s, 16)\<close>: groups of hexadecimal digits separated by single underscores.
  The flag says whether the previous character was a digit.
\<close>

fun hex_groups :: "bool \<Rightarrow> nat \<Rightarrow> string \<Rightarrow> nat option" where
  "hex_groups d n [] = (if d then Some n else None)"
| "hex_groups d n (c # s) =
     (if c = CHR ''_'' then (if d then hex_groups False n s else None)
      else case hex_val c of None \<Rightarrow> None | Some v \<Rightarrow> hex_groups True (16 * n + v) s)"

definition int_base16 :: "string \<Rightarrow> nat option" where
  "int_base16 s =
     (let t = py_strip s;
          u = (case t of [] \<Rightarrow> [] | c # r \<Rightarrow> if c = CHR ''+'' then r else t);
          v = (if startswith ''0x'' u \<or> startswith ''0X'' u
               then (case drop 2 u of [] \<Rightarrow> [] | c # r \<Rightarrow> if c = CHR ''_'' then r else c # r)
               else u)
      in hex_groups False 0 v)"

text \<open>\<open>uuid.UUID(s)\<close>; \<open>None\<close> is its \<open>ValueError\<close>.\<close>

definition uuid_parse :: "string \<Rightarrow> uuid option" where
  "uuid_parse s =
     (let brace = (\<lambda>c. c = CHR ''{'' \<or> c = CHR ''}'');
          t = remove ''uuid:'' (remove ''urn:'' s);
          h = filter (\<lambda>c. c \<noteq> CHR ''-'') (rev (dropWhile brace (rev (dropWhile brace t))))
      in if length h \<noteq> 32 then None else map_option of_nat (int_base16 h))"

lemma length_hex_digits [simp]: "length (hex_digits k n) = k"
  by (induction k arbitrary: n) auto

definition is_hex :: "char \<Rightarrow> bool" where
  "is_hex c \<longleftrightarrow> (48 \<le> ord c \<and> ord c \<le> 57) \<or> (97 \<le> ord c \<and> ord c \<le> 102)"

lemma is_hex_digit: "n < 16 \<Longrightarrow> is_hex (hex_digit n)"
  by (auto simp: hex_digit_def is_hex_def)

lemma hex_digits_class: "c \<in> set (hex_digits k n) \<Longrightarrow> is_hex c"
  by (induction k arbitrary: n) (auto simp: is_hex_digit)

lemma is_hex_not:
  assumes "is_hex c"
  shows "c \<noteq> CHR ''_''" "c \<noteq> CHR ''-''" "c \<noteq> CHR ''+''" "c \<noteq> CHR '':''" "c \<noteq> CHR ''{''" "c \<noteq> CHR ''}''"
    "c \<noteq> CHR ''x''" "c \<noteq> CHR ''X''" "\<not> is_space c"
  using assms by (auto simp: is_hex_def is_space_def)

lemma hex_groups_digits:
  "d \<or> 0 < k \<Longrightarrow> n < 16 ^ k \<Longrightarrow> hex_groups d m (hex_digits k n @ s) = hex_groups (d \<or> 0 < k) (16 ^ k * m + n) s"
proof (induction k arbitrary: n s d m)
  case 0
  then show ?case by simp
next
  case (Suc k)
  have lt: "n mod 16 < 16" by simp
  have nd: "hex_digit (n mod 16) \<noteq> CHR ''_''"
    by (rule is_hex_not(1) [OF is_hex_digit [OF lt]])
  have n: "n div 16 < 16 ^ k" using Suc.prems(2) by (simp add: less_mult_imp_div_less mult.commute)
  have step: "hex_groups e j (hex_digit (n mod 16) # s) = hex_groups True (16 * j + n mod 16) s" for e j
    using nd by (simp add: hex_val_digit)
  show ?case
  proof (cases "d \<or> 0 < k")
    case True
    have "16 * (16 ^ k * m + n div 16) + n mod 16 = 16 ^ Suc k * m + n" by simp
    with Suc.IH [OF True n] step show ?thesis by (simp del: hex_groups.simps add: add.commute mult.assoc)
  next
    case False
    then show ?thesis using Suc.prems(2) step by simp
  qed
qed

lemma remove_id:
  assumes "CHR '':'' \<in> set k"
  shows "CHR '':'' \<notin> set s \<Longrightarrow> remove k s = s"
proof (induction s)
  case (Cons c s)
  then have "\<not> startswith k (c # s)"
    using assms by (metis Un_iff set_append startswith_iff)
  with Cons show ?case by simp
qed simp

lemma dropWhile_none: "\<forall>c \<in> set x. \<not> P c \<Longrightarrow> dropWhile P x = x"
  by (cases x) auto

lemma int_base16_hex:
  assumes "n < 16 ^ 32"
  shows "int_base16 (hex_digits 32 n) = Some n"
proof -
  define h where "h = hex_digits 32 n"
  have hex: "c \<in> set h \<Longrightarrow> is_hex c" for c by (simp add: h_def hex_digits_class)
  have len: "length h = 32" by (simp add: h_def)
  then obtain a t where "h = a # t" by (cases h) auto
  moreover from this len obtain b r where "t = b # r" by (cases t) auto
  ultimately have ab: "h = a # b # r" by simp
  have "py_strip h = h"
    using hex by (simp add: py_strip_def lstrip_def rstrip_def dropWhile_none is_hex_not)
  moreover have "is_hex a" "is_hex b" using hex ab by auto
  moreover from this have "b \<noteq> CHR ''x''" "b \<noteq> CHR ''X''" using is_hex_not(7,8) by blast+
  ultimately have "int_base16 h = hex_groups False 0 h"
    by (auto simp: int_base16_def ab is_hex_not(3) Let_def)
  also have "\<dots> = Some n"
    using hex_groups_digits [of False 32 n 0 "[]"] assms by (simp add: h_def)
  finally show ?thesis by (simp add: h_def)
qed

lemma uuid_roundtrip [simp]: "uuid_parse (uuid_str u) = Some u"
proof -
  define h where "h = hex_digits 32 (unat u)"
  let ?brace = "\<lambda>c. c = CHR ''{'' \<or> c = CHR ''}''"
  have hex: "c \<in> set h \<Longrightarrow> is_hex c" for c by (simp add: h_def hex_digits_class)
  have len: "length h = 32" by (simp add: h_def)
  have s: "uuid_str u = take 8 h @ ''-'' @ take 4 (drop 8 h) @ ''-'' @ take 4 (drop 12 h) @ ''-''
      @ take 4 (drop 16 h) @ ''-'' @ drop 20 h"
    by (simp add: uuid_str_def h_def Let_def)
  have cs: "is_hex c \<or> c = CHR ''-''" if "c \<in> set (uuid_str u)" for c
    using that hex by (auto simp: s dest: in_set_takeD in_set_dropD)
  have no: "c \<noteq> CHR '':'' \<and> \<not> ?brace c" if "c \<in> set (uuid_str u)" for c
    using cs [OF that] is_hex_not(4-6) [of c] by auto
  have "filter (\<lambda>c. c \<noteq> CHR ''-'') h = h"
    using hex is_hex_not(2) by (auto simp: filter_id_conv)
  then have f: "filter (\<lambda>c. c \<noteq> CHR ''-'') (take k (drop j h)) = take k (drop j h)" for k j
    by (metis (no_types, lifting) filter_id_conv in_set_dropD in_set_takeD)
  have h: "take 8 h @ take 4 (drop 8 h) @ take 4 (drop 12 h) @ take 4 (drop 16 h) @ drop 20 h = h"
    using append_take_drop_id [of 8 h] append_take_drop_id [of 4 "drop 8 h"]
      append_take_drop_id [of 4 "drop 12 h"] append_take_drop_id [of 4 "drop 16 h"] by simp
  have "filter (\<lambda>c. c \<noteq> CHR ''-'') (uuid_str u) = h"
    using f [of 8 0] f [of 4 8] f [of 4 12] f [of 4 16] f [of 12 20] h len by (simp add: s)
  moreover have nb: "\<forall>c \<in> set (uuid_str u). \<not> ?brace c"
    by (rule ballI) (rule conjunct2 [OF no])
  moreover from nb have "\<forall>c \<in> set (rev (uuid_str u)). \<not> ?brace c" by (simp only: set_rev)
  ultimately have "dropWhile ?brace (uuid_str u) = uuid_str u"
    "dropWhile ?brace (rev (uuid_str u)) = rev (uuid_str u)"
    "filter (\<lambda>c. c \<noteq> CHR ''-'') (uuid_str u) = h"
    by (simp_all only: dropWhile_none)
  moreover have "remove ''uuid:'' (remove ''urn:'' (uuid_str u)) = uuid_str u"
  proof -
    have "CHR '':'' \<notin> set (uuid_str u)" using no by blast
    then show ?thesis by (simp add: remove_id)
  qed
  ultimately have "uuid_parse (uuid_str u) = map_option of_nat (int_base16 h)"
    by (simp add: uuid_parse_def Let_def len)
  also have "int_base16 h = Some (unat u)"
    using unsigned_less [of u, where ?'a = nat] by (simp add: h_def int_base16_hex)
  finally show ?thesis by simp
qed

subsection \<open>Timestamps\<close>

text \<open>An aware UTC \<^verbatim>\<open>datetime\<close>: year, month, day, hour, minute, second, microsecond.\<close>

datatype datetime = DateTime nat nat nat nat nat nat nat

fun dt_key :: "datetime \<Rightarrow> nat \<times> nat \<times> nat \<times> nat \<times> nat \<times> nat \<times> nat" where
  "dt_key (DateTime y mo d h mi s us) = (y, mo, d, h, mi, s, us)"

lemma dt_key_inj: "dt_key a = dt_key b \<Longrightarrow> a = b"
  by (cases a; cases b) simp

instantiation datetime :: linorder
begin

definition less_eq_datetime :: "datetime \<Rightarrow> datetime \<Rightarrow> bool" where
  "less_eq_datetime a b \<longleftrightarrow> dt_key a \<le> dt_key b"

definition less_datetime :: "datetime \<Rightarrow> datetime \<Rightarrow> bool" where
  "less_datetime a b \<longleftrightarrow> dt_key a < dt_key b"

instance
  by standard (auto simp: less_eq_datetime_def less_datetime_def dt_key_inj)

end

fun valid_datetime :: "datetime \<Rightarrow> bool" where
  "valid_datetime (DateTime y mo d h mi s us) \<longleftrightarrow>
     1 \<le> y \<and> y \<le> 9999 \<and> 1 \<le> mo \<and> mo \<le> 12 \<and> 1 \<le> d \<and>
     d \<le> (if mo = 2 then (if y mod 4 = 0 \<and> (y mod 100 \<noteq> 0 \<or> y mod 400 = 0) then 29 else 28)
          else if mo \<in> {4, 6, 9, 11} then 30 else 31) \<and>
     h \<le> 23 \<and> mi \<le> 59 \<and> s \<le> 59 \<and> us \<le> 999999"

text \<open>\<open>k\<close> decimal digits, zero padded.\<close>

fun dec_digits :: "nat \<Rightarrow> nat \<Rightarrow> string" where
  "dec_digits 0 n = []"
| "dec_digits (Suc k) n = dec_digits k (n div 10) @ [digit_char (n mod 10)]"

fun isoformat :: "datetime \<Rightarrow> string" where
  "isoformat (DateTime y mo d h mi s us) =
     dec_digits 4 y @ ''-'' @ dec_digits 2 mo @ ''-'' @ dec_digits 2 d @ ''T'' @ dec_digits 2 h @ '':''
     @ dec_digits 2 mi @ '':'' @ dec_digits 2 s
     @ (if us = 0 then [] else ''.'' @ dec_digits 6 us) @ ''+00:00''"

text \<open>
  \<^verbatim>\<open>datetime.fromisoformat\<close> on the format that \<open>isoformat\<close> writes; the other ISO 8601 forms
  Python accepts are outside the model. \<open>None\<close> is the \<open>ValueError\<close>.
\<close>

definition field :: "nat \<Rightarrow> nat \<Rightarrow> string \<Rightarrow> nat option" where
  "field i k s =
     (let f = take k (drop i s) in if length f = k \<and> list_all is_digit f then Some (str_nat f) else None)"

definition fromisoformat :: "string \<Rightarrow> datetime option" where
  "fromisoformat s =
     (let frac = (length s = 32);
          sep = (\<lambda>i c. i < length s \<and> s ! i = c);
          shape = (sep 4 (CHR ''-'') \<and> sep 7 (CHR ''-'') \<and> sep 10 (CHR ''T'') \<and> sep 13 (CHR '':'')
                   \<and> sep 16 (CHR '':'') \<and> (if frac then sep 19 (CHR ''.'') else length s = 25)
                   \<and> drop (length s - 6) s = ''+00:00'')
      in if \<not> shape then None
         else (case (field 0 4 s, field 5 2 s, field 8 2 s, field 11 2 s, field 14 2 s, field 17 2 s,
                     if frac then field 20 6 s else Some 0) of
                 (Some y, Some mo, Some d, Some h, Some mi, Some sec, Some us) \<Rightarrow>
                   let t = DateTime y mo d h mi sec us in if valid_datetime t then Some t else None
               | _ \<Rightarrow> None))"

lemma length_dec_digits [simp]: "length (dec_digits k n) = k"
  by (induction k arbitrary: n) auto

lemma dec_digits_class: "list_all is_digit (dec_digits k n)"
  by (induction k arbitrary: n) (auto simp: digit_char)

lemma str_nat_dec_digits: "n < 10 ^ k \<Longrightarrow> str_nat (dec_digits k n) = n"
proof (induction k arbitrary: n)
  case 0
  then show ?case by (simp add: str_nat_def)
next
  case (Suc k)
  have "n div 10 < 10 ^ k" using Suc.prems by (simp add: less_mult_imp_div_less mult.commute)
  then have "str_nat (dec_digits k (n div 10)) = n div 10" by (rule Suc.IH)
  then show ?case by (simp add: str_nat_def digit_char)
qed

lemma field_dec_digits:
  "length p = i \<Longrightarrow> n < 10 ^ k \<Longrightarrow> field i k (p @ dec_digits k n @ r) = Some n"
  by (simp add: field_def Let_def dec_digits_class str_nat_dec_digits)

lemma isoformat_roundtrip:
  assumes "valid_datetime t"
  shows "fromisoformat (isoformat t) = Some t"
proof -
  obtain y mo d h mi s us where t: "t = DateTime y mo d h mi s us" by (cases t)
  have b: "y < 10 ^ 4" "mo < 10 ^ 2" "d < 10 ^ 2" "h < 10 ^ 2" "mi < 10 ^ 2" "s < 10 ^ 2" "us < 10 ^ 6"
    using assms unfolding t by (auto split: if_splits)
  define u where "u = (if us = 0 then [] else ''.'' @ dec_digits 6 us)"
  let ?s = "isoformat t"
  have s: "?s = dec_digits 4 y @ ''-'' @ dec_digits 2 mo @ ''-'' @ dec_digits 2 d @ ''T'' @ dec_digits 2 h @ '':''
     @ dec_digits 2 mi @ '':'' @ dec_digits 2 s @ u @ ''+00:00''"
    by (simp add: t u_def)
  have len: "length ?s = 25 + length u" by (simp add: s)
  have f: "field 0 4 ?s = Some y" "field 5 2 ?s = Some mo" "field 8 2 ?s = Some d" "field 11 2 ?s = Some h"
    "field 14 2 ?s = Some mi" "field 17 2 ?s = Some s"
    using field_dec_digits [of "[]" 0 y 4] field_dec_digits [of "dec_digits 4 y @ ''-''" 5 mo 2]
      field_dec_digits [of "dec_digits 4 y @ ''-'' @ dec_digits 2 mo @ ''-''" 8 d 2]
      field_dec_digits [of "dec_digits 4 y @ ''-'' @ dec_digits 2 mo @ ''-'' @ dec_digits 2 d @ ''T''" 11 h 2]
      field_dec_digits [of "dec_digits 4 y @ ''-'' @ dec_digits 2 mo @ ''-'' @ dec_digits 2 d @ ''T'' @ dec_digits 2 h @ '':''" 14 mi 2]
      field_dec_digits [of "dec_digits 4 y @ ''-'' @ dec_digits 2 mo @ ''-'' @ dec_digits 2 d @ ''T'' @ dec_digits 2 h @ '':'' @ dec_digits 2 mi @ '':''" 17 s 2]
      b by (simp_all add: s)
  have us: "(if length ?s = 32 then field 20 6 ?s else Some 0) = Some us"
  proof (cases "us = 0")
    case True
    then show ?thesis by (simp add: len u_def)
  next
    case False
    then have "?s = (dec_digits 4 y @ ''-'' @ dec_digits 2 mo @ ''-'' @ dec_digits 2 d @ ''T'' @ dec_digits 2 h @ '':''
        @ dec_digits 2 mi @ '':'' @ dec_digits 2 s @ ''.'') @ dec_digits 6 us @ ''+00:00''"
      by (simp add: s u_def)
    moreover have "field 20 6 \<dots> = Some us" by (rule field_dec_digits) (use b in simp_all)
    ultimately show ?thesis using False by (simp add: len u_def)
  qed
  have sep: "?s ! 4 = CHR ''-''" "?s ! 7 = CHR ''-''" "?s ! 10 = CHR ''T''" "?s ! 13 = CHR '':''" "?s ! 16 = CHR '':''"
    "us \<noteq> 0 \<Longrightarrow> ?s ! 19 = CHR ''.''"
    by (simp_all add: s nth_append u_def)
  have end6: "drop (length (p @ ''+00:00'') - 6) (p @ ''+00:00'') = ''+00:00''" for p :: string
    by simp
  have tail: "drop (length ?s - 6) ?s = ''+00:00''"
    using end6 [of "dec_digits 4 y @ ''-'' @ dec_digits 2 mo @ ''-'' @ dec_digits 2 d @ ''T'' @ dec_digits 2 h @ '':''
     @ dec_digits 2 mi @ '':'' @ dec_digits 2 s @ u"] unfolding s append_assoc .
  show ?thesis
    using f us sep tail assms len
    unfolding fromisoformat_def Let_def by (cases "us = 0") (simp_all add: u_def t)
qed

end
