(* ===== verification/Database.thy ===== *)
theory Database
  imports Json Enums Identity "HOL-Library.Product_Lexorder" "HOL-Library.Multiset"
begin

section \<open>The tables, and sessions on them\<close>

text \<open>
  \<^verbatim>\<open>backend/database/base.py\<close>, \<^verbatim>\<open>models/\<close> and the use of \<^verbatim>\<open>session.py\<close>. A mapped class is a record
  with one field per column (nullable columns are options), a table the list of its rows.
  PostgreSQL and SQLAlchemy are not modelled: what they decide is the argument \<open>D\<close> of the
  operations (\<open>db_env\<close>), which says which statement fails with which exception, what
  \<^verbatim>\<open>uuid.uuid4()\<close>, \<^verbatim>\<open>datetime.now(UTC)\<close> and \<^verbatim>\<open>func.now()\<close> give, and how rows that \<^verbatim>\<open>ORDER BY\<close>
  leaves tied are ordered. The constraints that the models declare (primary and foreign keys,
  unique e-mail, column lengths) are checked when a row is flushed.

  A session works on a copy of the tables: \<open>db_flush\<close> changes the copy, \<open>db_commit\<close> makes it the
  committed state, and leaving \<^verbatim>\<open>async with\<close> drops what was not committed. A commit that raises
  leaves the committed tables as they were.
\<close>

subsection \<open>Rows\<close>

record customer_row =
  cu_id :: uuid
  cu_name :: string
  cu_email :: string
  cu_company :: "string option"
  cu_tier :: customer_tier
  cu_created_at :: datetime

record user_row =
  us_id :: uuid
  us_email :: string
  us_password_hash :: string
  us_full_name :: string
  us_role :: user_role
  us_is_active :: bool
  us_created_at :: datetime
  us_updated_at :: datetime

record ticket_row =
  tk_id :: uuid
  tk_customer_id :: uuid
  tk_assigned_agent_id :: "uuid option"
  tk_subject :: string
  tk_description :: string
  tk_priority :: ticket_priority
  tk_status :: ticket_status
  tk_ai_summary :: "string option"
  tk_created_at :: datetime
  tk_updated_at :: datetime

record approval_row =
  ap_id :: uuid
  ap_ticket_id :: uuid
  ap_requested_by :: "uuid option"
  ap_approved_by :: "uuid option"
  ap_status :: approval_status
  ap_comments :: "string option"
  ap_requested_at :: datetime
  ap_decided_at :: "datetime option"
  ap_draft_response :: string
  ap_retrieved_context :: "string option"
  ap_selected_agent :: string
  ap_matched_policy_rules :: "string list"

record audit_row =
  al_id :: uuid
  al_ticket_id :: uuid
  al_user_id :: "uuid option"
  al_event_type :: string
  al_description :: string
  al_event_metadata :: "json option"
  al_created_at :: datetime

record article_row =
  ka_id :: uuid
  ka_category :: string
  ka_title :: string
  ka_content :: string
  ka_created_at :: datetime
  ka_updated_at :: datetime

record agent_run_row =
  ar_id :: uuid
  ar_ticket_id :: uuid
  ar_agent_name :: string
  ar_model :: string
  ar_input :: json
  ar_output :: json
  ar_latency_ms :: int
  ar_tokens_prompt :: "int option"
  ar_tokens_completion :: "int option"
  ar_success :: bool
  ar_error_message :: "string option"
  ar_created_at :: datetime

record database =
  db_customers :: "customer_row list"
  db_users :: "user_row list"
  db_tickets :: "ticket_row list"
  db_approvals :: "approval_row list"
  db_audit_logs :: "audit_row list"
  db_articles :: "article_row list"
  db_agent_runs :: "agent_run_row list"

definition empty_db :: database where
  "empty_db = \<lparr>db_customers = [], db_users = [], db_tickets = [], db_approvals = [],
     db_audit_logs = [], db_articles = [], db_agent_runs = []\<rparr>"

subsection \<open>Constraints\<close>

text \<open>Whether a nullable foreign key refers to a row: \<open>NULL\<close> always does.\<close>

definition fk_opt :: "uuid option \<Rightarrow> uuid list \<Rightarrow> bool" where
  "fk_opt k ids \<longleftrightarrow> (case k of None \<Rightarrow> True | Some i \<Rightarrow> i \<in> set ids)"

definition customer_ids :: "database \<Rightarrow> uuid list" where "customer_ids db = map cu_id (db_customers db)"
definition user_ids :: "database \<Rightarrow> uuid list" where "user_ids db = map us_id (db_users db)"
definition ticket_ids :: "database \<Rightarrow> uuid list" where "ticket_ids db = map tk_id (db_tickets db)"

lemmas id_lists = customer_ids_def user_ids_def ticket_ids_def

definition ticket_ok :: "database \<Rightarrow> ticket_row \<Rightarrow> bool" where
  "ticket_ok db t \<longleftrightarrow> tk_customer_id t \<in> set (customer_ids db)
     \<and> fk_opt (tk_assigned_agent_id t) (user_ids db) \<and> length (tk_subject t) \<le> 255"

definition approval_fk :: "database \<Rightarrow> approval_row \<Rightarrow> bool" where
  "approval_fk db a \<longleftrightarrow> ap_ticket_id a \<in> set (ticket_ids db)
     \<and> fk_opt (ap_requested_by a) (user_ids db) \<and> fk_opt (ap_approved_by a) (user_ids db)"

definition audit_fk :: "database \<Rightarrow> audit_row \<Rightarrow> bool" where
  "audit_fk db l \<longleftrightarrow> al_ticket_id l \<in> set (ticket_ids db) \<and> fk_opt (al_user_id l) (user_ids db)"

text \<open>The constraints of every table, as the database holds them between transactions.\<close>

definition db_wf :: "database \<Rightarrow> bool" where
  "db_wf db \<longleftrightarrow>
     distinct (customer_ids db) \<and> distinct (user_ids db) \<and> distinct (ticket_ids db)
     \<and> distinct (map ap_id (db_approvals db)) \<and> distinct (map al_id (db_audit_logs db))
     \<and> distinct (map us_email (db_users db))
     \<and> (\<forall>t \<in> set (db_tickets db). ticket_ok db t)
     \<and> (\<forall>a \<in> set (db_approvals db). approval_fk db a \<and> length (ap_selected_agent a) \<le> 50)
     \<and> (\<forall>l \<in> set (db_audit_logs db). audit_fk db l \<and> length (al_event_type l) \<le> 100)
     \<and> (\<forall>r \<in> set (db_agent_runs db). ar_ticket_id r \<in> set (ticket_ids db))"

definition integrity_error :: exc where "integrity_error = IntegrityError ''constraint violated''"
definition data_error :: exc where "data_error = OtherExc ''value too long for type character varying''"

definition insert_ticket :: "ticket_row \<Rightarrow> database \<Rightarrow> exc + database" where
  "insert_ticket t db =
     (if 255 < length (tk_subject t) then Inl data_error
      else if tk_id t \<in> set (ticket_ids db) \<or> tk_customer_id t \<notin> set (customer_ids db)
        \<or> \<not> fk_opt (tk_assigned_agent_id t) (user_ids db) then Inl integrity_error
      else Inr (db\<lparr>db_tickets := db_tickets db @ [t]\<rparr>))"

definition insert_user :: "user_row \<Rightarrow> database \<Rightarrow> exc + database" where
  "insert_user u db =
     (if 255 < length (us_email u) \<or> 255 < length (us_full_name u) then Inl data_error
      else if us_id u \<in> set (user_ids db) \<or> us_email u \<in> us_email ` set (db_users db) then Inl integrity_error
      else Inr (db\<lparr>db_users := db_users db @ [u]\<rparr>))"

definition insert_customer :: "customer_row \<Rightarrow> database \<Rightarrow> exc + database" where
  "insert_customer c db =
     (if 255 < length (cu_name c) \<or> 255 < length (cu_email c) \<or> (case cu_company c of None \<Rightarrow> False | Some n \<Rightarrow> 255 < length n) then Inl data_error
      else if cu_id c \<in> set (customer_ids db) then Inl integrity_error
      else Inr (db\<lparr>db_customers := db_customers db @ [c]\<rparr>))"

definition insert_article :: "article_row \<Rightarrow> database \<Rightarrow> exc + database" where
  "insert_article a db =
     (if 50 < length (ka_category a) \<or> 255 < length (ka_title a) then Inl data_error
      else if ka_id a \<in> ka_id ` set (db_articles db) then Inl integrity_error
      else Inr (db\<lparr>db_articles := db_articles db @ [a]\<rparr>))"

definition insert_approval :: "approval_row \<Rightarrow> database \<Rightarrow> exc + database" where
  "insert_approval a db =
     (if 50 < length (ap_selected_agent a) then Inl data_error
      else if ap_id a \<in> set (map ap_id (db_approvals db)) \<or> \<not> approval_fk db a then Inl integrity_error
      else Inr (db\<lparr>db_approvals := db_approvals db @ [a]\<rparr>))"

definition insert_audit :: "audit_row \<Rightarrow> database \<Rightarrow> exc + database" where
  "insert_audit l db =
     (if 100 < length (al_event_type l) then Inl data_error
      else if al_id l \<in> set (map al_id (db_audit_logs db)) \<or> \<not> audit_fk db l then Inl integrity_error
      else Inr (db\<lparr>db_audit_logs := db_audit_logs db @ [l]\<rparr>))"

text \<open>The \<^verbatim>\<open>UPDATE\<close> that flushing a changed \<^verbatim>\<open>ApprovalRequest\<close> issues.\<close>

definition update_approval :: "approval_row \<Rightarrow> database \<Rightarrow> exc + database" where
  "update_approval a db =
     (if \<not> approval_fk db a then Inl integrity_error
      else Inr (db\<lparr>db_approvals := map (\<lambda>b. if ap_id b = ap_id a then a else b) (db_approvals db)\<rparr>))"

lemmas insert_defs = insert_ticket_def insert_approval_def insert_audit_def update_approval_def

subsection \<open>Sessions\<close>

datatype db_op = DbSelect | DbFlush | DbCommit | DbRollback

record db_env =
  d_fault :: "db_op \<Rightarrow> database \<Rightarrow> exc option"
  d_new_id :: "database \<Rightarrow> uuid"
  d_now :: "database \<Rightarrow> datetime"
  d_db_now :: "database \<Rightarrow> datetime"
  d_tie :: "uuid \<Rightarrow> nat"

record session_state =
  ss_work :: database
  ss_saved :: database

type_synonym 'a session = "('a, session_state) comp"

definition db_select :: "db_env \<Rightarrow> (database \<Rightarrow> 'a) \<Rightarrow> 'a session" where
  "db_select D q ss =
     (case d_fault D DbSelect (ss_work ss) of Some e \<Rightarrow> (Inl e, ss)
      | None \<Rightarrow> (Inr (q (ss_work ss)), ss))"

definition db_flush :: "db_env \<Rightarrow> (database \<Rightarrow> exc + database) \<Rightarrow> unit session" where
  "db_flush D g ss =
     (case d_fault D DbFlush (ss_work ss) of Some e \<Rightarrow> (Inl e, ss)
      | None \<Rightarrow> (case g (ss_work ss) of Inl e \<Rightarrow> (Inl e, ss)
                 | Inr db \<Rightarrow> (Inr (), ss\<lparr>ss_work := db\<rparr>)))"

definition db_commit :: "db_env \<Rightarrow> unit session" where
  "db_commit D ss =
     (case d_fault D DbCommit (ss_work ss) of Some e \<Rightarrow> (Inl e, ss)
      | None \<Rightarrow> (Inr (), ss\<lparr>ss_saved := ss_work ss\<rparr>))"

definition db_rollback :: "db_env \<Rightarrow> unit session" where
  "db_rollback D ss =
     (case d_fault D DbRollback (ss_work ss) of Some e \<Rightarrow> (Inl e, ss)
      | None \<Rightarrow> (Inr (), ss\<lparr>ss_work := ss_saved ss\<rparr>))"

text \<open>\<^verbatim>\<open>async with async_session_factory() as session:\<close>.\<close>

definition with_session :: "'a session \<Rightarrow> ('a, database) comp" where
  "with_session body db =
     (case body \<lparr>ss_work = db, ss_saved = db\<rparr> of (r, ss) \<Rightarrow> (r, ss_saved ss))"

text \<open>The order of a query: by a column, ties broken by the database.\<close>

definition order_asc :: "db_env \<Rightarrow> ('a \<Rightarrow> datetime) \<Rightarrow> ('a \<Rightarrow> uuid) \<Rightarrow> 'a list \<Rightarrow> 'a list" where
  "order_asc D key row_id rows = sort_key (\<lambda>r. (key r, d_tie D (row_id r))) rows"

definition order_desc :: "db_env \<Rightarrow> ('a \<Rightarrow> datetime) \<Rightarrow> ('a \<Rightarrow> uuid) \<Rightarrow> 'a list \<Rightarrow> 'a list" where
  "order_desc D key row_id rows = rev (order_asc D key row_id rows)"

subsection \<open>Facts on queries\<close>

lemma set_order [simp]:
  "set (order_asc D key i rows) = set rows" "set (order_desc D key i rows) = set rows"
  by (simp_all add: order_asc_def order_desc_def)

lemma mset_order [simp]:
  "mset (order_asc D key i rows) = mset rows" "mset (order_desc D key i rows) = mset rows"
  by (simp_all add: order_asc_def order_desc_def)

lemma length_order [simp]:
  "length (order_asc D key i rows) = length rows" "length (order_desc D key i rows) = length rows"
  by (simp_all add: order_asc_def order_desc_def)

lemma sorted_order_asc: "sorted (map key (order_asc D key i rows))"
proof -
  have "sorted_wrt (\<lambda>x y. (key x, d_tie D (i x)) \<le> (key y, d_tie D (i y))) (order_asc D key i rows)"
    unfolding order_asc_def using sorted_sort_key [of "\<lambda>r. (key r, d_tie D (i r))" rows]
    by (simp add: sorted_map)
  then have "sorted_wrt (\<lambda>x y. key x \<le> key y) (order_asc D key i rows)"
    by (rule sorted_wrt_mono_rel [rotated]) (auto simp: less_eq_prod_def)
  then show ?thesis by (simp add: sorted_map)
qed

lemma sorted_order_desc: "sorted (rev (map key (order_desc D key i rows)))"
  by (simp add: order_desc_def rev_map sorted_order_asc)

lemma order_Nil_iff [simp]:
  "order_asc D key i rows = [] \<longleftrightarrow> rows = []" "order_desc D key i rows = [] \<longleftrightarrow> rows = []"
  using set_order by (metis set_empty)+

text \<open>The first row of a descending query has the greatest key.\<close>

lemma order_desc_hd:
  assumes "rows \<noteq> []"
  shows "hd (order_desc D key i rows) \<in> set rows"
    and "r \<in> set rows \<Longrightarrow> key r \<le> key (hd (order_desc D key i rows))"
proof -
  let ?o = "order_desc D key i rows"
  from assms have ne: "?o \<noteq> []" by simp
  then show "hd ?o \<in> set rows" using set_order(2) hd_in_set by metis
  assume "r \<in> set rows"
  then have r: "r \<in> set ?o" by simp
  obtain x xs where o: "?o = x # xs" using ne by (cases ?o) auto
  have "sorted (map key (rev ?o))" by (simp add: order_desc_def sorted_order_asc)
  with o have "sorted (map key (rev xs) @ [key x])" by simp
  then have "\<forall>y \<in> set xs. key y \<le> key x" by (simp add: sorted_append)
  with o r show "key r \<le> key (hd ?o)" by auto
qed

subsection \<open>Invariants of sessions\<close>

text \<open>
  A relation between database states is lifted to sessions: if it leads from some earlier state
  to the working copy and to the committed state, it still does afterwards.
\<close>

definition ss_rel :: "(database \<Rightarrow> database \<Rightarrow> bool) \<Rightarrow> session_state \<Rightarrow> session_state \<Rightarrow> bool" where
  "ss_rel R ss ss' \<longleftrightarrow> (\<forall>d. R d (ss_work ss) \<and> R d (ss_saved ss) \<longrightarrow> R d (ss_work ss') \<and> R d (ss_saved ss'))"

lemma reflp_ss_rel [simp, step_rules]: "reflp (ss_rel R)"
  by (simp add: reflp_def ss_rel_def)

lemma transp_ss_rel [simp, step_rules]: "transp (ss_rel R)"
  by (simp add: transp_def ss_rel_def)

lemma steps_select [step_rules]: "steps (ss_rel R) (db_select D q)"
  by (simp add: steps_def db_select_def ss_rel_def split: option.splits)

lemma steps_commit [step_rules]: "steps (ss_rel R) (db_commit D)"
  by (simp add: steps_def db_commit_def ss_rel_def split: option.splits)

lemma steps_rollback [step_rules]: "steps (ss_rel R) (db_rollback D)"
  by (simp add: steps_def db_rollback_def ss_rel_def split: option.splits)

lemma steps_flush [step_rules]:
  assumes "transp R" "\<And>db db'. g db = Inr db' \<Longrightarrow> R db db'"
  shows "steps (ss_rel R) (db_flush D g)"
  using assms by (auto simp: steps_def db_flush_def ss_rel_def split: option.splits sum.splits dest: transpD)

lemma steps_with_session:
  assumes "reflp R" "steps (ss_rel R) body"
  shows "steps R (with_session body)"
  unfolding steps_def
proof
  fix db
  let ?s = "\<lparr>ss_work = db, ss_saved = db\<rparr>"
  from assms(2) have "ss_rel R ?s (snd (body ?s))" by (simp add: steps_def)
  with reflpD [OF assms(1), of db] show "R db (snd (with_session body db))"
    by (auto simp: ss_rel_def with_session_def split: prod.splits)
qed

lemma keeps_flush:
  "(\<And>db db'. I db \<Longrightarrow> g db = Inr db' \<Longrightarrow> I db') \<Longrightarrow> steps (ss_rel (keeps I)) (db_flush D g)"
  by (rule steps_flush) (auto simp: keeps_def)

subsection \<open>The operations keep the constraints\<close>

lemma fk_opt_append [simp]: "fk_opt k ids \<Longrightarrow> fk_opt k (ids @ ids2)"
  by (auto simp: fk_opt_def split: option.splits)

lemma insert_ticket_wf: "db_wf db \<Longrightarrow> insert_ticket t db = Inr db' \<Longrightarrow> db_wf db'"
  by (auto simp: insert_ticket_def db_wf_def ticket_ok_def approval_fk_def audit_fk_def id_lists split: if_splits)

lemma insert_user_wf: "db_wf db \<Longrightarrow> insert_user u db = Inr db' \<Longrightarrow> db_wf db'"
  by (auto simp: insert_user_def db_wf_def ticket_ok_def approval_fk_def audit_fk_def id_lists split: if_splits)

lemma insert_customer_wf: "db_wf db \<Longrightarrow> insert_customer c db = Inr db' \<Longrightarrow> db_wf db'"
  by (auto simp: insert_customer_def db_wf_def ticket_ok_def approval_fk_def audit_fk_def id_lists split: if_splits)

lemma insert_article_wf: "db_wf db \<Longrightarrow> insert_article a db = Inr db' \<Longrightarrow> db_wf db'"
  by (auto simp: insert_article_def db_wf_def ticket_ok_def approval_fk_def audit_fk_def id_lists split: if_splits)

lemma insert_approval_wf: "db_wf db \<Longrightarrow> insert_approval a db = Inr db' \<Longrightarrow> db_wf db'"
  by (auto simp: insert_approval_def db_wf_def ticket_ok_def approval_fk_def audit_fk_def id_lists split: if_splits)

lemma insert_audit_wf: "db_wf db \<Longrightarrow> insert_audit l db = Inr db' \<Longrightarrow> db_wf db'"
  by (auto simp: insert_audit_def db_wf_def ticket_ok_def approval_fk_def audit_fk_def id_lists split: if_splits)

lemma update_approval_wf:
  assumes "db_wf db" "update_approval a db = Inr db'" "length (ap_selected_agent a) \<le> 50"
  shows "db_wf db'"
proof -
  have ids: "ap_id \<circ> (\<lambda>b. if ap_id b = ap_id a then a else b) = ap_id" by auto
  from assms show ?thesis
    by (auto simp: ids update_approval_def db_wf_def ticket_ok_def approval_fk_def audit_fk_def id_lists split: if_splits)
qed

end
