(* ===== verification/Repositories.thy ===== *)
theory Repositories
  imports Database
begin

section \<open>The repositories and the audit service\<close>

text \<open>
  \<^verbatim>\<open>backend/database/repositories/\<close> (customers, tickets, approval requests, audit log) and
  \<^verbatim>\<open>backend/services/audit.py\<close>. A repository method is a session computation; the ORM object that
  a query returns is the row, and for approval requests the row with its eagerly loaded ticket.
  Changing attributes of such an object and flushing is an update of the row.
\<close>

subsection \<open>Customers\<close>

definition customer_get_by_id :: "db_env \<Rightarrow> uuid \<Rightarrow> customer_row option session" where
  "customer_get_by_id D customer_id =
     db_select D (\<lambda>db. find (\<lambda>c. cu_id c = customer_id) (db_customers db))"

definition customer_list_all :: "db_env \<Rightarrow> nat \<Rightarrow> customer_row list session" where
  "customer_list_all D limit =
     db_select D (\<lambda>db. take limit (order_desc D cu_created_at cu_id (db_customers db)))"

subsection \<open>Tickets\<close>

definition ticket_create :: "db_env \<Rightarrow> uuid \<Rightarrow> string \<Rightarrow> string \<Rightarrow> ticket_priority \<Rightarrow> ticket_row session" where
  "ticket_create D customer_id subject description priority ss =
     (let db = ss_work ss;
          ticket = \<lparr>tk_id = d_new_id D db, tk_customer_id = customer_id, tk_assigned_agent_id = None,
            tk_subject = subject, tk_description = description, tk_priority = priority,
            tk_status = TS_NEW, tk_ai_summary = None,
            tk_created_at = d_db_now D db, tk_updated_at = d_db_now D db\<rparr>
      in bind (db_flush D (insert_ticket ticket)) (\<lambda>_. ret ticket) ss)"

subsection \<open>Approval requests\<close>

type_synonym approval_request = "approval_row \<times> ticket_row option"

text \<open>\<^verbatim>\<open>selectinload(ApprovalRequest.ticket)\<close>.\<close>

definition with_ticket :: "database \<Rightarrow> approval_row \<Rightarrow> approval_request" where
  "with_ticket db a = (a, find (\<lambda>t. tk_id t = ap_ticket_id a) (db_tickets db))"

definition no_result_found :: exc where
  "no_result_found = OtherExc ''No row was found when one was required''"

definition reload_with_ticket :: "db_env \<Rightarrow> uuid \<Rightarrow> approval_request session" where
  "reload_with_ticket D approval_request_id =
     bind (db_select D (\<lambda>db. map (with_ticket db)
             (filter (\<lambda>a. ap_id a = approval_request_id) (db_approvals db))))
       (\<lambda>rows. case rows of [a] \<Rightarrow> ret a | _ \<Rightarrow> raise no_result_found)"

definition create_pending ::
    "db_env \<Rightarrow> uuid \<Rightarrow> string \<Rightarrow> string option \<Rightarrow> string \<Rightarrow> string list \<Rightarrow> approval_request session" where
  "create_pending D ticket_id draft_response retrieved_context selected_agent matched_policy_rules ss =
     (let db = ss_work ss;
          row = \<lparr>ap_id = d_new_id D db, ap_ticket_id = ticket_id, ap_requested_by = None,
            ap_approved_by = None, ap_status = AS_PENDING, ap_comments = None,
            ap_requested_at = d_db_now D db, ap_decided_at = None,
            ap_draft_response = draft_response, ap_retrieved_context = retrieved_context,
            ap_selected_agent = selected_agent, ap_matched_policy_rules = matched_policy_rules\<rparr>
      in bind (db_flush D (insert_approval row)) (\<lambda>_. reload_with_ticket D (ap_id row)) ss)"

definition list_pending :: "db_env \<Rightarrow> approval_request list session" where
  "list_pending D =
     db_select D (\<lambda>db. map (with_ticket db)
       (order_asc D ap_requested_at ap_id (filter (\<lambda>a. ap_status a = AS_PENDING) (db_approvals db))))"

definition get_by_ticket_id :: "db_env \<Rightarrow> uuid \<Rightarrow> approval_request option session" where
  "get_by_ticket_id D ticket_id =
     db_select D (\<lambda>db.
       case order_desc D ap_requested_at ap_id (filter (\<lambda>a. ap_ticket_id a = ticket_id) (db_approvals db)) of
         [] \<Rightarrow> None | a # _ \<Rightarrow> Some (with_ticket db a))"

definition decide_approval ::
    "db_env \<Rightarrow> approval_request \<Rightarrow> approval_status \<Rightarrow> uuid \<Rightarrow> string option \<Rightarrow> approval_request session" where
  "decide_approval D request status reviewer_id comments ss =
     (let a = (fst request)\<lparr>ap_status := status, ap_approved_by := Some reviewer_id,
                 ap_comments := comments, ap_decided_at := Some (d_now D (ss_work ss))\<rparr>
      in bind (db_flush D (update_approval a)) (\<lambda>_. ret (a, snd request)) ss)"

definition update_draft :: "db_env \<Rightarrow> approval_request \<Rightarrow> string \<Rightarrow> approval_request session" where
  "update_draft D request draft_response =
     (let a = (fst request)\<lparr>ap_draft_response := draft_response\<rparr>
      in bind (db_flush D (update_approval a)) (\<lambda>_. ret (a, snd request)))"

subsection \<open>The audit log\<close>

definition audit_create ::
    "db_env \<Rightarrow> uuid \<Rightarrow> string \<Rightarrow> string \<Rightarrow> uuid option \<Rightarrow> json \<Rightarrow> audit_row session" where
  "audit_create D ticket_id event_type description user_id metadata ss =
     (let db = ss_work ss;
          row = \<lparr>al_id = d_new_id D db, al_ticket_id = ticket_id, al_user_id = user_id,
            al_event_type = event_type, al_description = description,
            al_event_metadata = Some metadata, al_created_at = d_db_now D db\<rparr>
      in bind (db_flush D (insert_audit row)) (\<lambda>_. ret row) ss)"

text \<open>\<open>log_audit_event\<close>: whatever goes wrong is logged, never raised. \<open>metadata or {}\<close>.\<close>

definition log_audit_event ::
    "db_env \<Rightarrow> uuid \<Rightarrow> string \<Rightarrow> string \<Rightarrow> uuid option \<Rightarrow> (string \<times> json) list option
      \<Rightarrow> (unit, database) comp" where
  "log_audit_event D ticket_id event_type description user_id metadata =
     catch
       (with_session
         (bind (audit_create D ticket_id event_type description user_id
                  (JObj (case metadata of None \<Rightarrow> [] | Some m \<Rightarrow> m)))
           (\<lambda>_. db_commit D)))
       (\<lambda>e. ret ())"

subsection \<open>How the operations change the tables\<close>

text \<open>Rows are only ever added, approvals replaced by rows with the same identity.\<close>

definition grows :: "database \<Rightarrow> database \<Rightarrow> bool" where
  "grows db db' \<longleftrightarrow>
     db_customers db' = db_customers db \<and> db_users db' = db_users db
     \<and> db_articles db' = db_articles db \<and> db_agent_runs db' = db_agent_runs db
     \<and> (\<exists>ts. db_tickets db' = db_tickets db @ ts)
     \<and> (\<exists>ls. db_audit_logs db' = db_audit_logs db @ ls)
     \<and> (\<exists>as. map (\<lambda>a. (ap_id a, ap_ticket_id a)) (db_approvals db') =
            map (\<lambda>a. (ap_id a, ap_ticket_id a)) (db_approvals db) @ as)"

text \<open>Only the audit log changes, and it is extended at its end.\<close>

definition audit_only :: "database \<Rightarrow> database \<Rightarrow> bool" where
  "audit_only db db' \<longleftrightarrow> (\<exists>ls. db' = db\<lparr>db_audit_logs := db_audit_logs db @ ls\<rparr>)"

lemma reflp_grows [simp]: "reflp grows"
  by (simp add: reflp_def grows_def)

lemma transp_grows [simp]: "transp grows"
  by (fastforce simp: transp_def grows_def)

lemma reflp_audit_only [simp]: "reflp audit_only"
proof -
  have "db = db\<lparr>db_audit_logs := db_audit_logs db @ []\<rparr>" for db :: database by simp
  then show ?thesis unfolding reflp_def audit_only_def by blast
qed

lemma transp_audit_only [simp]: "transp audit_only"
  by (auto simp: transp_def audit_only_def)

lemma audit_only_grows: "audit_only db db' \<Longrightarrow> grows db db'"
  by (auto simp: audit_only_def grows_def)

lemma insert_audit_only: "insert_audit l db = Inr db' \<Longrightarrow> audit_only db db'"
  by (auto simp: insert_audit_def audit_only_def split: if_splits)

lemma insert_ticket_grows: "insert_ticket t db = Inr db' \<Longrightarrow> grows db db'"
  by (auto simp: insert_ticket_def grows_def split: if_splits)

lemma insert_approval_grows: "insert_approval a db = Inr db' \<Longrightarrow> grows db db'"
  by (auto simp: insert_approval_def grows_def split: if_splits)

lemma steps_audit_create:
  assumes "transp R" "\<And>l db db'. insert_audit l db = Inr db' \<Longrightarrow> R db db'"
  shows "steps (ss_rel R) (audit_create D t ev descr u m)"
  unfolding steps_def audit_create_def Let_def
proof
  fix ss
  show "ss_rel R ss (snd (bind (db_flush D (insert_audit l)) (\<lambda>_. ret l) ss))" for l
    by (rule steps_apply, intro steps_bind steps_flush steps_ret transp_ss_rel reflp_ss_rel assms)
qed

lemma steps_log_audit:
  assumes "reflp R" "transp R" "\<And>l db db'. insert_audit l db = Inr db' \<Longrightarrow> R db db'"
  shows "steps R (log_audit_event D t ev descr u m)"
  unfolding log_audit_event_def
  by (intro steps_catch steps_with_session steps_bind steps_ret steps_audit_create steps_commit
        transp_ss_rel assms)

lemma log_audit_returns: "returns (log_audit_event D t ev descr u m)"
  unfolding log_audit_event_def by (intro returns_catch returns_ret)

lemma log_audit_only: "steps audit_only (log_audit_event D t ev descr u m)"
  by (rule steps_log_audit) (auto intro: insert_audit_only)

lemma log_audit_wf: "steps (keeps db_wf) (log_audit_event D t ev descr u m)"
  by (rule steps_log_audit) (auto simp: keeps_def intro: insert_audit_wf)

text \<open>A run-time environment in which no statement fails.\<close>

definition no_faults :: "db_env \<Rightarrow> bool" where
  "no_faults D \<longleftrightarrow> (\<forall>op db. d_fault D op db = None)"

lemmas session_defs = db_select_def db_flush_def db_commit_def db_rollback_def with_session_def

lemma log_audit_appends:
  assumes "no_faults D" "t \<in> set (ticket_ids db)" "fk_opt u (user_ids db)" "length ev \<le> 100"
    and "d_new_id D db \<notin> al_id ` set (db_audit_logs db)"
  shows "log_audit_event D t ev descr u m db =
    (Inr (), db\<lparr>db_audit_logs := db_audit_logs db @
       [\<lparr>al_id = d_new_id D db, al_ticket_id = t, al_user_id = u, al_event_type = ev,
         al_description = descr, al_event_metadata = Some (JObj (case m of None \<Rightarrow> [] | Some kvs \<Rightarrow> kvs)),
         al_created_at = d_db_now D db\<rparr>]\<rparr>)"
  using assms
  by (simp add: log_audit_event_def audit_create_def session_defs bind_def catch_def no_faults_def
      insert_audit_def audit_fk_def Let_def)

subsection \<open>Queries of the approval queue\<close>

definition pending_rows :: "database \<Rightarrow> approval_row list" where
  "pending_rows db = filter (\<lambda>a. ap_status a = AS_PENDING) (db_approvals db)"

lemma with_ticket_wf:
  assumes "db_wf db" "a \<in> set (db_approvals db)"
  obtains t where "with_ticket db a = (a, Some t)" "t \<in> set (db_tickets db)" "tk_id t = ap_ticket_id a"
proof -
  from assms have "ap_ticket_id a \<in> set (ticket_ids db)" by (auto simp: db_wf_def approval_fk_def)
  then obtain t where "find (\<lambda>t. tk_id t = ap_ticket_id a) (db_tickets db) = Some t"
    by (cases "find (\<lambda>t. tk_id t = ap_ticket_id a) (db_tickets db)") (auto simp: find_None_iff ticket_ids_def)
  with that show thesis by (auto simp: with_ticket_def find_Some_iff)
qed

text \<open>The queue that \<open>list_pending\<close> returns is the pending approval requests, each exactly once,
  oldest request first, with its ticket, whatever order the database scans the table in.\<close>

lemma list_pending_queue:
  assumes "list_pending D ss = (Inr queue, ss')"
  shows "mset (map fst queue) = mset (pending_rows (ss_work ss))
    \<and> sorted (map (ap_requested_at \<circ> fst) queue)
    \<and> (\<forall>r \<in> set queue. r = with_ticket (ss_work ss) (fst r)) \<and> ss' = ss"
proof -
  from assms have q: "queue = map (with_ticket (ss_work ss))
      (order_asc D ap_requested_at ap_id (pending_rows (ss_work ss)))" and ss: "ss' = ss"
    by (auto simp: list_pending_def db_select_def pending_rows_def split: option.splits)
  have fst: "fst \<circ> with_ticket db = id" for db by (auto simp: with_ticket_def)
  have "ap_requested_at \<circ> fst \<circ> with_ticket db = ap_requested_at" for db by (auto simp: with_ticket_def)
  with sorted_order_asc [of ap_requested_at D ap_id "pending_rows (ss_work ss)"] show ?thesis
    unfolding q ss by (auto simp: fst comp_assoc [symmetric] with_ticket_def)
qed

text \<open>\<open>get_by_ticket_id\<close> returns a most recent approval request of the ticket, and \<open>None\<close> exactly
  when the ticket has none.\<close>

lemma get_by_ticket_id_latest:
  assumes "get_by_ticket_id D ticket_id ss = (Inr r, ss')"
  shows "case r of
      None \<Rightarrow> \<forall>a \<in> set (db_approvals (ss_work ss)). ap_ticket_id a \<noteq> ticket_id
    | Some q \<Rightarrow> q = with_ticket (ss_work ss) (fst q) \<and> fst q \<in> set (db_approvals (ss_work ss))
        \<and> ap_ticket_id (fst q) = ticket_id
        \<and> (\<forall>a \<in> set (db_approvals (ss_work ss)). ap_ticket_id a = ticket_id \<longrightarrow>
             ap_requested_at a \<le> ap_requested_at (fst q))"
proof -
  let ?rows = "filter (\<lambda>a. ap_ticket_id a = ticket_id) (db_approvals (ss_work ss))"
  let ?o = "order_desc D ap_requested_at ap_id ?rows"
  from assms have r: "r = (case ?o of [] \<Rightarrow> None | a # _ \<Rightarrow> Some (with_ticket (ss_work ss) a))"
    by (auto simp: get_by_ticket_id_def db_select_def split: option.splits)
  show ?thesis
  proof (cases "?rows = []")
    case True
    then show ?thesis by (simp add: r order_desc_def order_asc_def filter_empty_conv)
  next
    case False
    then have ne: "?o \<noteq> []" by simp
    then obtain a os where o: "?o = a # os" by (cases ?o) auto
    from order_desc_hd [OF False, where D = D and key = ap_requested_at and i = ap_id] o
    have "a \<in> set ?rows" "\<And>b. b \<in> set ?rows \<Longrightarrow> ap_requested_at b \<le> ap_requested_at a" by auto
    with o show ?thesis by (simp add: r with_ticket_def)
  qed
qed

end
