(* ===== verification/PyFloat.thy ===== *)
theory PyFloat
  imports Complex_Main "HOL-Library.Log_Nat" PyText
begin

section \<open>Python floats\<close>

text \<open>
  A Python \<open>float\<close> is an IEEE 754 binary64 number. The program reads a float from a
  decimal string (\<open>float(match.group(1).replace(",", ""))\<close>) and compares floats with the
  literals 500.0 and 0.7, so the model rounds: \<open>binary64 x\<close> is the double nearest to the
  non-negative rational \<open>x\<close>, ties to the even significand, infinity on overflow, with
  gradual underflow.
\<close>

datatype py_float = Fin rat | PosInf | NegInf | NaN

fun float_less :: "py_float \<Rightarrow> py_float \<Rightarrow> bool" where
  "float_less NaN _ = False"
| "float_less _ NaN = False"
| "float_less (Fin a) (Fin b) = (a < b)"
| "float_less (Fin a) PosInf = True"
| "float_less (Fin a) NegInf = False"
| "float_less PosInf _ = False"
| "float_less NegInf NegInf = False"
| "float_less NegInf _ = True"

subsection \<open>Rounding\<close>

text \<open>\<open>floor_log2 x\<close> is the greatest \<open>e\<close> with \<open>2^e \<le> x\<close>, for \<open>x > 0\<close>.\<close>

definition floor_log2 :: "rat \<Rightarrow> int" where
  "floor_log2 x =
     (if 1 \<le> x then int (floorlog 2 (nat \<lfloor>x\<rfloor>)) - 1
      else - int (floorlog 2 (nat (\<lceil>1 / x\<rceil> - 1))))"

definition pow2 :: "int \<Rightarrow> rat" where
  "pow2 e = (if 0 \<le> e then 2 ^ nat e else 1 / 2 ^ nat (- e))"

definition round_half_even :: "rat \<Rightarrow> int" where
  "round_half_even x =
     (let f = \<lfloor>x\<rfloor>; d = x - of_int f
      in if d < 1 / 2 then f else if 1 / 2 < d then f + 1 else if even f then f else f + 1)"

definition binary64 :: "rat \<Rightarrow> py_float" where
  "binary64 x =
     (if x = 0 then Fin 0
      else (let e = max (floor_log2 x - 52) (-1074);
                v = of_int (round_half_even (x * pow2 (- e))) * pow2 e
            in if pow2 1024 \<le> v then PosInf else Fin v))"

lemma pow2_pos [simp]: "0 < pow2 e"
  by (simp add: pow2_def)

lemma pow2_powi: "pow2 e = 2 powi e"
  by (simp add: pow2_def power_int_def inverse_eq_divide power_one_over)

lemma pow2_add: "pow2 (a + b) = pow2 a * pow2 b"
  by (simp add: pow2_powi power_int_add)

lemma pow2_minus: "pow2 (- e) = 1 / pow2 e"
  by (simp add: pow2_powi power_int_minus divide_inverse)

lemma pow2_mono: "a \<le> b \<Longrightarrow> pow2 a \<le> pow2 b"
  by (simp add: pow2_powi power_int_increasing)

lemma of_nat_le_power2: "m \<le> 2 ^ k \<Longrightarrow> (of_nat m :: rat) \<le> 2 ^ k"
  using of_nat_le_iff [of m "2 ^ k", where ?'a = rat] by simp

lemma power2_le_of_nat: "2 ^ k \<le> m \<Longrightarrow> 2 ^ k \<le> (of_nat m :: rat)"
  using of_nat_le_iff [of "2 ^ k" m, where ?'a = rat] by simp

lemma floor_log2_ge1:
  assumes "1 \<le> x"
  shows "pow2 (floor_log2 x) \<le> x \<and> x < pow2 (floor_log2 x + 1) \<and> 0 \<le> floor_log2 x"
proof -
  define n where "n = nat \<lfloor>x\<rfloor>"
  have n: "0 < n" "of_nat n \<le> x" "x < of_nat n + 1"
    using assms by (auto simp: n_def le_floor_iff) linarith
  define k where "k = floorlog 2 n"
  have k: "0 < k" "2 ^ (k - 1) \<le> n" "n < 2 ^ k"
    using n(1) floorlog_bounds [of n 2] by (auto simp: k_def floorlog_eq_zero_iff intro: gr0I)
  have fl: "floor_log2 x = int k - 1"
    using assms by (simp add: floor_log2_def k_def n_def)
  have lo: "pow2 (int k - 1) = 2 ^ (k - 1)" and hi: "pow2 (int k - 1 + 1) = 2 ^ k"
    using k(1) by (simp_all add: pow2_def nat_diff_distrib)
  have "(2 :: rat) ^ (k - 1) \<le> of_nat n"
    using k(2) by (rule power2_le_of_nat)
  moreover have "of_nat n + 1 \<le> (2 :: rat) ^ k"
    using of_nat_le_power2 [of "n + 1" k] k(3) by simp
  ultimately show ?thesis
    using n k(1) unfolding fl lo hi by linarith
qed

lemma floor_log2_less1:
  assumes "0 < x" and "x < 1"
  shows "pow2 (floor_log2 x) \<le> x \<and> x < pow2 (floor_log2 x + 1) \<and> floor_log2 x < 0"
proof -
  define m where "m = nat (\<lceil>1 / x\<rceil> - 1)"
  have "1 < 1 / x" using assms by simp
  then have "of_int 1 < 1 / x" by (simp only: of_int_1)
  then have "1 < \<lceil>1 / x\<rceil>" by (rule less_ceiling_iff [THEN iffD2])
  then have c: "2 \<le> \<lceil>1 / x\<rceil>" by linarith
  have m: "0 < m" "int m = \<lceil>1 / x\<rceil> - 1"
    using c unfolding m_def by linarith+
  have mb: "of_nat m < 1 / x" "1 / x \<le> of_nat m + 1"
  proof -
    have "of_int \<lceil>1 / x\<rceil> - 1 < 1 / x" "1 / x \<le> of_int \<lceil>1 / x\<rceil>" by linarith+
    moreover have "(of_nat m :: rat) = of_int \<lceil>1 / x\<rceil> - 1"
      using m(2) by (metis of_int_1 of_int_diff of_int_of_nat_eq)
    ultimately show "of_nat m < 1 / x" "1 / x \<le> of_nat m + 1" by simp_all
  qed
  define k where "k = floorlog 2 m"
  have k: "0 < k" "2 ^ (k - 1) \<le> m" "m < 2 ^ k"
    using m(1) floorlog_bounds [of m 2] by (auto simp: k_def floorlog_eq_zero_iff intro: gr0I)
  have fl: "floor_log2 x = - int k"
    using assms by (simp add: floor_log2_def k_def m_def)
  have lo: "pow2 (- int k) = 1 / 2 ^ k" by (simp add: pow2_def)
  have hi: "pow2 (- int k + 1) = 1 / 2 ^ (k - 1)"
  proof (cases "k = 1")
    case False
    with k(1) have "nat (int k - 1) = k - 1" by simp
    with False k(1) show ?thesis by (simp add: pow2_def)
  qed (simp add: pow2_def)
  have "(of_nat m + 1 :: rat) \<le> 2 ^ k"
    using of_nat_le_power2 [of "m + 1" k] k(3) by simp
  then have "1 / x \<le> 2 ^ k" using mb(2) by linarith
  then have 1: "1 / 2 ^ k \<le> x" using assms by (simp add: field_simps)
  have "(2 :: rat) ^ (k - 1) \<le> of_nat m"
    using k(2) by (rule power2_le_of_nat)
  then have "(2 :: rat) ^ (k - 1) < 1 / x" using mb(1) by linarith
  then have 2: "x < 1 / 2 ^ (k - 1)" using assms by (simp add: field_simps)
  show ?thesis using 1 2 k(1) unfolding fl lo hi by simp
qed

lemma floor_log2_bounds:
  "0 < x \<Longrightarrow> pow2 (floor_log2 x) \<le> x \<and> x < pow2 (floor_log2 x + 1)"
  using floor_log2_ge1 [of x] floor_log2_less1 [of x] by (cases "1 \<le> x") auto

lemma floor_log2_eqI: "pow2 e \<le> x \<Longrightarrow> x < pow2 (e + 1) \<Longrightarrow> floor_log2 x = e"
proof -
  assume a: "pow2 e \<le> x" "x < pow2 (e + 1)"
  then have "0 < x" using pow2_pos [of e] by linarith
  from floor_log2_bounds [OF this] a
  have "pow2 (floor_log2 x) < pow2 (e + 1)" "pow2 e < pow2 (floor_log2 x + 1)" by linarith+
  then have "\<not> e + 1 \<le> floor_log2 x" "\<not> floor_log2 x + 1 \<le> e"
    using pow2_mono [of "e + 1" "floor_log2 x"] pow2_mono [of "floor_log2 x + 1" e] by linarith+
  then show ?thesis by linarith
qed

lemma round_half_even_less: "x < of_int n \<Longrightarrow> round_half_even x \<le> n"
proof -
  assume "x < of_int n"
  then have "\<lfloor>x\<rfloor> < n" by (simp add: floor_less_iff)
  then show ?thesis unfolding round_half_even_def Let_def by auto
qed

lemma round_half_even_ge: "of_int n \<le> x \<Longrightarrow> n \<le> round_half_even x"
proof -
  assume "of_int n \<le> x"
  then have "n \<le> \<lfloor>x\<rfloor>" by (simp add: le_floor_iff)
  then show ?thesis unfolding round_half_even_def Let_def by auto
qed

lemma round_half_even_gt_even:
  assumes "even n"
  shows "n < round_half_even x \<longleftrightarrow> of_int n + 1 / 2 < x"
proof -
  consider "\<lfloor>x\<rfloor> < n" | "\<lfloor>x\<rfloor> = n" | "n < \<lfloor>x\<rfloor>" by linarith
  then show ?thesis
  proof cases
    case 1
    then have "x < of_int n" by (simp add: floor_less_iff)
    then show ?thesis using round_half_even_less [of x n] by linarith
  next
    case 2
    moreover have "of_int n + 1 / 2 < x \<longleftrightarrow> 1 / 2 < x - of_int n" by linarith
    ultimately show ?thesis
      using assms unfolding round_half_even_def Let_def by auto
  next
    case 3
    then have "n + 1 \<le> \<lfloor>x\<rfloor>" by linarith
    then have le: "of_int n + 1 \<le> x" using le_floor_iff [of "n + 1" x] by simp
    have "n + 1 \<le> round_half_even x" by (rule round_half_even_ge) (use le in simp)
    with le show ?thesis by linarith
  qed
qed

subsection \<open>Comparison with a literal\<close>

text \<open>
  500.0 is a double whose significand is even, and its neighbour above is \<open>500 + 2^-44\<close>:
  a decimal rounds to a double above 500.0 exactly when it exceeds the midpoint.
\<close>

lemma pow2_nat: "0 \<le> e \<Longrightarrow> pow2 e = of_int (2 ^ nat e)"
  by (simp add: pow2_def)

lemma scaled_bounds:
  assumes "pow2 a \<le> x" and "e \<le> a"
  shows "pow2 a \<le> of_int (round_half_even (x * pow2 (- e))) * pow2 e"
proof -
  have "pow2 (a - e) \<le> x * pow2 (- e)"
    using assms(1) by (simp add: pow2_add [of a "- e", simplified] mult_right_mono)
  then have "2 ^ nat (a - e) \<le> round_half_even (x * pow2 (- e))"
    using assms(2) by (intro round_half_even_ge) (simp add: pow2_nat)
  then have "(of_int (2 ^ nat (a - e)) :: rat) \<le> of_int (round_half_even (x * pow2 (- e)))"
    by (simp only: of_int_le_iff)
  then have "pow2 (a - e) * pow2 e \<le> of_int (round_half_even (x * pow2 (- e))) * pow2 e"
    using assms(2) by (intro mult_right_mono) (simp_all add: pow2_nat less_imp_le)
  then show ?thesis by (simp add: pow2_add [symmetric])
qed

lemma scaled_upper:
  assumes "x < pow2 a" and "e \<le> a"
  shows "of_int (round_half_even (x * pow2 (- e))) * pow2 e \<le> pow2 a"
proof -
  have "x * pow2 (- e) < pow2 (a - e)"
    using assms(1) by (simp add: pow2_add [of a "- e", simplified] mult_strict_right_mono)
  then have "round_half_even (x * pow2 (- e)) \<le> 2 ^ nat (a - e)"
    using assms(2) by (intro round_half_even_less) (simp add: pow2_nat)
  then have "(of_int (round_half_even (x * pow2 (- e))) :: rat) \<le> of_int (2 ^ nat (a - e))"
    by (simp only: of_int_le_iff)
  then have "of_int (round_half_even (x * pow2 (- e))) * pow2 e \<le> pow2 (a - e) * pow2 e"
    using assms(2) by (intro mult_right_mono) (simp_all add: pow2_nat less_imp_le)
  then show ?thesis by (simp add: pow2_add [symmetric])
qed

lemma binary64_Fin:
  assumes "0 < x" and "x < pow2 9"
  shows "binary64 x = Fin (of_int (round_half_even (x * pow2 (- max (floor_log2 x - 52) (-1074))))
           * pow2 (max (floor_log2 x - 52) (-1074)))"
proof -
  have "pow2 (floor_log2 x) < pow2 9"
    using floor_log2_bounds [OF assms(1)] assms(2) by linarith
  then have "floor_log2 x < 9"
    using pow2_mono [of 9 "floor_log2 x"] by linarith
  then have "max (floor_log2 x - 52) (-1074) \<le> 9" by linarith
  from scaled_upper [OF assms(2) this] have "of_int (round_half_even
      (x * pow2 (- max (floor_log2 x - 52) (-1074)))) * pow2 (max (floor_log2 x - 52) (-1074)) \<le> pow2 9" .
  moreover have "pow2 9 < pow2 1024" by (simp add: pow2_powi power_int_strict_increasing)
  ultimately show ?thesis using assms(1) unfolding binary64_def Let_def by simp
qed

lemma binary64_gt_500:
  assumes "0 \<le> x"
  shows "float_less (Fin 500) (binary64 x) \<longleftrightarrow> 500 + 1 / 2 ^ 45 < x"
proof -
  have p8: "pow2 8 = 256" and p9: "pow2 9 = 512" by (simp_all add: pow2_def)
  consider "x = 0" | "0 < x" "x < 256" | "256 \<le> x" "x < 512" | "512 \<le> x"
    using assms by linarith
  then show ?thesis
  proof cases
    case 1
    then show ?thesis by (simp add: binary64_def)
  next
    case 2
    define e where "e = max (floor_log2 x - 52) (-1074)"
    have "pow2 (floor_log2 x) < pow2 8"
      using floor_log2_bounds [OF 2(1)] 2(2) p8 by linarith
    then have "floor_log2 x < 8" using pow2_mono [of 8 "floor_log2 x"] by linarith
    then have "e \<le> 8" by (simp add: e_def)
    with 2 p8 have "of_int (round_half_even (x * pow2 (- e))) * pow2 e \<le> 256"
      using scaled_upper [of x 8 e] by simp
    with 2 p9 show ?thesis by (simp add: binary64_Fin e_def)
  next
    case 3
    have fl: "floor_log2 x = 8" using 3 p8 p9 by (intro floor_log2_eqI) simp_all
    have e: "pow2 (-44) = 1 / 2 ^ 44" "pow2 44 = 2 ^ 44" by (simp_all add: pow2_def)
    have "binary64 x = Fin (of_int (round_half_even (x * 2 ^ 44)) / 2 ^ 44)"
      using 3 p9 by (simp add: binary64_Fin fl e)
    moreover have "500 < (of_int (round_half_even (x * 2 ^ 44)) / 2 ^ 44 :: rat) \<longleftrightarrow>
        500 * 2 ^ 44 < round_half_even (x * 2 ^ 44)"
    proof -
      have "500 < (of_int (round_half_even (x * 2 ^ 44)) / 2 ^ 44 :: rat) \<longleftrightarrow>
          of_int (500 * 2 ^ 44) < (of_int (round_half_even (x * 2 ^ 44)) :: rat)"
        by (simp add: field_simps)
      then show ?thesis by (simp only: of_int_less_iff)
    qed
    ultimately show ?thesis
      using round_half_even_gt_even [of "500 * 2 ^ 44" "x * 2 ^ 44"] by (simp add: field_simps)
  next
    case 4
    then have x: "0 < x" by linarith
    define e where "e = max (floor_log2 x - 52) (-1074)"
    have "pow2 9 < pow2 (floor_log2 x + 1)"
      using floor_log2_bounds [OF x] 4 p9 by linarith
    then have f: "9 \<le> floor_log2 x"
      using pow2_mono [of "floor_log2 x + 1" 9] by linarith
    then have "e \<le> floor_log2 x" by (simp add: e_def)
    then have "pow2 (floor_log2 x) \<le> of_int (round_half_even (x * pow2 (- e))) * pow2 e"
      using scaled_bounds floor_log2_bounds [OF x] by blast
    moreover have "512 \<le> pow2 (floor_log2 x)" using pow2_mono [OF f] p9 by simp
    ultimately have "500 < of_int (round_half_even (x * pow2 (- e))) * pow2 e" by linarith
    moreover have "500 + 1 / 2 ^ 45 < x" using 4 by simp
    ultimately show ?thesis
      using x by (simp add: binary64_def Let_def e_def)
  qed
qed

end
