(* ===== verification/Ranking.thy ===== *)
theory Ranking
  imports Cache Repositories
begin

section \<open>Ranking knowledge articles\<close>

text \<open>
  \<^verbatim>\<open>backend/database/repositories/knowledge_article.py\<close>: the keywords of a text, ranking by keyword
  overlap, and the repository's only query. Python's \<^verbatim>\<open>sorted(..., reverse=True)\<close> is stable, so it
  is a stable sort by the negated score.
\<close>

definition is_word_char :: "char \<Rightarrow> bool" where
  "is_word_char c \<longleftrightarrow> (97 \<le> ord c \<and> ord c \<le> 122) \<or> (65 \<le> ord c \<and> ord c \<le> 90) \<or> c = CHR 0x27"

text \<open>\<open>_WORD_PATTERN.findall\<close>: the maximal runs of word characters, from left to right.\<close>

function word_runs :: "string \<Rightarrow> string list" where
  "word_runs s =
     (case dropWhile (\<lambda>c. \<not> is_word_char c) s of
        [] \<Rightarrow> []
      | c # s' \<Rightarrow> (c # takeWhile is_word_char s') # word_runs (dropWhile is_word_char s'))"
  by pat_completeness auto
termination
proof (relation "measure length")
  fix s s' :: string and c
  assume "dropWhile (\<lambda>c. \<not> is_word_char c) s = c # s'"
  then have "length (c # s') \<le> length s" using length_dropWhile_le by metis
  moreover have "length (dropWhile is_word_char s') \<le> length s'" by (rule length_dropWhile_le)
  ultimately show "(dropWhile is_word_char s', s) \<in> measure length" by simp
qed simp

declare word_runs.simps [simp del]

definition MIN_WORD_LENGTH :: nat where "MIN_WORD_LENGTH = 3"

definition text_keywords :: "string \<Rightarrow> string set" where
  "text_keywords text = set (filter (\<lambda>w. MIN_WORD_LENGTH \<le> length w) (word_runs (py_lower text)))"

definition overlap_score :: "string \<Rightarrow> article_row \<Rightarrow> nat" where
  "overlap_score query_text a = card (text_keywords query_text \<inter> text_keywords (ka_title a @ '' '' @ ka_content a))"

text \<open>\<^verbatim>\<open>sorted(xs, key=score, reverse=True)\<close>.\<close>

definition sorted_reverse :: "('a \<Rightarrow> nat) \<Rightarrow> 'a list \<Rightarrow> 'a list" where
  "sorted_reverse score xs = sort_key (\<lambda>x. - int (score x)) xs"

definition rank_by_keyword_overlap :: "article_row list \<Rightarrow> string \<Rightarrow> nat \<Rightarrow> article_row list" where
  "rank_by_keyword_overlap articles query_text limit =
     (if articles = [] then []
      else let ranked = sorted_reverse (overlap_score query_text) articles
           in if overlap_score query_text (hd ranked) = 0 then take limit articles else take limit ranked)"

definition article_search :: "db_env \<Rightarrow> string \<Rightarrow> string \<Rightarrow> nat \<Rightarrow> article_row list session" where
  "article_search D category query_text limit =
     bind (db_select D (\<lambda>db. order_desc D ka_created_at ka_id
            (filter (\<lambda>a. ka_category a = category) (db_articles db))))
       (\<lambda>candidates. ret (rank_by_keyword_overlap candidates query_text limit))"

subsection \<open>Keywords do not see whitespace and case\<close>

text \<open>Splitting at every character that is in no word; its non-empty pieces are the runs.\<close>

fun pieces :: "string \<Rightarrow> string list" where
  "pieces [] = [[]]"
| "pieces (c # s) = (if is_word_char c then (c # hd (pieces s)) # tl (pieces s) else [] # pieces s)"

abbreviation (input) nonempty :: "string list \<Rightarrow> string list" where
  "nonempty ws \<equiv> filter (\<lambda>w. w \<noteq> []) ws"

lemma pieces_not_Nil [simp]: "pieces s \<noteq> []"
  by (cases s) auto

lemma pieces_append: "\<not> is_word_char c \<Longrightarrow> pieces (s @ c # t) = pieces s @ pieces t"
  by (induction s) auto

lemma pieces_word: "\<forall>c \<in> set w. is_word_char c \<Longrightarrow> pieces w = [w]"
  by (induction w) auto

lemma pieces_dropWhile: "nonempty (pieces (dropWhile (\<lambda>c. \<not> is_word_char c) s)) = nonempty (pieces s)"
  by (induction s) auto

lemma word_runs_pieces: "word_runs s = nonempty (pieces s)"
proof (induction s rule: word_runs.induct)
  case (1 s)
  let ?d = "dropWhile (\<lambda>c. \<not> is_word_char c) s"
  show ?case
  proof (cases ?d)
    case Nil
    then have "word_runs s = []" by (simp only: word_runs.simps [of s] list.case)
    moreover from Nil have "nonempty (pieces s) = []" using pieces_dropWhile [of s] by (simp only: Nil) simp
    ultimately show ?thesis by simp
  next
    case (Cons c s')
    then have c: "is_word_char c" using hd_dropWhile [of "\<lambda>c. \<not> is_word_char c" s] by force
    let ?w = "c # takeWhile is_word_char s'" and ?r = "dropWhile is_word_char s'"
    have w: "\<forall>x \<in> set ?w. is_word_char x" using c by (auto dest: set_takeWhileD)
    have "nonempty (pieces (?w @ ?r)) = ?w # nonempty (pieces ?r)"
    proof (cases ?r)
      case Nil
      then show ?thesis by (simp only: append_Nil2 pieces_word [OF w]) simp
    next
      case (Cons d r)
      then have d: "\<not> is_word_char d" using hd_dropWhile [of is_word_char s'] by force
      show ?thesis unfolding Cons by (simp only: pieces_append [OF d] pieces_word [OF w]) (simp add: d)
    qed
    moreover have "nonempty (pieces s) = nonempty (pieces (?w @ ?r))"
      using pieces_dropWhile [of s] Cons by simp
    ultimately show ?thesis using Cons "1.IH" [OF Cons] by (simp only: word_runs.simps [of s] list.case)
  qed
qed

lemma space_not_word: "is_space c \<Longrightarrow> \<not> is_word_char c"
  by (auto simp: is_space_def is_word_char_def)

lemma blank_not_word [simp]: "\<not> is_word_char (CHR '' '')"
  by (simp add: is_word_char_def)

lemma nonempty_pieces_lstrip: "nonempty (pieces (lstrip s)) = nonempty (pieces s)"
  by (induction s) (auto simp: lstrip_def space_not_word)

lemma nonempty_pieces_spaces: "\<forall>c \<in> set t. is_space c \<Longrightarrow> nonempty (pieces (s @ t)) = nonempty (pieces s)"
proof (induction t arbitrary: s)
  case (Cons c t)
  then have "\<not> is_word_char c" by (simp add: space_not_word)
  then show ?case using Cons.IH [of "[]"] Cons.prems by (simp add: pieces_append)
qed simp

lemma nonempty_pieces_rstrip: "nonempty (pieces (rstrip s)) = nonempty (pieces s)"
proof -
  have "s = rstrip s @ rev (takeWhile is_space (rev s))"
    unfolding rstrip_def lstrip_def by (metis rev_append rev_rev_ident takeWhile_dropWhile_id)
  moreover have "\<forall>c \<in> set (rev (takeWhile is_space (rev s))). is_space c"
    by (auto dest: set_takeWhileD)
  ultimately show ?thesis using nonempty_pieces_spaces by metis
qed

lemma nonempty_hd_tl:
  assumes "hd (pieces s) = hd (pieces t) \<and> nonempty (tl (pieces s)) = nonempty (tl (pieces t))"
  shows "nonempty (pieces s) = nonempty (pieces t)"
  using assms by (cases "pieces s"; cases "pieces t") auto

lemma pieces_collapse:
  "hd (pieces (collapse_ws s)) = hd (pieces s)
   \<and> nonempty (tl (pieces (collapse_ws s))) = nonempty (tl (pieces s))"
proof (induction s rule: collapse_ws.induct)
  case (2 c s)
  show ?case
  proof (cases "is_space c")
    case True
    from 2(1) [OF True] have "nonempty (pieces (collapse_ws (lstrip s))) = nonempty (pieces (lstrip s))"
      unfolding lstrip_def by (rule nonempty_hd_tl)
    with True show ?thesis by (simp add: nonempty_pieces_lstrip space_not_word lstrip_def [symmetric])
  next
    case False
    from 2(2) [OF False] have "nonempty (pieces (collapse_ws s)) = nonempty (pieces s)"
      by (rule nonempty_hd_tl)
    with False 2(2) [OF False] show ?thesis by auto
  qed
qed simp

lemma nonempty_pieces_collapse: "nonempty (pieces (collapse_ws s)) = nonempty (pieces s)"
  using pieces_collapse by (rule nonempty_hd_tl)

lemma is_word_char_lower [simp]: "is_word_char (lower_char c) = is_word_char c"
proof -
  have "lower_char c = CHR 0x27 \<longleftrightarrow> c = CHR 0x27"
  proof
    assume "lower_char c = CHR 0x27"
    then have "ord (lower_char c) = 39" by simp
    then have "ord c = 39" by (auto simp: ord_lower_char is_upper_def split: if_splits)
    moreover have "ord (CHR 0x27) = 39" by simp
    ultimately show "c = CHR 0x27" by (metis of_char_eq_iff)
  next
    show "c = CHR 0x27 \<Longrightarrow> lower_char c = CHR 0x27" by (simp add: lower_char_def is_upper_def)
  qed
  then show ?thesis
    by (auto simp: is_word_char_def ord_lower_char is_upper_def split: if_splits)
qed

lemma pieces_lower: "pieces (py_lower s) = map py_lower (pieces s)"
  by (induction s) (auto simp: py_lower_def hd_map map_tl)

lemma word_runs_lower: "word_runs (py_lower s) = map py_lower (word_runs s)"
  by (simp add: word_runs_pieces pieces_lower filter_map comp_def) (simp add: py_lower_def)

lemma keywords_normalize [simp]: "text_keywords (normalize_text t) = text_keywords t"
proof -
  have "word_runs (py_strip (collapse_ws t)) = word_runs t"
    by (simp add: word_runs_pieces py_strip_def nonempty_pieces_rstrip nonempty_pieces_lstrip
        nonempty_pieces_collapse)
  then show ?thesis by (simp add: text_keywords_def normalize_text_def word_runs_lower)
qed

subsection \<open>Ranking\<close>

lemma sorted_reverse_set [simp]: "set (sorted_reverse f xs) = set xs"
  by (simp add: sorted_reverse_def)

lemma sorted_reverse_desc: "sorted_wrt (\<lambda>x y. f y \<le> f x) (sorted_reverse f xs)"
proof -
  have "sorted (map (\<lambda>x. - int (f x)) (sorted_reverse f xs))"
    by (simp add: sorted_reverse_def)
  then show ?thesis by (simp add: sorted_map)
qed

lemma sorted_reverse_const:
  assumes "\<forall>x \<in> set xs. f x = 0"
  shows "sorted_reverse f xs = xs"
proof -
  have "sorted (map (\<lambda>x. - int (f x)) xs)"
    unfolding sorted_map by (rule sorted_wrt_mono_rel [of _ "\<lambda>_ _. True"]) (use assms in auto)
  then show ?thesis by (simp add: sorted_reverse_def sort_key_id_if_sorted)
qed

text \<open>The fallback for an all-zero score changes nothing: a stable sort already keeps the order.\<close>

lemma rank_eq_stable_sort:
  "rank_by_keyword_overlap articles q limit = take limit (sorted_reverse (overlap_score q) articles)"
proof (cases "articles = []")
  case True
  then show ?thesis by (simp add: rank_by_keyword_overlap_def sorted_reverse_def)
next
  case False
  let ?r = "sorted_reverse (overlap_score q) articles"
  show ?thesis
  proof (cases "overlap_score q (hd ?r) = 0")
    case True
    from False obtain x xs where r: "?r = x # xs"
      using sorted_reverse_set [of "overlap_score q" articles] by (cases ?r) auto
    with sorted_reverse_desc [of "overlap_score q" articles] True
    have "\<forall>y \<in> set articles. overlap_score q y = 0"
      using sorted_reverse_set [of "overlap_score q" articles] by auto
    then show ?thesis by (simp add: rank_by_keyword_overlap_def Let_def sorted_reverse_const)
  next
    case nz: False
    with False show ?thesis by (simp add: rank_by_keyword_overlap_def Let_def)
  qed
qed

lemma rank_set: "set (rank_by_keyword_overlap articles q limit) \<subseteq> set articles"
  unfolding rank_eq_stable_sort using set_take_subset by fastforce

lemma rank_normalize [simp]:
  "rank_by_keyword_overlap articles (normalize_text q) limit = rank_by_keyword_overlap articles q limit"
  unfolding rank_eq_stable_sort overlap_score_def by simp

text \<open>C27: ranking returns as many of the articles as the limit allows, best keyword overlap first, none
  that it leaves out overlaps more than one it returns, and articles with equal overlap keep their
  incoming (most recent first) order.\<close>

theorem ranking_returns_the_best:
  "\<exists>rest. mset articles = mset (rank_by_keyword_overlap articles q limit) + mset rest
     \<and> length (rank_by_keyword_overlap articles q limit) = min limit (length articles)
     \<and> sorted_wrt (\<lambda>a b. overlap_score q b \<le> overlap_score q a) (rank_by_keyword_overlap articles q limit @ rest)
     \<and> (\<forall>n. filter (\<lambda>a. overlap_score q a = n) (rank_by_keyword_overlap articles q limit @ rest)
             = filter (\<lambda>a. overlap_score q a = n) articles)"
proof -
  let ?s = "sorted_reverse (overlap_score q) articles"
  have m: "mset ?s = mset articles" by (simp add: sorted_reverse_def)
  have stable: "filter (\<lambda>a. overlap_score q a = n) ?s = filter (\<lambda>a. overlap_score q a = n) articles" for n
    using sort_key_stable [of "\<lambda>x. - int (overlap_score q x)" "- int n" articles]
    by (simp add: sorted_reverse_def)
  have app: "take limit ?s @ drop limit ?s = ?s" by simp
  have "mset articles = mset (take limit ?s) + mset (drop limit ?s)"
    using m app by (metis mset_append)
  moreover have "length (take limit ?s) = min limit (length articles)"
    using mset_eq_length [OF m] by (simp add: min.commute)
  ultimately show ?thesis
    unfolding rank_eq_stable_sort using sorted_reverse_desc [of "overlap_score q" articles] stable app
    by metis
qed

end
