(* ===== verification/Knowledge_Tool.thy ===== *)
theory Knowledge_Tool
  imports World Ranking
begin

section \<open>The knowledge-base tool\<close>

text \<open>
  \<^verbatim>\<open>backend/tools/knowledge_base.py\<close>: a search of the articles of one category behind a Redis
  cache. The main property is that the cache is transparent: while the articles do not change,
  the tool answers what an uncached search would, or that the lookup is unavailable.

  SHA-256 is assumed collision free on a set \<open>T\<close> of the texts that are hashed (\<open>inj_on\<close>), not on
  all strings.
\<close>

definition NO_RESULTS_MESSAGE :: string where
  "NO_RESULTS_MESSAGE = ''No relevant knowledge-base articles were found.''"
definition UNAVAILABLE_MESSAGE :: string where
  "UNAVAILABLE_MESSAGE = ''Knowledge-base lookup is unavailable right now.''"
definition KB_TOOL_NAME :: string where "KB_TOOL_NAME = ''knowledge_base_search''"

definition KB_TOOL_DESCRIPTION :: string where
  "KB_TOOL_DESCRIPTION =
     ''Search the support knowledge base for articles relevant to a customer'' @
     '' ticket. Always call this before answering so responses are grounded in'' @
     '' documented support content rather than guessed.''"

definition kb_search_tool :: "string \<Rightarrow> kb_tool" where
  "kb_search_tool category = \<lparr>kt_name = KB_TOOL_NAME, kt_description = KB_TOOL_DESCRIPTION, kt_category = category\<rparr>"

definition MAX_RESULTS :: nat where "MAX_RESULTS = 3"
definition KB_CACHE_KEY_PREFIX :: string where "KB_CACHE_KEY_PREFIX = ''knowledge_base''"

definition kb_build_cache :: "'r env \<Rightarrow> cache_config" where
  "kb_build_cache E = \<lparr>cc_key_prefix = KB_CACHE_KEY_PREFIX,
     cc_ttl_seconds = redis_knowledge_cache_ttl_seconds (e_settings E)\<rparr>"

definition kb_get_cached :: "'r env \<Rightarrow> string \<Rightarrow> (json option, 'r world) comp" where
  "kb_get_cached E cache_key = on_redis (cache_get (e_redis E) cache_key)"

definition kb_set_cached :: "'r env \<Rightarrow> string \<Rightarrow> string \<Rightarrow> (unit, 'r world) comp" where
  "kb_set_cached E cache_key v = on_redis (cache_set (e_redis E) (kb_build_cache E) cache_key (JStr v))"

definition kb_search :: "'r env \<Rightarrow> string \<Rightarrow> string \<Rightarrow> (article_row list, 'r world) comp" where
  "kb_search E category query = on_db (with_session (article_search (e_db E) category query MAX_RESULTS))"

definition kb_key :: "'r env \<Rightarrow> string \<Rightarrow> string \<Rightarrow> string" where
  "kb_key E category query = build_cache_key (e_sha256 E) KB_CACHE_KEY_PREFIX [category, normalize_text query]"

definition render_articles :: "article_row list \<Rightarrow> string" where
  "render_articles articles = py_join [CHR 0x0A, CHR 0x0A] (map (\<lambda>a. ka_title a @ '': '' @ ka_content a) articles)"

definition kb_run :: "'r env \<Rightarrow> string \<Rightarrow> string \<Rightarrow> (string, 'r world) comp" where
  "kb_run E category query =
     (let cache_key = kb_key E category query in
      bind (kb_get_cached E cache_key) (\<lambda>cached_result.
        case cached_result of
          Some (JStr s) \<Rightarrow> ret s
        | _ \<Rightarrow>
            bind (catch (bind (kb_search E category query) (\<lambda>as. ret (Some as))) (\<lambda>e. ret None))
              (\<lambda>found. case found of
                 None \<Rightarrow> ret UNAVAILABLE_MESSAGE
               | Some [] \<Rightarrow>
                   bind (kb_set_cached E cache_key NO_RESULTS_MESSAGE) (\<lambda>_. ret NO_RESULTS_MESSAGE)
               | Some articles \<Rightarrow>
                   (let result = render_articles articles in
                    bind (kb_set_cached E cache_key result) (\<lambda>_. ret result)))))"

subsection \<open>What an uncached search answers\<close>

definition kb_candidates :: "db_env \<Rightarrow> database \<Rightarrow> string \<Rightarrow> article_row list" where
  "kb_candidates D db category =
     order_desc D ka_created_at ka_id (filter (\<lambda>a. ka_category a = category) (db_articles db))"

definition kb_answer :: "db_env \<Rightarrow> database \<Rightarrow> string \<Rightarrow> string \<Rightarrow> string" where
  "kb_answer D db category query =
     (case rank_by_keyword_overlap (kb_candidates D db category) query MAX_RESULTS of
        [] \<Rightarrow> NO_RESULTS_MESSAGE | articles \<Rightarrow> render_articles articles)"

text \<open>The text that is hashed into a key.\<close>

definition kb_text :: "string \<Rightarrow> string \<Rightarrow> string" where
  "kb_text category query = category @ '':'' @ normalize_text query"

lemma kb_key_eq: "kb_key E c q = KB_CACHE_KEY_PREFIX @ '':'' @ e_sha256 E (kb_text c q)"
  by (simp add: kb_key_def build_cache_key_def kb_text_def)

lemma kb_key_ns [simp]: "in_ns KB_CACHE_KEY_PREFIX (kb_key E c q)"
  by (simp add: kb_key_def)

lemma kb_answer_normalize: "normalize_text q = normalize_text q' \<Longrightarrow> kb_answer D db c q = kb_answer D db c q'"
  unfolding kb_answer_def by (metis rank_normalize)

lemma kb_search_eq:
  "kb_search E c q w =
     (case d_fault (e_db E) DbSelect (w_db w) of
        Some e \<Rightarrow> Inl e
      | None \<Rightarrow> Inr (rank_by_keyword_overlap (kb_candidates (e_db E) (w_db w) c) q MAX_RESULTS), w)"
  by (simp add: kb_search_def on_db_def with_session_def article_search_def bind_def db_select_def
      kb_candidates_def split: option.splits)

subsection \<open>The cache invariant\<close>

text \<open>
  Every cached entry of the namespace, under the key of a hashed text of \<open>T\<close>, is the answer of an
  uncached search.
\<close>

definition kb_entries_ok :: "'r env \<Rightarrow> string set \<Rightarrow> database \<Rightarrow> string \<Rightarrow> json \<Rightarrow> bool" where
  "kb_entries_ok E T db k v \<longleftrightarrow>
     (\<forall>c q. CHR '':'' \<notin> set c \<longrightarrow> kb_text c q \<in> T \<longrightarrow> k = kb_key E c q \<longrightarrow> v = JStr (kb_answer (e_db E) db c q))"

definition kb_cache_ok :: "'r env \<Rightarrow> string set \<Rightarrow> 'r world \<Rightarrow> bool" where
  "kb_cache_ok E T w \<longleftrightarrow> (\<forall>k v. cache_holds (e_redis E) (w_redis w) k v \<longrightarrow> kb_entries_ok E T (w_db w) k v)"

lemma kb_entry_own:
  assumes inj: "inj_on (e_sha256 E) T" and T: "kb_text c q \<in> T" and c: "CHR '':'' \<notin> set c"
  shows "kb_entries_ok E T db (kb_key E c q) (JStr (kb_answer (e_db E) db c q))"
  unfolding kb_entries_ok_def
proof (intro allI impI)
  fix c' q'
  assume c': "CHR '':'' \<notin> set c'" and T': "kb_text c' q' \<in> T" and k: "kb_key E c q = kb_key E c' q'"
  from k have "e_sha256 E (kb_text c q) = e_sha256 E (kb_text c' q')"
    by (simp add: kb_key_eq)
  with inj T T' have "kb_text c q = kb_text c' q'" by (simp add: inj_on_def)
  then have "c = c'" "normalize_text q = normalize_text q'"
    using namespace_key_inj [OF c c'] by (simp_all add: kb_text_def)
  then show "JStr (kb_answer (e_db E) db c q) = JStr (kb_answer (e_db E) db c' q')"
    using kb_answer_normalize by metis
qed

lemma kb_get_cached_cases:
  assumes R: "redis_laws (e_redis E)" and ok: "kb_cache_ok E T w"
  obtains v w' where "kb_get_cached E k w = (Inr v, w')" "w_db w' = w_db w" "kb_cache_ok E T w'"
    "\<And>j. v = Some j \<Longrightarrow> kb_entries_ok E T (w_db w) k j"
proof -
  obtain v r' where get: "cache_get (e_redis E) k (w_redis w) = (Inr v, r')"
    using redis_cache.look_total [OF R] by blast
  have entries: "\<forall>k v. cache_holds (e_redis E) r' k v \<longrightarrow> kb_entries_ok E T (w_db w) k v"
    by (rule redis_cache.look_entries [OF R _ get]) (use ok in \<open>simp add: kb_cache_ok_def\<close>)
  have hit: "kb_entries_ok E T (w_db w) k j" if "v = Some j" for j
    by (rule redis_cache.look_hit [OF R, of "w_redis w" _ k j r'])
       (use ok get that in \<open>simp_all add: kb_cache_ok_def\<close>)
  show thesis
    by (rule that [of v "w\<lparr>w_redis := r'\<rparr>"])
       (use get entries hit in \<open>simp_all add: kb_get_cached_def on_redis_def kb_cache_ok_def\<close>)
qed

lemma kb_set_cached_cases:
  assumes R: "redis_laws (e_redis E)" and ok: "kb_cache_ok E T w"
    and entry: "kb_entries_ok E T (w_db w) k (JStr s)"
  obtains w' where "kb_set_cached E k s w = (Inr (), w')" "w_db w' = w_db w" "kb_cache_ok E T w'"
proof -
  obtain r' where set: "cache_set (e_redis E) (kb_build_cache E) k (JStr s) (w_redis w) = (Inr (), r')"
    using redis_cache.keep_ok [OF R] by blast
  have "\<forall>k v. cache_holds (e_redis E) r' k v \<longrightarrow> kb_entries_ok E T (w_db w) k v"
    by (rule redis_cache.keep_entries [OF R _ _ _ set, where P = "kb_entries_ok E T (w_db w)"])
       (use ok entry in \<open>simp_all add: kb_cache_ok_def\<close>)
  then show thesis
    by (intro that [of "w\<lparr>w_redis := r'\<rparr>"])
       (simp_all add: kb_set_cached_def on_redis_def set kb_cache_ok_def)
qed

subsection \<open>The frame of the tool\<close>

text \<open>The tool leaves the tables alone and touches Redis only in its own namespace.\<close>

lemma steps_kb_search: "steps (world_rel (only_ns ps R) (=)) (kb_search E c q)"
  unfolding steps_def by (simp add: kb_search_eq world_rel_def reflpD)

lemma steps_kb_run:
  assumes R: "redis_laws (e_redis E)" and ns: "KB_CACHE_KEY_PREFIX \<in> set ps"
  shows "steps (world_rel (only_ns ps (e_redis E)) (=)) (kb_run E c q)"
proof -
  have refl: "reflp (world_rel (only_ns ps (e_redis E)) (=))"
    and trans: "transp (world_rel (only_ns ps (e_redis E)) (=))"
    by (auto simp: reflp_def transp_def world_rel_def intro: reflpD [OF reflp_only_ns] transpD [OF transp_only_ns])
  have get: "steps (world_rel (only_ns ps (e_redis E)) (=)) (kb_get_cached E k)" for k
    unfolding kb_get_cached_def by (intro steps_on_redis cache_get_ns R) simp
  have set: "steps (world_rel (only_ns ps (e_redis E)) (=)) (kb_set_cached E (kb_key E c q) s)" for s
    unfolding kb_set_cached_def by (intro steps_on_redis cache_set_ns [OF R ns]) simp_all
  show ?thesis
    unfolding kb_run_def Let_def
    by (intro steps_bind [OF trans] get)
       (auto split: option.splits json.splits list.splits
         intro!: steps_bind [OF trans] steps_catch [OF trans] steps_ret [OF refl] steps_kb_search set)
qed

subsection \<open>The tool\<close>

lemma kb_run_outcome:
  assumes R: "redis_laws (e_redis E)" and inj: "inj_on (e_sha256 E) T"
    and T: "kb_text c q \<in> T" and c: "CHR '':'' \<notin> set c" and ok: "kb_cache_ok E T w"
  shows "\<exists>a w'. kb_run E c q w = (Inr a, w') \<and> w_db w' = w_db w \<and> kb_cache_ok E T w'
    \<and> (a = kb_answer (e_db E) (w_db w) c q
       \<or> (a = UNAVAILABLE_MESSAGE \<and> d_fault (e_db E) DbSelect (w_db w) \<noteq> None))"
proof -
  let ?ans = "kb_answer (e_db E) (w_db w) c q"
  obtain v w1 where get: "kb_get_cached E (kb_key E c q) w = (Inr v, w1)" and db1: "w_db w1 = w_db w"
    and ok1: "kb_cache_ok E T w1"
    and hit: "\<And>j. v = Some j \<Longrightarrow> kb_entries_ok E T (w_db w) (kb_key E c q) j"
    using kb_get_cached_cases [OF R ok] by blast
  have own: "kb_entries_ok E T (w_db w1) (kb_key E c q) (JStr ?ans)"
    unfolding db1 by (rule kb_entry_own [OF inj T c])
  show ?thesis
  proof (cases "\<exists>s. v = Some (JStr s)")
    case True
    then obtain s where s: "v = Some (JStr s)" by blast
    with hit T c have "s = ?ans" by (auto simp: kb_entries_ok_def)
    with s get db1 ok1 show ?thesis by (auto simp: kb_run_def Let_def bind_def)
  next
    case False
    define rest where "rest = bind (catch (bind (kb_search E c q) (\<lambda>as. ret (Some as))) (\<lambda>e. ret None))
              (\<lambda>found. case found of
                 None \<Rightarrow> ret UNAVAILABLE_MESSAGE
               | Some [] \<Rightarrow>
                   bind (kb_set_cached E (kb_key E c q) NO_RESULTS_MESSAGE) (\<lambda>_. ret NO_RESULTS_MESSAGE)
               | Some articles \<Rightarrow>
                   (let result = render_articles articles in
                    bind (kb_set_cached E (kb_key E c q) result) (\<lambda>_. ret result)))"
    from False have run: "kb_run E c q w = rest w1"
      using get by (auto simp: kb_run_def rest_def Let_def bind_def [of "kb_get_cached E (kb_key E c q)"]
          split: option.splits json.splits)
    show ?thesis
    proof (cases "d_fault (e_db E) DbSelect (w_db w1)")
      case (Some e)
      then have "rest w1 = (Inr UNAVAILABLE_MESSAGE, w1)"
        by (simp add: rest_def bind_def catch_def kb_search_eq)
      with run Some db1 ok1 show ?thesis by auto
    next
      case None
      obtain w2 where set: "kb_set_cached E (kb_key E c q) ?ans w1 = (Inr (), w2)"
        and db2: "w_db w2 = w_db w1" and ok2: "kb_cache_ok E T w2"
        using kb_set_cached_cases [OF R ok1 own] by blast
      from None set have "rest w1 = (Inr ?ans, w2)"
        by (simp add: rest_def bind_def catch_def kb_search_eq db1 kb_answer_def Let_def split: list.splits)
      with run db1 db2 ok2 show ?thesis by auto
    qed
  qed
qed

lemma kb_run_keeps_cache:
  assumes "redis_laws (e_redis E)" "inj_on (e_sha256 E) T" "kb_text c q \<in> T" "CHR '':'' \<notin> set c"
    "kb_cache_ok E T w"
  shows "kb_cache_ok E T (snd (kb_run E c q w))"
  using kb_run_outcome [OF assms] by fastforce

text \<open>C24: the cache of the knowledge-base tool is transparent. From a cache whose entries are answers of
  uncached searches, \<open>kb_run\<close> never raises, answers what an uncached search answers (or that the
  lookup is unavailable, and that only when the database failed), leaves the tables alone and
  leaves the cache in the same condition.\<close>

theorem kb_run_transparent:
  assumes R: "redis_laws (e_redis E)" and inj: "inj_on (e_sha256 E) T"
    and T: "kb_text c q \<in> T" and c: "CHR '':'' \<notin> set c" and ok: "kb_cache_ok E T w"
  shows "\<exists>a w'. kb_run E c q w = (Inr a, w') \<and> w_db w' = w_db w \<and> kb_cache_ok E T w'
    \<and> (a = kb_answer (e_db E) (w_db w) c q
       \<or> (a = UNAVAILABLE_MESSAGE \<and> d_fault (e_db E) DbSelect (w_db w) \<noteq> None))"
  using assms by (rule kb_run_outcome)

end
