(* ===== verification/Agents.thy ===== *)
theory Agents
  imports Knowledge_Tool
begin

section \<open>The specialist agents\<close>

text \<open>
  \<^verbatim>\<open>backend/agents/base.py\<close> and the four agents of \<^verbatim>\<open>backend/agents/{billing,technical,account,general}\<close>.
  A subclass of \<^verbatim>\<open>SpecialistAgent\<close> is data only, so an agent is a record of its class attributes.
  CrewAI is the parameter: building the agent, the task and the crew may raise, and running the
  crew may answer anything. What a crew run does to the world it does through the agent's tool
  (\<open>kickoff_law\<close>).
\<close>

abbreviation nl :: char where "nl \<equiv> CHR 0x0A"

record specialist =
  ROLE :: string
  GOAL :: string
  BACKSTORY :: string
  CATEGORY :: string

definition billing_agent :: specialist where
  "billing_agent = \<lparr>
     ROLE = ''Billing Support Specialist'',
     GOAL = ''Resolve customer billing questions accurately -- invoices, refunds, payments,'' @
     '' subscriptions, and pricing -- escalating anything uncertain rather than guessing.'',
     BACKSTORY = ''You are a senior billing support specialist at SupportOps AI with deep knowledge of'' @
     '' the company's invoicing, refund, payment, and subscription policies. You answer'' @
     '' clearly, confirm amounts and dates precisely, and never promise a refund or credit'' @
     '' that hasn't been verified against documented policy.'',
     CATEGORY = ''billing''\<rparr>"

definition technical_agent :: specialist where
  "technical_agent = \<lparr>
     ROLE = ''Technical Support Specialist'',
     GOAL = ''Diagnose and resolve login problems, bugs, crashes, API issues, and other'' @
     '' product/technical issues with clear, actionable troubleshooting steps.'',
     BACKSTORY = ''You are an experienced technical support engineer at SupportOps AI who troubleshoots'' @
     '' login failures, application crashes, API errors, and general product bugs. You ask'' @
     '' clarifying questions when needed and ground your troubleshooting steps in'' @
     '' documented known issues rather than speculation.'',
     CATEGORY = ''technical''\<rparr>"

definition account_agent :: specialist where
  "account_agent = \<lparr>
     ROLE = ''Account Support Specialist'',
     GOAL = ''Help customers manage account settings, profile information, permissions, and access'' @
     '' issues securely and correctly.'',
     BACKSTORY = ''You are an account support specialist at SupportOps AI, responsible for helping'' @
     '' customers with account settings, profile updates, permission changes, and'' @
     '' access/user-management requests, always following the principle of least privilege'' @
     '' and never bypassing identity verification.'',
     CATEGORY = ''account''\<rparr>"

definition general_agent :: specialist where
  "general_agent = \<lparr>
     ROLE = ''General Support Specialist'',
     GOAL = ''Provide a friendly, accurate first response to greetings, FAQs, and any request that'' @
     '' doesn't clearly belong to billing, technical, or account support.'',
     BACKSTORY = ''You are the friendly first point of contact at SupportOps AI, handling greetings,'' @
     '' frequently asked questions, and any ticket that doesn't fit a specialist team,'' @
     '' making sure customers always feel heard even when their request needs to go'' @
     '' elsewhere.'',
     CATEGORY = ''general''\<rparr>"

definition EXPECTED_OUTPUT :: string where
  "EXPECTED_OUTPUT =
     ''A JSON object matching the given schema: a concise, professional support reply'' @
     '' addressed directly to the customer, grounded only in the ticket text and any'' @
     '' retrieved knowledge-base context, plus whether the ticket remains unresolved.''"

definition FALLBACK_RESPONSE :: string where
  "FALLBACK_RESPONSE =
     ''We're sorry -- we weren't able to generate an automated response for this ticket'' @
     '' right now. It has been queued for a human support agent to review.''"

record agent_result =
  r_response :: string
  r_retrieved_context :: string
  r_unresolved :: bool
  r_error :: "string option"

definition task_description :: "string \<Rightarrow> string \<Rightarrow> string" where
  "task_description ticket_text retrieved_context =
     ''A customer submitted this support ticket:'' @ [nl] @ [quote] @ [quote] @ [quote] @
     [nl] @ ticket_text @ [nl] @ [quote] @ [quote] @ [quote] @ [nl] @ [nl] @
     ''Relevant knowledge-base context:'' @ [nl] @ [quote] @ [quote] @ [quote] @ [nl] @
     retrieved_context @ [nl] @ [quote] @ [quote] @ [quote] @ [nl] @ [nl] @
     ''Write a helpful, professional, and concise reply grounded only in the ticket text'' @
     '' and the knowledge-base context above.'' @ [nl] @ [nl] @
     ''Also set `unresolved` to true if any of the following applies, false otherwise:'' @
     [nl] @ ''- the knowledge-base context above is insufficient to answer'' @ [nl] @
     ''- you would be guessing rather than answering from the ticket text and context'' @
     [nl] @ ''- the request requires human judgment or expertise you don't have'' @ [nl] @
     ''You are not deciding whether a human reviews this ticket -- you are only reporting'' @
     '' whether you were able to resolve it.''"

text \<open>\<open>SpecialistAgent.__init__\<close>: the LLM and the CrewAI agent are built from the settings.\<close>

definition agent_config :: "'r env \<Rightarrow> specialist \<Rightarrow> crew_agent" where
  "agent_config E agent =
     (let S = e_settings E;
          llm = \<lparr>lc_model = llm_model S, lc_api_key = or_none (openai_api_key S),
                 lc_temperature = llm_temperature S, lc_timeout = llm_request_timeout_seconds S\<rparr>
      in \<lparr>ca_role = ROLE agent, ca_goal = GOAL agent, ca_backstory = BACKSTORY agent,
          ca_tools = [kb_search_tool (CATEGORY agent)], ca_llm = llm, ca_verbose = False,
          ca_allow_delegation = False\<rparr>)"

definition agent_init :: "'r env \<Rightarrow> specialist \<Rightarrow> (unit, 'r world) comp" where
  "agent_init E agent = check (e_agent_new E (agent_config E agent))"

definition reply_task :: "'r env \<Rightarrow> specialist \<Rightarrow> string \<Rightarrow> string \<Rightarrow> crew_task" where
  "reply_task E agent ticket_text retrieved_context =
     \<lparr>ct_description = task_description ticket_text retrieved_context,
      ct_expected_output = EXPECTED_OUTPUT, ct_agent = agent_config E agent\<rparr>"

definition retrieve_context :: "'r env \<Rightarrow> specialist \<Rightarrow> string \<Rightarrow> (string, 'r world) comp" where
  "retrieve_context E agent ticket_text =
     catch (kb_run E (CATEGORY agent) ticket_text) (\<lambda>e. ret [])"

text \<open>What \<open>respond\<close> makes of the outcome of \<^verbatim>\<open>crew.kickoff()\<close>.\<close>

fun result_of_kickoff :: "string \<Rightarrow> exc + crew_result \<Rightarrow> agent_result" where
  "result_of_kickoff ctx (Inl e) =
     \<lparr>r_response = FALLBACK_RESPONSE, r_retrieved_context = ctx, r_unresolved = True, r_error = Some (exc_str e)\<rparr>"
| "result_of_kickoff ctx (Inr (CrewOutput (Some parsed) raw)) =
     \<lparr>r_response = ato_response parsed, r_retrieved_context = ctx, r_unresolved = ato_unresolved parsed,
      r_error = None\<rparr>"
| "result_of_kickoff ctx (Inr output) =
     \<lparr>r_response = crew_str output, r_retrieved_context = ctx, r_unresolved = True, r_error = None\<rparr>"

definition respond :: "'r env \<Rightarrow> specialist \<Rightarrow> string \<Rightarrow> (agent_result, 'r world) comp" where
  "respond E agent ticket_text =
     bind (retrieve_context E agent ticket_text) (\<lambda>retrieved_context.
       let task = reply_task E agent ticket_text retrieved_context in
       bind (check (e_crew_new E task)) (\<lambda>_.
         catch (bind (e_kickoff E task)
                  (\<lambda>output. ret (result_of_kickoff retrieved_context (Inr output))))
               (\<lambda>e. ret (result_of_kickoff retrieved_context (Inl e)))))"

subsection \<open>What a crew run may do to the world\<close>

text \<open>
  An agent acts through its tools only, and the tools of a specialist are knowledge-base searches:
  the world after a crew run is the world after some calls of the tools of the task's agent (with
  queries from the hashed texts \<open>T\<close>).
\<close>

definition after_searches :: "'r env \<Rightarrow> (kb_tool \<times> string) list \<Rightarrow> 'r world \<Rightarrow> 'r world" where
  "after_searches E calls w = fold (\<lambda>(tool, q) w. snd (kb_run E (kt_category tool) q w)) calls w"

definition kickoff_law :: "'r env \<Rightarrow> string set \<Rightarrow> bool" where
  "kickoff_law E T \<longleftrightarrow>
     (\<forall>task w. \<exists>calls.
        (\<forall>(tool, q) \<in> set calls. tool \<in> set (ca_tools (ct_agent task)) \<and> kb_text (kt_category tool) q \<in> T) \<and>
        snd (e_kickoff E task w) = after_searches E calls w)"

lemma after_searches_rel:
  assumes "reflp R" "transp R" "\<And>c q. steps R (kb_run E c q)"
  shows "R w (after_searches E calls w)"
  unfolding after_searches_def
proof (induction calls arbitrary: w)
  case Nil
  then show ?case using assms(1) by (simp add: reflpD)
next
  case (Cons call calls)
  let ?w = "snd (kb_run E (kt_category (fst call)) (snd call) w)"
  have "R w ?w" by (rule steps_apply [OF assms(3)])
  then show ?case using Cons [of ?w] by (simp add: split_beta transpD [OF assms(2)])
qed

lemma steps_kickoff:
  assumes "kickoff_law E T" "reflp R" "transp R" "\<And>c q. steps R (kb_run E c q)"
  shows "steps R (e_kickoff E task)"
  unfolding steps_def using assms(1) after_searches_rel [OF assms(2-4)] by (metis kickoff_law_def)

lemma kickoff_keeps_cache:
  assumes R: "redis_laws (e_redis E)" and inj: "inj_on (e_sha256 E) T" and law: "kickoff_law E T"
    and c: "\<forall>tool \<in> set (ca_tools (ct_agent task)). CHR '':'' \<notin> set (kt_category tool)" and ok: "kb_cache_ok E T w"
  shows "kb_cache_ok E T (snd (e_kickoff E task w))"
proof -
  have "kb_cache_ok E T (after_searches E calls w)"
    if "\<forall>(tool, q) \<in> set calls. tool \<in> set (ca_tools (ct_agent task)) \<and> kb_text (kt_category tool) q \<in> T" for calls
    unfolding after_searches_def using that ok
  proof (induction calls arbitrary: w)
    case (Cons call calls)
    then have "kb_cache_ok E T (snd (kb_run E (kt_category (fst call)) (snd call) w))"
      using kb_run_keeps_cache [OF R inj] c by (simp add: split_beta)
    with Cons show ?case by (simp add: split_beta)
  qed simp
  moreover obtain calls where
    "\<forall>(tool, q) \<in> set calls. tool \<in> set (ca_tools (ct_agent task)) \<and> kb_text (kt_category tool) q \<in> T"
    "snd (e_kickoff E task w) = after_searches E calls w"
    using law [unfolded kickoff_law_def, rule_format, of task w] by blast
  ultimately show ?thesis by simp
qed

subsection \<open>Responding\<close>



lemma result_unresolved:
  "r_unresolved (result_of_kickoff ctx out) \<longleftrightarrow>
     \<not> (\<exists>p raw. out = Inr (CrewOutput (Some p) raw) \<and> \<not> ato_unresolved p)"
  by (cases "(ctx, out)" rule: result_of_kickoff.cases) auto


lemma steps_respond:
  assumes R: "redis_laws (e_redis E)" and ns: "KB_CACHE_KEY_PREFIX \<in> set ps" and law: "kickoff_law E T"
  shows "steps (world_rel (only_ns ps (e_redis E)) (=)) (respond E agent t)"
proof -
  let ?W = "world_rel (only_ns ps (e_redis E)) (=)"
  have refl: "reflp ?W" and trans: "transp ?W" by (simp_all add: reflp_world_rel transp_world_rel)
  note kb = steps_kb_run [OF R ns]
  show ?thesis
    unfolding respond_def Let_def retrieve_context_def
    by (intro steps_bind [OF trans] steps_catch [OF trans] steps_ret [OF refl] steps_check [OF refl]
          kb steps_kickoff [OF law refl trans])
qed


end
