(* ===== verification/Classifier.thy ===== *)
theory Classifier
  imports Agents
begin

section \<open>Ticket classification\<close>

text \<open>
  \<^verbatim>\<open>backend/graph/classifier.py\<close>: a structured-output call of the OpenAI client behind a Redis
  cache. The client is a parameter: \<open>e_openai_new\<close> says whether constructing it raises and
  \<open>e_openai_parse model system user\<close> what the call answers (\<open>Inr None\<close> when the model returned no
  parsed object, \<open>Inr (Some s)\<close> its \<open>category\<close> field).
\<close>

definition CLS_CACHE_KEY_PREFIX :: string where "CLS_CACHE_KEY_PREFIX = ''classification''"

definition SYSTEM_PROMPT :: string where
  "SYSTEM_PROMPT =
     ''You are a support ticket classifier. Assign exactly one category:'' @
     [nl] @ ''- billing: invoices, refunds, subscriptions, pricing, payments, billing disputes'' @
     [nl] @ ''- technical: bugs, crashes, API issues, login failures, troubleshooting, product'' @
     '' issues'' @
     [nl] @ ''- account: account settings, profile, permissions, user access, account management'' @
     [nl] @ ''- general: anything that does not clearly belong to the categories above'' @
     [nl] @ ''Choose the single best-fitting category for the ticket text you're given.''"

text \<open>The \<open>Literal\<close> that \<open>_ClassificationResult\<close> constrains the answer to.\<close>

definition CLASSIFICATION_LITERALS :: "string list" where
  "CLASSIFICATION_LITERALS = [''billing'', ''technical'', ''account'', ''general'']"

definition cls_build_cache :: "'r env \<Rightarrow> cache_config" where
  "cls_build_cache E = \<lparr>cc_key_prefix = CLS_CACHE_KEY_PREFIX,
     cc_ttl_seconds = redis_classification_cache_ttl_seconds (e_settings E)\<rparr>"

definition cls_get_cached :: "'r env \<Rightarrow> string \<Rightarrow> (json option, 'r world) comp" where
  "cls_get_cached E cache_key = on_redis (cache_get (e_redis E) cache_key)"

definition cls_set_cached :: "'r env \<Rightarrow> string \<Rightarrow> string \<Rightarrow> (unit, 'r world) comp" where
  "cls_set_cached E cache_key v = on_redis (cache_set (e_redis E) (cls_build_cache E) cache_key (JStr v))"

definition cls_key :: "'r env \<Rightarrow> string \<Rightarrow> string" where
  "cls_key E ticket_text = build_cache_key (e_sha256 E) CLS_CACHE_KEY_PREFIX [normalize_text ticket_text]"

text \<open>\<open>TicketCategory(cached_value)\<close>, on whatever JSON value the cache holds.\<close>

definition category_of_json :: "json \<Rightarrow> ticket_category option" where
  "category_of_json v = (case v of JStr s \<Rightarrow> category_of_value s | _ \<Rightarrow> None)"

text \<open>
  The body of the \<open>try\<close>: the answer of the client as a category. \<open>None\<close> stands for every
  exception in it, an empty answer and a value outside the enumeration included.
\<close>

definition openai_category :: "'r env \<Rightarrow> string \<Rightarrow> ticket_category option" where
  "openai_category E ticket_text =
     (case e_openai_parse E (llm_model (e_settings E)) SYSTEM_PROMPT ticket_text of
        Inl e \<Rightarrow> None
      | Inr None \<Rightarrow> None
      | Inr (Some s) \<Rightarrow>
          if s \<in> set CLASSIFICATION_LITERALS then category_of_value s else None)"

definition classify_ticket :: "'r env \<Rightarrow> string \<Rightarrow> (ticket_category, 'r world) comp" where
  "classify_ticket E ticket_text =
     (let cache_key = cls_key E ticket_text in
      bind (cls_get_cached E cache_key) (\<lambda>cached_value.
        case Option.bind cached_value category_of_json of
          Some category \<Rightarrow> ret category
        | None \<Rightarrow>
            bind (check (e_openai_new E (or_none (openai_api_key (e_settings E))) (llm_request_timeout_seconds (e_settings E)))) (\<lambda>_.
              case openai_category E ticket_text of
                None \<Rightarrow> ret GENERAL
              | Some category \<Rightarrow>
                  bind (cls_set_cached E cache_key (ticket_category_value category)) (\<lambda>_. ret category))))"

subsection \<open>The cache invariant\<close>

text \<open>
  An entry of the namespace that is a category is what the model answered for some text that is
  the same up to letter case and whitespace.
\<close>

definition cls_answered :: "'r env \<Rightarrow> string \<Rightarrow> ticket_category \<Rightarrow> bool" where
  "cls_answered E t c \<longleftrightarrow> (\<exists>u. normalize_text u = normalize_text t \<and> openai_category E u = Some c)"

definition cls_entry_ok :: "'r env \<Rightarrow> string set \<Rightarrow> string \<Rightarrow> json \<Rightarrow> bool" where
  "cls_entry_ok E T k v \<longleftrightarrow>
     (\<forall>t c. normalize_text t \<in> T \<longrightarrow> k = cls_key E t \<longrightarrow> category_of_json v = Some c \<longrightarrow> cls_answered E t c)"

definition cls_cache_ok :: "'r env \<Rightarrow> string set \<Rightarrow> 'r world \<Rightarrow> bool" where
  "cls_cache_ok E T w \<longleftrightarrow> (\<forall>k v. cache_holds (e_redis E) (w_redis w) k v \<longrightarrow> cls_entry_ok E T k v)"

lemma cls_key_eq: "cls_key E t = CLS_CACHE_KEY_PREFIX @ '':'' @ e_sha256 E (normalize_text t)"
  by (simp add: cls_key_def build_cache_key_def)

lemma cls_key_ns [simp]: "in_ns CLS_CACHE_KEY_PREFIX (cls_key E t)"
  by (simp add: cls_key_def)

lemma category_of_json_value [simp]: "category_of_json (JStr (ticket_category_value c)) = Some c"
  by (simp add: category_of_json_def)

lemma cls_entry_own:
  assumes inj: "inj_on (e_sha256 E) T" and T: "normalize_text t \<in> T" and a: "openai_category E t = Some c"
  shows "cls_entry_ok E T (cls_key E t) (JStr (ticket_category_value c))"
  unfolding cls_entry_ok_def
proof (intro allI impI)
  fix u d
  assume u: "normalize_text u \<in> T" and k: "cls_key E t = cls_key E u"
    and d: "category_of_json (JStr (ticket_category_value c)) = Some d"
  from k have "e_sha256 E (normalize_text t) = e_sha256 E (normalize_text u)" by (simp add: cls_key_eq)
  with inj T u have "normalize_text t = normalize_text u" by (simp add: inj_on_def)
  with a d show "cls_answered E u d" by (auto simp: cls_answered_def)
qed

lemma cls_get_cases:
  assumes R: "redis_laws (e_redis E)" and ok: "cls_cache_ok E T w"
  obtains v w' where "cls_get_cached E k w = (Inr v, w')" "w_db w' = w_db w" "cls_cache_ok E T w'"
    "\<And>j. v = Some j \<Longrightarrow> cls_entry_ok E T k j"
proof -
  obtain v r' where get: "cache_get (e_redis E) k (w_redis w) = (Inr v, r')"
    using redis_cache.look_total [OF R] by blast
  have entries: "\<forall>k v. cache_holds (e_redis E) r' k v \<longrightarrow> cls_entry_ok E T k v"
    by (rule redis_cache.look_entries [OF R _ get]) (use ok in \<open>simp add: cls_cache_ok_def\<close>)
  have hit: "cls_entry_ok E T k j" if "v = Some j" for j
    by (rule redis_cache.look_hit [OF R, of "w_redis w" _ k j r'])
       (use ok get that in \<open>simp_all add: cls_cache_ok_def\<close>)
  show thesis
    by (rule that [of v "w\<lparr>w_redis := r'\<rparr>"])
       (use get entries hit in \<open>simp_all add: cls_get_cached_def on_redis_def cls_cache_ok_def\<close>)
qed

lemma cls_set_cases:
  assumes R: "redis_laws (e_redis E)" and ok: "cls_cache_ok E T w" and entry: "cls_entry_ok E T k (JStr s)"
  obtains w' where "cls_set_cached E k s w = (Inr (), w')" "w_db w' = w_db w" "cls_cache_ok E T w'"
proof -
  obtain r' where set: "cache_set (e_redis E) (cls_build_cache E) k (JStr s) (w_redis w) = (Inr (), r')"
    using redis_cache.keep_ok [OF R] by blast
  have "\<forall>k v. cache_holds (e_redis E) r' k v \<longrightarrow> cls_entry_ok E T k v"
    by (rule redis_cache.keep_entries [OF R _ _ _ set, where P = "cls_entry_ok E T"])
       (use ok entry in \<open>simp_all add: cls_cache_ok_def\<close>)
  then show thesis
    by (intro that [of "w\<lparr>w_redis := r'\<rparr>"]) (simp_all add: cls_set_cached_def on_redis_def set cls_cache_ok_def)
qed

lemma steps_classify:
  assumes R: "redis_laws (e_redis E)" and ns: "CLS_CACHE_KEY_PREFIX \<in> set ps"
  shows "steps (world_rel (only_ns ps (e_redis E)) (=)) (classify_ticket E t)"
proof -
  let ?W = "world_rel (only_ns ps (e_redis E)) (=)"
  have refl: "reflp ?W" and trans: "transp ?W" by (simp_all add: reflp_world_rel transp_world_rel)
  have get: "steps ?W (cls_get_cached E k)" for k
    unfolding cls_get_cached_def by (intro steps_on_redis cache_get_ns R) simp
  have set: "steps ?W (cls_set_cached E (cls_key E t) s)" for s
    unfolding cls_set_cached_def by (intro steps_on_redis cache_set_ns [OF R ns]) simp_all
  show ?thesis
    unfolding classify_ticket_def Let_def
    by (intro steps_bind [OF trans] get)
       (auto split: option.splits intro!: steps_bind [OF trans] steps_ret [OF refl] steps_check [OF refl] set)
qed

subsection \<open>What a classification means\<close>

lemma classify_outcome:
  assumes R: "redis_laws (e_redis E)" and inj: "inj_on (e_sha256 E) T"
    and T: "normalize_text t \<in> T" and ok: "cls_cache_ok E T w"
  shows "\<exists>w'. w_db w' = w_db w \<and> cls_cache_ok E T w' \<and>
     ((\<exists>c. classify_ticket E t w = (Inr c, w') \<and> (cls_answered E t c \<or> (c = GENERAL \<and> openai_category E t = None)))
      \<or> (\<exists>e. classify_ticket E t w = (Inl e, w')
            \<and> e_openai_new E (or_none (openai_api_key (e_settings E))) (llm_request_timeout_seconds (e_settings E)) = Some e))"
proof -
  obtain v w1 where get: "cls_get_cached E (cls_key E t) w = (Inr v, w1)" and db1: "w_db w1 = w_db w"
    and ok1: "cls_cache_ok E T w1" and hit: "\<And>j. v = Some j \<Longrightarrow> cls_entry_ok E T (cls_key E t) j"
    using cls_get_cases [OF R ok] by blast
  show ?thesis
  proof (cases "Option.bind v category_of_json")
    case (Some c)
    then obtain j where "v = Some j" "category_of_json j = Some c" by (cases v) auto
    with hit T have "cls_answered E t c" by (auto simp: cls_entry_ok_def)
    with Some get db1 ok1 show ?thesis by (auto simp: classify_ticket_def bind_def Let_def)
  next
    case None
    note miss = this
    show ?thesis
    proof (cases "e_openai_new E (or_none (openai_api_key (e_settings E))) (llm_request_timeout_seconds (e_settings E))")
      case (Some e)
      with miss get db1 ok1 show ?thesis by (auto simp: classify_ticket_def bind_def Let_def check_def)
    next
      case None
      note client = this
      show ?thesis
      proof (cases "openai_category E t")
        case None
        with client miss get db1 ok1 show ?thesis by (auto simp: classify_ticket_def bind_def Let_def check_def)
      next
        case (Some c)
        obtain w2 where "cls_set_cached E (cls_key E t) (ticket_category_value c) w1 = (Inr (), w2)"
          "w_db w2 = w_db w1" "cls_cache_ok E T w2"
          using cls_set_cases [OF R ok1 cls_entry_own [OF inj T Some]] by blast
        moreover have "cls_answered E t c" using Some by (auto simp: cls_answered_def)
        ultimately show ?thesis using Some client miss get db1
          by (auto simp: classify_ticket_def bind_def Let_def check_def)
      qed
    qed
  qed
qed

text \<open>C25: what a classification means. When the OpenAI client can be constructed, \<open>classify_ticket\<close>
  returns; the category is one the model answered for a text that is the same up to letter case
  and whitespace, or it is \<open>GENERAL\<close> because the model gave no usable answer for this one; and no
  failed classification enters the cache.\<close>

theorem classify_ticket_sound:
  assumes "redis_laws (e_redis E)" and "inj_on (e_sha256 E) T"
    and "normalize_text t \<in> T" and "cls_cache_ok E T w"
    and "e_openai_new E (or_none (openai_api_key (e_settings E))) (llm_request_timeout_seconds (e_settings E)) = None"
  shows "\<exists>c w'. classify_ticket E t w = (Inr c, w') \<and> w_db w' = w_db w \<and> cls_cache_ok E T w'
     \<and> ((\<exists>u. normalize_text u = normalize_text t \<and> openai_category E u = Some c)
         \<or> (c = GENERAL \<and> openai_category E t = None))"
  using classify_outcome [OF assms(1-4)] assms(5) unfolding cls_answered_def by auto

text \<open>\<open>classify_ticket\<close> does raise, whatever its documentation says: on a cache miss, when constructing
  the client raises (as the OpenAI client does without an API key), the exception leaves
  \<open>classify_ticket\<close>, because the construction stands before the \<open>try\<close>.\<close>

lemma classify_ticket_raises_on_client_error:
  assumes "cls_get_cached E (cls_key E t) w = (Inr None, w')"
    and "e_openai_new E (or_none (openai_api_key (e_settings E))) (llm_request_timeout_seconds (e_settings E)) = Some e"
  shows "classify_ticket E t w = (Inl e, w')"
  using assms by (simp add: classify_ticket_def bind_def Let_def check_def)

end
