(* ===== verification/Checkpoint.thy ===== *)
theory Checkpoint
  imports Cache Identity
begin

section \<open>Workflow checkpoints\<close>

text \<open>
  \<^verbatim>\<open>backend/graph/checkpoint.py\<close>: one Redis record per ticket, overwritten by each stage. The fields
  of a read checkpoint are whatever JSON the record holds: the dataclass does not check them.
\<close>

definition CHECKPOINT_KEY_PREFIX :: string where "CHECKPOINT_KEY_PREFIX = ''workflow_checkpoint''"

record workflow_checkpoint =
  cp_ticket_id :: uuid
  cp_stage :: json
  cp_snapshot :: json
  cp_saved_at :: datetime

definition checkpoint_key :: "uuid \<Rightarrow> string" where
  "checkpoint_key ticket_id = CHECKPOINT_KEY_PREFIX @ '':'' @ uuid_str ticket_id"

definition checkpoint_payload :: "string \<Rightarrow> json \<Rightarrow> datetime \<Rightarrow> json" where
  "checkpoint_payload stage snapshot saved_at =
     JObj [(''stage'', JStr stage), (''snapshot'', snapshot), (''saved_at'', JStr (isoformat saved_at))]"

text \<open>\<open>now\<close> is \<^verbatim>\<open>datetime.now(UTC)\<close>.\<close>

definition checkpoint_save ::
    "'r redis_client \<Rightarrow> int \<Rightarrow> datetime \<Rightarrow> uuid \<Rightarrow> string \<Rightarrow> json \<Rightarrow> (unit, 'r) comp" where
  "checkpoint_save R ttl_seconds now ticket_id stage snapshot r =
     (case rc_set R (checkpoint_key ticket_id)
             (json_dumps (checkpoint_payload stage snapshot now)) ttl_seconds r of
        (Inl (RedisError _), r') \<Rightarrow> (Inr (), r')
      | (Inl e, r') \<Rightarrow> (Inl e, r')
      | (Inr _, r') \<Rightarrow> (Inr (), r'))"

text \<open>\<open>payload["stage"]\<close> and the construction of the dataclass; \<open>None\<close> is any of the three errors.\<close>

definition parse_checkpoint :: "uuid \<Rightarrow> json \<Rightarrow> workflow_checkpoint option" where
  "parse_checkpoint ticket_id payload =
     (case payload of
        JObj kvs \<Rightarrow>
          (case (map_of kvs ''stage'', map_of kvs ''snapshot'', map_of kvs ''saved_at'') of
             (Some stage, Some snapshot, Some (JStr s)) \<Rightarrow>
               map_option (\<lambda>t. \<lparr>cp_ticket_id = ticket_id, cp_stage = stage, cp_snapshot = snapshot, cp_saved_at = t\<rparr>)
                 (fromisoformat s)
           | _ \<Rightarrow> None)
      | _ \<Rightarrow> None)"

definition checkpoint_get_latest :: "'r redis_client \<Rightarrow> uuid \<Rightarrow> (workflow_checkpoint option, 'r) comp" where
  "checkpoint_get_latest R ticket_id r =
     (case rc_get R (checkpoint_key ticket_id) r of
        (Inl (RedisError _), r') \<Rightarrow> (Inr None, r')
      | (Inl e, r') \<Rightarrow> (Inl e, r')
      | (Inr None, r') \<Rightarrow> (Inr None, r')
      | (Inr (Some raw), r') \<Rightarrow>
          (case json_loads raw of
             Inl _ \<Rightarrow> (Inr None, r')
           | Inr payload \<Rightarrow> (Inr (parse_checkpoint ticket_id payload), r')))"

lemma checkpoint_key_ns [simp]: "in_ns CHECKPOINT_KEY_PREFIX (checkpoint_key t)"
  unfolding checkpoint_key_def by (rule in_ns_key)

lemma checkpoint_save_state:
  "snd (checkpoint_save R ttl now t stage snap r) =
     snd (rc_set R (checkpoint_key t) (json_dumps (checkpoint_payload stage snap now)) ttl r)"
  unfolding checkpoint_save_def by (auto split: prod.split sum.split exc.split)

lemma checkpoint_save_total:
  assumes "redis_laws R" "checkpoint_save R ttl now t stage snap r = (a, r')"
  shows "a = Inr ()"
proof (cases "rc_set R (checkpoint_key t) (json_dumps (checkpoint_payload stage snap now)) ttl r")
  case (Pair b r'')
  from rc_set_cases [OF assms(1) Pair] show ?thesis
    by cases (use assms(2) Pair in \<open>simp_all add: checkpoint_save_def\<close>)
qed

lemma steps_checkpoint_save:
  assumes "redis_laws R" "CHECKPOINT_KEY_PREFIX \<in> set ps"
  shows "steps (only_ns ps R) (checkpoint_save R ttl now t stage snap)"
  unfolding steps_def checkpoint_save_state using rc_set_ns [OF assms checkpoint_key_ns] by blast

lemma parse_checkpoint_payload:
  "valid_datetime now \<Longrightarrow> parse_checkpoint t (checkpoint_payload stage snap now) =
     Some \<lparr>cp_ticket_id = t, cp_stage = JStr stage, cp_snapshot = snap, cp_saved_at = now\<rparr>"
  by (simp add: parse_checkpoint_def checkpoint_payload_def isoformat_roundtrip)

lemma checkpoint_key_inj [simp]: "checkpoint_key a = checkpoint_key b \<longleftrightarrow> a = b"
  unfolding checkpoint_key_def by (auto dest: arg_cong [where f = uuid_parse] simp: uuid_roundtrip)

lemma checkpoint_written:
  assumes "redis_laws R" and "fst (rc_set R (checkpoint_key t) (json_dumps (checkpoint_payload stage snap now)) ttl r) = Inr ()"
    and "checkpoint_save R ttl now t stage snap r = (a, r')"
  shows "rc_view R r' (checkpoint_key t) = Some (json_dumps (checkpoint_payload stage snap now))"
proof -
  have "rc_set R (checkpoint_key t) (json_dumps (checkpoint_payload stage snap now)) ttl r = (Inr (), r')"
    using assms(2,3) checkpoint_save_state [of R ttl now t stage snap r] by (simp add: prod_eq_iff)
  from rc_set_cases [OF assms(1) this] show ?thesis by auto
qed

lemma checkpoint_others:
  assumes "redis_laws R" and "checkpoint_save R ttl now t stage snap r = (a, r')" and "u \<noteq> t"
  shows "rc_view R r' (checkpoint_key u) \<in> {None, rc_view R r (checkpoint_key u)}"
proof -
  let ?text = "json_dumps (checkpoint_payload stage snap now)"
  obtain b where set: "rc_set R (checkpoint_key t) ?text ttl r = (b, r')"
    using assms(2) checkpoint_save_state [of R ttl now t stage snap r] by (metis prod.collapse snd_conv)
  have view: "rc_view R r' \<subseteq>\<^sub>m rc_view R r \<or> rc_view R r' \<subseteq>\<^sub>m (rc_view R r)(checkpoint_key t \<mapsto> ?text)"
    using rc_set_cases [OF assms(1) set] by cases auto
  have "rc_view R r (checkpoint_key u) = Some x" if "rc_view R r' (checkpoint_key u) = Some x" for x
    using view
  proof
    assume "rc_view R r' \<subseteq>\<^sub>m rc_view R r"
    from map_le_SomeD [OF this that] show ?thesis .
  next
    assume "rc_view R r' \<subseteq>\<^sub>m (rc_view R r)(checkpoint_key t \<mapsto> ?text)"
    from map_le_SomeD [OF this that] assms(3) show ?thesis by (simp del: json_dumps.simps)
  qed
  then show ?thesis by (cases "rc_view R r' (checkpoint_key u)") simp_all
qed

text \<open>C30: what is saved is read back. Whatever Redis does and whatever a record holds, saving and reading a
  checkpoint never raise. When Redis accepts the write and answers the read, reading a ticket after a
  save gives the checkpoint of that save and no earlier one: its ticket, stage, snapshot and time. And
  the checkpoints of the other tickets stay as they were, unless they expire.\<close>

theorem checkpoint_roundtrip:
  assumes R: "redis_laws R" and now: "valid_datetime now" and snap: "wf_json snap"
    and save: "checkpoint_save R ttl now t stage snap r = (a, r')"
  shows "a = Inr ()
    \<and> (\<exists>cp r''. checkpoint_get_latest R t r' = (Inr cp, r''))
    \<and> ((\<forall>v. fst (rc_set R (checkpoint_key t) v ttl r) = Inr ()) \<longrightarrow> redis_answers R r' \<longrightarrow>
       (\<exists>r''. checkpoint_get_latest R t r' =
          (Inr (Some \<lparr>cp_ticket_id = t, cp_stage = JStr stage, cp_snapshot = snap, cp_saved_at = now\<rparr>), r'')))
    \<and> (\<forall>u. u \<noteq> t \<longrightarrow> rc_view R r' (checkpoint_key u) \<in> {None, rc_view R r (checkpoint_key u)})"
proof (intro conjI impI allI)
  show "a = Inr ()" using checkpoint_save_total [OF R save] .
  show "\<exists>cp r''. checkpoint_get_latest R t r' = (Inr cp, r'')"
  proof (cases "rc_get R (checkpoint_key t) r'")
    case (Pair b r'')
    from rc_get_cases [OF R Pair] show ?thesis
      by cases (use Pair in \<open>auto simp: checkpoint_get_latest_def split: option.splits sum.splits\<close>)
  qed
  show "rc_view R r' (checkpoint_key u) \<in> {None, rc_view R r (checkpoint_key u)}" if "u \<noteq> t" for u
    using checkpoint_others [OF R save that] .
  assume "\<forall>v. fst (rc_set R (checkpoint_key t) v ttl r) = Inr ()" and answers: "redis_answers R r'"
  then have v: "rc_view R r' (checkpoint_key t) = Some (json_dumps (checkpoint_payload stage snap now))"
    by (intro checkpoint_written [OF R _ save]) simp
  have wf: "wf_json (checkpoint_payload stage snap now)" using snap by (simp add: checkpoint_payload_def)
  from answers v obtain r'' where
    "rc_get R (checkpoint_key t) r' = (Inr (Some (json_dumps (checkpoint_payload stage snap now))), r'')"
    unfolding redis_answers_def by metis
  with wf show "\<exists>r''. checkpoint_get_latest R t r' =
          (Inr (Some \<lparr>cp_ticket_id = t, cp_stage = JStr stage, cp_snapshot = snap, cp_saved_at = now\<rparr>), r'')"
    by (simp add: checkpoint_get_latest_def parse_checkpoint_payload now)
qed

end
