(* ===== verification/Policy.thy ===== *)
theory Policy
  imports PyFloat
begin

section \<open>The escalation policy\<close>

text \<open>
  \<^verbatim>\<open>backend/policy/rules.py\<close>: the one place that decides whether a ticket needs human
  review. The regular expression \<open>\$\s?(\d[\d,]*(?:\.\d+)?)\<close> is modelled by its matcher
  at a dollar sign (\<open>match_amount\<close>) and by \<open>finditer\<close>'s left-to-right scan
  (\<open>find_amounts\<close>); no backtracking can change a match of this expression.
  The lemmas show that the evaluation never raises, that it reports exactly the rules that
  fire, in a fixed order, and which amounts count as above the refund threshold.
\<close>

definition ESCALATION_KEYWORDS :: "string list" where
  "ESCALATION_KEYWORDS =
     [''legal'', ''lawsuit'', ''attorney'', ''security'', ''breach'', ''fraud'']"

definition REFUND_KEYWORD :: string where
  "REFUND_KEYWORD = ''refund''"

definition REFUND_AMOUNT_THRESHOLD_USD :: py_float where
  "REFUND_AMOUNT_THRESHOLD_USD = Fin 500"

definition LOW_CONFIDENCE_THRESHOLD :: py_float where
  "LOW_CONFIDENCE_THRESHOLD = binary64 (7 / 10)"

record policy_evaluation =
  requires_human_review :: bool
  matched_rules :: "string list"
  reason :: string

subsection \<open>Dollar amounts\<close>

definition is_digit_or_comma :: "char \<Rightarrow> bool" where
  "is_digit_or_comma c \<longleftrightarrow> is_digit c \<or> c = CHR '',''"

text \<open>The match after a dollar sign: group 1 and the text that follows the match.\<close>

definition skip_space :: "string \<Rightarrow> string" where
  "skip_space s = (case s of [] \<Rightarrow> [] | c # r \<Rightarrow> if is_space c then r else s)"

definition match_fraction :: "string \<Rightarrow> string \<times> string" where
  "match_fraction r =
     (case r of [] \<Rightarrow> ([], [])
      | c # r' \<Rightarrow>
          if c = CHR ''.'' \<and> takeWhile is_digit r' \<noteq> []
          then (c # takeWhile is_digit r', dropWhile is_digit r')
          else ([], r))"

definition match_amount :: "string \<Rightarrow> (string \<times> string) option" where
  "match_amount s =
     (case skip_space s of [] \<Rightarrow> None
      | c # r \<Rightarrow>
          if is_digit c
          then (let ds = takeWhile is_digit_or_comma r;
                    (fr, rest) = match_fraction (dropWhile is_digit_or_comma r)
                in Some (c # ds @ fr, rest))
          else None)"

lemma length_match_fraction: "match_fraction r = (f, rest) \<Longrightarrow> length rest \<le> length r"
  by (auto simp: match_fraction_def le_SucI length_dropWhile_le split: list.splits if_splits)

lemma length_skip_space: "length (skip_space s) \<le> length s"
  by (simp add: skip_space_def split: list.split)

lemma match_amount_SomeD:
  assumes "match_amount s = Some (m, rest)"
  obtains c r fr where "skip_space s = c # r" "is_digit c"
    "match_fraction (dropWhile is_digit_or_comma r) = (fr, rest)"
    "m = c # takeWhile is_digit_or_comma r @ fr"
  using assms by (auto simp: match_amount_def split: list.splits if_splits prod.splits)

lemma length_match_amount: "match_amount s = Some (m, rest) \<Longrightarrow> length rest \<le> length s"
proof (erule match_amount_SomeD)
  fix c r fr
  assume s: "skip_space s = c # r"
    and f: "match_fraction (dropWhile is_digit_or_comma r) = (fr, rest)"
  have "length rest \<le> length (dropWhile is_digit_or_comma r)" by (rule length_match_fraction [OF f])
  also have "\<dots> \<le> length r" by (rule length_dropWhile_le)
  also have "\<dots> \<le> length s" using length_skip_space [of s] s by simp
  finally show ?thesis .
qed

function find_amounts :: "string \<Rightarrow> string list" where
  "find_amounts [] = []"
| "find_amounts (c # s) =
     (if c = CHR ''$''
      then (case match_amount s of Some (m, rest) \<Rightarrow> m # find_amounts rest | None \<Rightarrow> find_amounts s)
      else find_amounts s)"
  by pat_completeness auto
termination
  by (relation "measure length") (auto simp: le_imp_less_Suc dest: length_match_amount)

definition nat_of_digits :: "string \<Rightarrow> nat" where
  "nat_of_digits ds = foldl (\<lambda>n c. 10 * n + (ord c - 48)) 0 ds"

text \<open>
  \<open>float(s)\<close> on a decimal without sign and exponent, the only strings it is called on
  (\<open>find_amounts_decimal\<close> below); on any other string this model raises.
\<close>

definition decimal_value :: "string \<Rightarrow> rat" where
  "decimal_value s =
     (let ip = takeWhile is_digit s; fs = drop 1 (dropWhile is_digit s)
      in of_nat (nat_of_digits (ip @ fs)) / 10 ^ length fs)"

definition is_decimal :: "string \<Rightarrow> bool" where
  "is_decimal s \<longleftrightarrow>
     takeWhile is_digit s \<noteq> [] \<and>
     (case dropWhile is_digit s of [] \<Rightarrow> True | c # fs \<Rightarrow> c = CHR ''.'' \<and> (\<forall>d \<in> set fs. is_digit d))"

definition float_of_string :: "string \<Rightarrow> exc + py_float" where
  "float_of_string s =
     (if is_decimal s then Inr (binary64 (decimal_value s))
      else Inl (ValueError (''could not convert string to float: '' @ s)))"

fun any_over_threshold :: "string list \<Rightarrow> exc + bool" where
  "any_over_threshold [] = Inr False"
| "any_over_threshold (m # ms) =
     (case float_of_string (filter (\<lambda>c. c \<noteq> CHR '','') m) of
        Inl e \<Rightarrow> Inl e
      | Inr amount \<Rightarrow>
          if float_less REFUND_AMOUNT_THRESHOLD_USD amount then Inr True else any_over_threshold ms)"

definition has_amount_over_threshold :: "string \<Rightarrow> exc + bool" where
  "has_amount_over_threshold text = any_over_threshold (find_amounts text)"

subsection \<open>Evaluation\<close>

definition matched_keyword_rules :: "string \<Rightarrow> exc + string list" where
  "matched_keyword_rules ticket_text =
     (let text = py_lower ticket_text;
          matched = filter (\<lambda>keyword. contains keyword text) ESCALATION_KEYWORDS
      in if contains REFUND_KEYWORD text
         then (case has_amount_over_threshold text of
                 Inl e \<Rightarrow> Inl e
               | Inr over \<Rightarrow>
                   Inr (matched @ [REFUND_KEYWORD] @ (if over then [''refund_over_threshold''] else [])))
         else Inr matched)"

definition build_reason :: "string list \<Rightarrow> string" where
  "build_reason matched =
     (if matched = [] then ''No escalation rules matched; eligible for automated response.''
      else ''Escalation rules matched: '' @ py_join '', '' matched @ ''.'')"

definition evaluate_policy :: "string \<Rightarrow> py_float \<Rightarrow> bool \<Rightarrow> exc + policy_evaluation" where
  "evaluate_policy ticket_text confidence_score agent_unresolved =
     (case matched_keyword_rules ticket_text of
        Inl e \<Rightarrow> Inl e
      | Inr matched \<Rightarrow>
          let m1 = matched @ (if float_less confidence_score LOW_CONFIDENCE_THRESHOLD
                              then [''low_confidence''] else []);
              m2 = m1 @ (if agent_unresolved then [''agent_unresolved''] else [])
          in Inr \<lparr>requires_human_review = (m2 \<noteq> []), matched_rules = m2, reason = build_reason m2\<rparr>)"


subsection \<open>Every amount read is a decimal, and none is missed\<close>

lemma is_digit_not_comma: "is_digit c \<Longrightarrow> c \<noteq> CHR '',''"
  by (auto simp: is_digit_def)

lemma match_fraction_append: "match_fraction r = (fr, rest) \<Longrightarrow> r = fr @ rest"
  by (auto simp: match_fraction_def split: list.splits if_splits)

lemma match_fraction_shape:
  "match_fraction r = (fr, rest) \<Longrightarrow>
     fr = [] \<or> (\<exists>fs. fr = CHR ''.'' # fs \<and> fs \<noteq> [] \<and> (\<forall>d \<in> set fs. is_digit d))"
  by (auto simp: match_fraction_def dest: set_takeWhileD split: list.splits if_splits)

lemma filter_digits_commas:
  "\<forall>c \<in> set ds. is_digit_or_comma c \<Longrightarrow> \<forall>c \<in> set (filter (\<lambda>c. c \<noteq> CHR '','') ds). is_digit c"
  by (auto simp: is_digit_or_comma_def)

lemma is_decimal_digits:
  assumes "ds \<noteq> []" and "\<forall>c \<in> set ds. is_digit c"
    and "fr = [] \<or> (\<exists>fs. fr = CHR ''.'' # fs \<and> (\<forall>d \<in> set fs. is_digit d))"
  shows "is_decimal (ds @ fr)"
proof -
  have dot: "\<not> is_digit (CHR ''.'')" by (simp add: is_digit_def)
  have "takeWhile is_digit (ds @ fr) = ds \<and> dropWhile is_digit (ds @ fr) = fr"
    using assms(2,3) dot by (auto simp: takeWhile_append dropWhile_append)
  with assms show ?thesis by (auto simp: is_decimal_def)
qed

lemma match_amount_decimal:
  assumes "match_amount s = Some (m, rest)"
  shows "is_decimal (filter (\<lambda>c. c \<noteq> CHR '','') m)"
proof -
  obtain c r fr where d: "is_digit c"
    and f: "match_fraction (dropWhile is_digit_or_comma r) = (fr, rest)"
    and m: "m = c # takeWhile is_digit_or_comma r @ fr"
    using assms by (rule match_amount_SomeD)
  define ds where "ds = c # filter (\<lambda>c. c \<noteq> CHR '','') (takeWhile is_digit_or_comma r)"
  have "\<forall>c \<in> set ds. is_digit c"
    using d filter_digits_commas [of "takeWhile is_digit_or_comma r"]
    by (auto simp: ds_def dest: set_takeWhileD)
  moreover have fr: "filter (\<lambda>c. c \<noteq> CHR '','') fr = fr"
    using match_fraction_shape [OF f] by (fastforce simp: filter_id_conv dest: is_digit_not_comma)
  moreover have "filter (\<lambda>c. c \<noteq> CHR '','') m = ds @ fr"
    using fr d by (simp add: m ds_def is_digit_not_comma)
  moreover have "ds \<noteq> []" by (simp add: ds_def)
  ultimately show ?thesis using match_fraction_shape [OF f] by (auto intro!: is_decimal_digits)
qed

lemma match_amount_consumed:
  assumes "match_amount s = Some (m, rest)"
  obtains pre where "s = pre @ rest" "CHR ''$'' \<notin> set pre"
proof -
  have no: "\<not> is_digit (CHR ''$'')" "\<not> is_digit_or_comma (CHR ''$'')" "\<not> is_space (CHR ''$'')"
    by (simp_all add: is_digit_def is_digit_or_comma_def is_space_def)
  obtain c r fr where sk: "skip_space s = c # r" and d: "is_digit c"
    and f: "match_fraction (dropWhile is_digit_or_comma r) = (fr, rest)"
    and m: "m = c # takeWhile is_digit_or_comma r @ fr"
    using assms by (rule match_amount_SomeD)
  have "CHR ''$'' \<notin> set fr"
    using match_fraction_shape [OF f] no(1) by auto
  moreover have "CHR ''$'' \<notin> set (takeWhile is_digit_or_comma r)"
    using no(2) by (auto dest: set_takeWhileD)
  ultimately have m': "CHR ''$'' \<notin> set m" using d no(1) m by auto
  have r: "r = takeWhile is_digit_or_comma r @ fr @ rest"
    using match_fraction_append [OF f] by (metis takeWhile_dropWhile_id)
  then have cr: "c # r = m @ rest" using m by simp
  have "s = c # r \<or> (\<exists>x. is_space x \<and> s = x # c # r)"
    using sk by (auto simp: skip_space_def split: list.splits if_splits)
  then show ?thesis
  proof
    assume "s = c # r"
    then show ?thesis using that [of m] m' cr by simp
  next
    assume "\<exists>x. is_space x \<and> s = x # c # r"
    then obtain x where "is_space x" "s = x # c # r" by blast
    then show ?thesis using that [of "x # m"] m' cr no(3) by auto
  qed
qed

lemma append_eq_marker:
  "pre @ rest = p @ x # r \<Longrightarrow> x \<notin> set pre \<Longrightarrow> \<exists>p'. p = pre @ p' \<and> rest = p' @ x # r"
  by (auto simp: append_eq_append_conv2 append_eq_Cons_conv)

lemma find_amounts_match:
  "m \<in> set (find_amounts s) \<longleftrightarrow> (\<exists>p r rest. s = p @ CHR ''$'' # r \<and> match_amount r = Some (m, rest))"
proof (induction s rule: find_amounts.induct)
  case 1
  then show ?case by simp
next
  case (2 c s)
  let ?at = "\<lambda>s. \<exists>p r rest. s = p @ CHR ''$'' # r \<and> match_amount r = Some (m, rest)"
  have step: "?at (c # s) \<longleftrightarrow> (c = CHR ''$'' \<and> (\<exists>rest. match_amount s = Some (m, rest))) \<or> ?at s"
    by (subst Cons_eq_append_conv) auto
  show ?case
  proof (cases "c = CHR ''$'' \<and> match_amount s \<noteq> None")
    case False
    with 2 step show ?thesis by (auto split: option.splits)
  next
    case True
    then obtain m' rest where mr: "c = CHR ''$''" "match_amount s = Some (m', rest)" by auto
    obtain pre where pre: "s = pre @ rest" "CHR ''$'' \<notin> set pre"
      using mr(2) by (rule match_amount_consumed)
    have "?at s \<longleftrightarrow> ?at rest"
    proof
      assume "?at s"
      with pre show "?at rest" by (metis append_eq_marker)
    next
      assume "?at rest"
      with pre(1) show "?at s" by (metis append.assoc)
    qed
    with 2 mr step show ?thesis by auto
  qed
qed

lemma find_amounts_decimal:
  "m \<in> set (find_amounts s) \<Longrightarrow> is_decimal (filter (\<lambda>c. c \<noteq> CHR '','') m)"
  by (auto simp: find_amounts_match dest: match_amount_decimal)

lemma decimal_value_nonneg: "0 \<le> decimal_value s"
  by (simp add: decimal_value_def Let_def)

lemma any_over_threshold_eq:
  "\<forall>m \<in> set ms. is_decimal (filter (\<lambda>c. c \<noteq> CHR '','') m) \<Longrightarrow>
   any_over_threshold ms =
     Inr (\<exists>m \<in> set ms. 500 + 1 / 2 ^ 45 < decimal_value (filter (\<lambda>c. c \<noteq> CHR '','') m))"
  by (induction ms)
     (auto simp: float_of_string_def REFUND_AMOUNT_THRESHOLD_USD_def binary64_gt_500 decimal_value_nonneg)

definition amount_over :: "string \<Rightarrow> bool" where
  "amount_over text \<longleftrightarrow>
     (\<exists>m \<in> set (find_amounts text). 500 + 1 / 2 ^ 45 < decimal_value (filter (\<lambda>c. c \<noteq> CHR '','') m))"

lemma has_amount_over_threshold_eq: "has_amount_over_threshold text = Inr (amount_over text)"
  using any_over_threshold_eq [of "find_amounts text"]
  by (simp add: has_amount_over_threshold_def amount_over_def find_amounts_decimal)

subsection \<open>The rules that fire\<close>

text \<open>
  The specification: every rule name with the condition under which it fires. The
  evaluation reports the rules that fire in the order of \<open>ALL_RULES\<close>.
\<close>

definition ALL_RULES :: "string list" where
  "ALL_RULES = ESCALATION_KEYWORDS @
     [REFUND_KEYWORD, ''refund_over_threshold'', ''low_confidence'', ''agent_unresolved'']"

definition rule_fires :: "string \<Rightarrow> py_float \<Rightarrow> bool \<Rightarrow> string \<Rightarrow> bool" where
  "rule_fires t c u r \<longleftrightarrow>
     (if r = ''low_confidence'' then float_less c LOW_CONFIDENCE_THRESHOLD
      else if r = ''agent_unresolved'' then u
      else if r = ''refund_over_threshold''
      then contains REFUND_KEYWORD (py_lower t) \<and> amount_over (py_lower t)
      else contains r (py_lower t))"

definition policy_of :: "string \<Rightarrow> py_float \<Rightarrow> bool \<Rightarrow> policy_evaluation" where
  "policy_of t c u =
     (let rs = filter (rule_fires t c u) ALL_RULES
      in \<lparr>requires_human_review = (rs \<noteq> []), matched_rules = rs, reason = build_reason rs\<rparr>)"

lemma filter_keyword_rules:
  "filter (rule_fires t c u) ESCALATION_KEYWORDS =
   filter (\<lambda>k. contains k (py_lower t)) ESCALATION_KEYWORDS"
  by (simp add: ESCALATION_KEYWORDS_def rule_fires_def)

lemma evaluate_policy_eq: "evaluate_policy t c u = Inr (policy_of t c u)"
  by (simp add: evaluate_policy_def matched_keyword_rules_def has_amount_over_threshold_eq
        policy_of_def ALL_RULES_def Let_def filter_keyword_rules)
     (simp add: rule_fires_def REFUND_KEYWORD_def)

lemma requires_review_iff:
  "requires_human_review (policy_of t c u) \<longleftrightarrow>
     (\<exists>k \<in> set ESCALATION_KEYWORDS. contains k (py_lower t)) \<or> contains REFUND_KEYWORD (py_lower t)
     \<or> float_less c LOW_CONFIDENCE_THRESHOLD \<or> u"
  by (auto simp: policy_of_def Let_def ALL_RULES_def filter_empty_conv filter_keyword_rules rule_fires_def
        REFUND_KEYWORD_def ESCALATION_KEYWORDS_def)

lemma distinct_ALL_RULES: "distinct ALL_RULES"
  by (simp add: ALL_RULES_def ESCALATION_KEYWORDS_def REFUND_KEYWORD_def)

lemma requires_review_context:
  "requires_human_review (policy_of t c u) \<Longrightarrow> requires_human_review (policy_of (p @ t @ q) c u)"
  by (auto simp: requires_review_iff py_lower_append intro: contains_context)

subsection \<open>Properties\<close>

text \<open>
  C28: \<^verbatim>\<open>evaluate_policy\<close> never raises, and it reports exactly the rules that fire, each
  once, in the order of the rule list: the escalation keywords, then the refund rules, then
  low confidence, then the agent's own signal. Review is required when at least one rule fired.
\<close>

theorem policy_reports_firing_rules:
  "evaluate_policy t c u =
     Inr \<lparr>requires_human_review = (\<exists>r \<in> set ALL_RULES. rule_fires t c u r),
          matched_rules = filter (rule_fires t c u) ALL_RULES,
          reason = build_reason (filter (rule_fires t c u) ALL_RULES)\<rparr>
   \<and> distinct (filter (rule_fires t c u) ALL_RULES)"
  by (auto simp: evaluate_policy_eq policy_of_def Let_def filter_empty_conv distinct_ALL_RULES)

text \<open>
  C29: the refund threshold. \<^verbatim>\<open>_has_amount_over_threshold\<close> never raises, and it is true exactly
  when some dollar sign of the text is followed by an amount whose decimal value, commas
  removed, is above 500 + 2^-45: no dollar sign is skipped by the scan, and the comparison is
  exact up to the rounding of the decimal to a double.
\<close>

theorem refund_threshold_exact:
  "has_amount_over_threshold text =
     Inr (\<exists>p r m rest. text = p @ CHR ''$'' # r \<and> match_amount r = Some (m, rest)
            \<and> 500 + 1 / 2 ^ 45 < decimal_value (filter (\<lambda>c. c \<noteq> CHR '','') m))"
  unfolding has_amount_over_threshold_eq amount_over_def Bex_def find_amounts_match
  by (rule arg_cong [where f = Inr]) blast

text \<open>
  Escalation cannot be evaded by adding text: if a ticket requires human review, so does
  every ticket that contains its text, under the same score and the same agent signal.
\<close>

lemma policy_escalation_monotone:
  assumes "evaluate_policy t c u = Inr e" and "requires_human_review e"
  shows "\<exists>e'. evaluate_policy (p @ t @ q) c u = Inr e' \<and> requires_human_review e'"
  using assms requires_review_context by (auto simp: evaluate_policy_eq)

text \<open>The evaluation does not depend on the case of the ticket text.\<close>

lemma policy_case_insensitive: "evaluate_policy (py_lower t) c u = evaluate_policy t c u"
  by (simp add: evaluate_policy_def matched_keyword_rules_def)

end
