(* ===== verification/Workflow.thy ===== *)
theory Workflow
  imports Classifier Checkpoint Policy
begin

section \<open>The support workflow\<close>

text \<open>
  \<^verbatim>\<open>backend/graph/state.py\<close>, \<^verbatim>\<open>nodes.py\<close> and \<^verbatim>\<open>workflow.py\<close>. The state is a record whose \<open>NotRequired\<close>
  keys are options; a node returns a partial update, a list of fields, that the graph merges.
  The graph is data (nodes and edges) as in \<open>build_workflow\<close>, and \<open>graph_run\<close> is what LangGraph
  does with it, with its default recursion limit of 25 steps as fuel: the six nodes need seven.
\<close>

subsection \<open>State\<close>

record workflow_state =
  ws_ticket_id :: uuid
  ws_customer_id :: uuid
  ws_ticket_text :: string
  ws_category :: "ticket_category option"
  ws_selected_agent :: "support_agent_type option"
  ws_retrieved_context :: "string option"
  ws_draft_response :: "string option"
  ws_agent_unresolved :: "bool option"
  ws_confidence_score :: "py_float option"
  ws_requires_human_review :: "bool option"
  ws_matched_policy_rules :: "string list option"
  ws_workflow_status :: "workflow_status option"

text \<open>One key of a partial update.\<close>

datatype ws_field =
    F_ticket_id uuid
  | F_customer_id uuid
  | F_ticket_text string
  | F_category ticket_category
  | F_selected_agent support_agent_type
  | F_retrieved_context string
  | F_draft_response string
  | F_agent_unresolved bool
  | F_confidence_score py_float
  | F_requires_human_review bool
  | F_matched_policy_rules "string list"
  | F_workflow_status workflow_status

fun set_field :: "ws_field \<Rightarrow> workflow_state \<Rightarrow> workflow_state" where
  "set_field (F_ticket_id i) s = s\<lparr>ws_ticket_id := i\<rparr>"
| "set_field (F_customer_id i) s = s\<lparr>ws_customer_id := i\<rparr>"
| "set_field (F_ticket_text t) s = s\<lparr>ws_ticket_text := t\<rparr>"
| "set_field (F_category c) s = s\<lparr>ws_category := Some c\<rparr>"
| "set_field (F_selected_agent a) s = s\<lparr>ws_selected_agent := Some a\<rparr>"
| "set_field (F_retrieved_context c) s = s\<lparr>ws_retrieved_context := Some c\<rparr>"
| "set_field (F_draft_response d) s = s\<lparr>ws_draft_response := Some d\<rparr>"
| "set_field (F_agent_unresolved u) s = s\<lparr>ws_agent_unresolved := Some u\<rparr>"
| "set_field (F_confidence_score c) s = s\<lparr>ws_confidence_score := Some c\<rparr>"
| "set_field (F_requires_human_review b) s = s\<lparr>ws_requires_human_review := Some b\<rparr>"
| "set_field (F_matched_policy_rules rs) s = s\<lparr>ws_matched_policy_rules := Some rs\<rparr>"
| "set_field (F_workflow_status st) s = s\<lparr>ws_workflow_status := Some st\<rparr>"

definition merge_update :: "ws_field list \<Rightarrow> workflow_state \<Rightarrow> workflow_state" where
  "merge_update u s = fold set_field u s"

text \<open>
  The snapshot that a checkpoint stores: \<^verbatim>\<open>json.dumps(update, default=str)\<close>. The only float a
  node returns is the placeholder score 1.0.
\<close>

fun float_json :: "py_float \<Rightarrow> json" where
  "float_json (Fin x) = (if x = 1 then JFloat ''1.0'' else JFloat (int_str \<lfloor>x\<rfloor> @ ''.0''))"
| "float_json PosInf = JFloat ''Infinity''"
| "float_json NegInf = JFloat ''-Infinity''"
| "float_json NaN = JFloat ''NaN''"

fun field_json :: "ws_field \<Rightarrow> string \<times> json" where
  "field_json (F_ticket_id i) = (''ticket_id'', JStr (uuid_str i))"
| "field_json (F_customer_id i) = (''customer_id'', JStr (uuid_str i))"
| "field_json (F_ticket_text t) = (''ticket_text'', JStr t)"
| "field_json (F_category c) = (''category'', JStr (ticket_category_value c))"
| "field_json (F_selected_agent a) = (''selected_agent'', JStr (support_agent_value a))"
| "field_json (F_retrieved_context c) = (''retrieved_context'', JStr c)"
| "field_json (F_draft_response d) = (''draft_response'', JStr d)"
| "field_json (F_agent_unresolved u) = (''agent_unresolved'', JBool u)"
| "field_json (F_confidence_score c) = (''confidence_score'', float_json c)"
| "field_json (F_requires_human_review b) = (''requires_human_review'', JBool b)"
| "field_json (F_matched_policy_rules rs) = (''matched_policy_rules'', JList (map JStr rs))"
| "field_json (F_workflow_status st) = (''workflow_status'', JStr (workflow_status_value st))"

definition update_json :: "ws_field list \<Rightarrow> json" where
  "update_json u = JObj (map field_json u)"

subsection \<open>Nodes\<close>

type_synonym 'r node = "workflow_state \<Rightarrow> (ws_field list, 'r world) comp"

definition save_checkpoint :: "'r env \<Rightarrow> uuid \<Rightarrow> string \<Rightarrow> json \<Rightarrow> (unit, 'r world) comp" where
  "save_checkpoint E ticket_id stage snapshot w =
     on_redis (checkpoint_save (e_redis E) (redis_checkpoint_ttl_seconds (e_settings E))
       (d_now (e_db E) (w_db w)) ticket_id stage snapshot) w"

definition checkpointed :: "'r env \<Rightarrow> string \<Rightarrow> 'r node \<Rightarrow> 'r node" where
  "checkpointed E stage node_fn state =
     bind (node_fn state) (\<lambda>update.
       bind (catch (save_checkpoint E (ws_ticket_id state) stage (update_json update)) (\<lambda>e. ret ()))
         (\<lambda>_. ret update))"

definition PLACEHOLDER_CONFIDENCE_SCORE :: py_float where
  "PLACEHOLDER_CONFIDENCE_SCORE = Fin 1"

fun agent_by_category :: "ticket_category \<Rightarrow> support_agent_type" where
  "agent_by_category BILLING = BILLING_AGENT"
| "agent_by_category TECHNICAL = TECHNICAL_AGENT"
| "agent_by_category ACCOUNT = ACCOUNT_AGENT"
| "agent_by_category GENERAL = GENERAL_AGENT"

fun agent_class_by_type :: "support_agent_type \<Rightarrow> specialist" where
  "agent_class_by_type BILLING_AGENT = billing_agent"
| "agent_class_by_type TECHNICAL_AGENT = technical_agent"
| "agent_class_by_type ACCOUNT_AGENT = account_agent"
| "agent_class_by_type GENERAL_AGENT = general_agent"

definition get_or :: "'a \<Rightarrow> 'a option \<Rightarrow> 'a" where
  "get_or d x = (case x of None \<Rightarrow> d | Some a \<Rightarrow> a)"

definition load_ticket_node :: "'r node" where
  "load_ticket_node state =
     ret [F_ticket_id (ws_ticket_id state), F_customer_id (ws_customer_id state),
          F_ticket_text (ws_ticket_text state)]"

definition classify_ticket_node :: "'r env \<Rightarrow> 'r node" where
  "classify_ticket_node E = checkpointed E ''classification'' (\<lambda>state.
     bind (classify_ticket E (ws_ticket_text state)) (\<lambda>category. ret [F_category category]))"

definition select_agent_node :: "'r env \<Rightarrow> 'r node" where
  "select_agent_node E = checkpointed E ''agent_selection'' (\<lambda>state.
     ret [F_selected_agent (agent_by_category (get_or GENERAL (ws_category state)))])"

definition execute_agent_node :: "'r env \<Rightarrow> 'r node" where
  "execute_agent_node E = checkpointed E ''specialist_execution'' (\<lambda>state.
     let agent = agent_class_by_type (get_or GENERAL_AGENT (ws_selected_agent state)) in
     bind (agent_init E agent) (\<lambda>_.
       bind (respond E agent (ws_ticket_text state)) (\<lambda>result.
         ret [F_retrieved_context (r_retrieved_context result),
              F_draft_response (r_response result),
              F_agent_unresolved (r_unresolved result)])))"

definition confidence_evaluation_node :: "'r env \<Rightarrow> 'r node" where
  "confidence_evaluation_node E = checkpointed E ''policy_evaluation'' (\<lambda>state.
     let confidence_score = PLACEHOLDER_CONFIDENCE_SCORE in
     bind (lift_sum (evaluate_policy (ws_ticket_text state) confidence_score
                       (get_or False (ws_agent_unresolved state)))) (\<lambda>evaluation.
       ret [F_confidence_score confidence_score,
            F_requires_human_review (requires_human_review evaluation),
            F_matched_policy_rules (matched_rules evaluation)]))"

definition AI_DRAFT_DESCRIPTION :: string where
  "AI_DRAFT_DESCRIPTION = ''AI generated a draft response requiring supervisor review.''"

definition enqueue_supervisor_review :: "'r env \<Rightarrow> workflow_state \<Rightarrow> (unit, 'r world) comp" where
  "enqueue_supervisor_review E state =
     (let matched = get_or [] (ws_matched_policy_rules state);
          agent = get_or GENERAL_AGENT (ws_selected_agent state) in
      catch
        (bind (on_db (with_session
                 (bind (create_pending (e_db E) (ws_ticket_id state) (get_or [] (ws_draft_response state))
                          (ws_retrieved_context state) (support_agent_value agent) matched)
                   (\<lambda>_. db_commit (e_db E)))))
           (\<lambda>_. on_db (log_audit_event (e_db E) (ws_ticket_id state) ''ai_draft_created''
                         AI_DRAFT_DESCRIPTION None
                         (Some [(''matched_policy_rules'', JList (map JStr matched))]))))
        (\<lambda>e. ret ()))"

definition persist_results_node :: "'r env \<Rightarrow> 'r node" where
  "persist_results_node E state =
     bind (if get_or False (ws_requires_human_review state) then enqueue_supervisor_review E state else ret ())
       (\<lambda>_. ret [F_workflow_status WS_COMPLETED])"

subsection \<open>The graph\<close>

record 'r graph =
  g_nodes :: "(string \<times> 'r node) list"
  g_edges :: "(string \<times> string) list"

definition START :: string where "START = ''__start__''"
definition END_NODE :: string where "END_NODE = ''__end__''"
definition LOAD_TICKET :: string where "LOAD_TICKET = ''load_ticket''"
definition CLASSIFY_TICKET :: string where "CLASSIFY_TICKET = ''classify_ticket''"
definition SELECT_AGENT :: string where "SELECT_AGENT = ''select_agent''"
definition EXECUTE_AGENT :: string where "EXECUTE_AGENT = ''execute_agent''"
definition CONFIDENCE_EVALUATION :: string where "CONFIDENCE_EVALUATION = ''confidence_evaluation''"
definition PERSIST_RESULTS :: string where "PERSIST_RESULTS = ''persist_results''"

lemmas node_names = START_def END_NODE_def LOAD_TICKET_def CLASSIFY_TICKET_def SELECT_AGENT_def
  EXECUTE_AGENT_def CONFIDENCE_EVALUATION_def PERSIST_RESULTS_def

definition build_workflow :: "'r env \<Rightarrow> 'r graph" where
  "build_workflow E = \<lparr>
     g_nodes =
       [(LOAD_TICKET, load_ticket_node), (CLASSIFY_TICKET, classify_ticket_node E),
        (SELECT_AGENT, select_agent_node E), (EXECUTE_AGENT, execute_agent_node E),
        (CONFIDENCE_EVALUATION, confidence_evaluation_node E), (PERSIST_RESULTS, persist_results_node E)],
     g_edges =
       [(START, LOAD_TICKET), (LOAD_TICKET, CLASSIFY_TICKET), (CLASSIFY_TICKET, SELECT_AGENT),
        (SELECT_AGENT, EXECUTE_AGENT), (EXECUTE_AGENT, CONFIDENCE_EVALUATION),
        (CONFIDENCE_EVALUATION, PERSIST_RESULTS), (PERSIST_RESULTS, END_NODE)]\<rparr>"

definition RECURSION_LIMIT :: nat where "RECURSION_LIMIT = 25"

definition graph_recursion_error :: exc where
  "graph_recursion_error = OtherExc ''Recursion limit reached''"

fun graph_run :: "nat \<Rightarrow> 'r graph \<Rightarrow> string \<Rightarrow> workflow_state \<Rightarrow> (workflow_state, 'r world) comp" where
  "graph_run 0 g pos state = raise graph_recursion_error"
| "graph_run (Suc n) g pos state =
     (case map_of (g_edges g) pos of
        None \<Rightarrow> ret state
      | Some next \<Rightarrow>
          if next = END_NODE then ret state
          else (case map_of (g_nodes g) next of
                  None \<Rightarrow> raise (ValueError next)
                | Some node \<Rightarrow> bind (node state) (\<lambda>u. graph_run n g next (merge_update u state))))"

text \<open>\<^verbatim>\<open>get_graph().invoke(initial_state)\<close>; the compiled graph is built once and holds no state.\<close>

definition invoke :: "'r env \<Rightarrow> workflow_state \<Rightarrow> (workflow_state, 'r world) comp" where
  "invoke E state = graph_run RECURSION_LIMIT (build_workflow E) START state"

subsection \<open>The graph as a chain of nodes\<close>

definition then_node :: "'r node \<Rightarrow> (workflow_state \<Rightarrow> (workflow_state, 'r world) comp)
    \<Rightarrow> workflow_state \<Rightarrow> (workflow_state, 'r world) comp" where
  "then_node node k state = bind (node state) (\<lambda>u. k (merge_update u state))"

lemma graph_run_Suc:
  "map_of (g_edges g) pos = Some next \<Longrightarrow> next \<noteq> END_NODE \<Longrightarrow> map_of (g_nodes g) next = Some node \<Longrightarrow>
     graph_run (Suc n) g pos = then_node node (graph_run n g next)"
  by (rule ext) (simp add: then_node_def)

lemma graph_run_END: "map_of (g_edges g) pos = Some END_NODE \<Longrightarrow> graph_run (Suc n) g pos = ret"
  by (rule ext) simp

text \<open>The run ends within the recursion limit, after the six nodes in order.\<close>

lemma graph_run_chain:
  "graph_run (Suc (Suc (Suc (Suc (Suc (Suc (Suc n))))))) (build_workflow E) START =
     then_node load_ticket_node (then_node (classify_ticket_node E) (then_node (select_agent_node E)
     (then_node (execute_agent_node E) (then_node (confidence_evaluation_node E)
       (then_node (persist_results_node E) ret)))))"
proof -
  let ?g = "build_workflow E"
  have e: "map_of (g_edges ?g) START = Some LOAD_TICKET"
    "map_of (g_edges ?g) LOAD_TICKET = Some CLASSIFY_TICKET"
    "map_of (g_edges ?g) CLASSIFY_TICKET = Some SELECT_AGENT"
    "map_of (g_edges ?g) SELECT_AGENT = Some EXECUTE_AGENT"
    "map_of (g_edges ?g) EXECUTE_AGENT = Some CONFIDENCE_EVALUATION"
    "map_of (g_edges ?g) CONFIDENCE_EVALUATION = Some PERSIST_RESULTS"
    "map_of (g_edges ?g) PERSIST_RESULTS = Some END_NODE"
    by (simp_all add: build_workflow_def node_names)
  have n: "map_of (g_nodes ?g) LOAD_TICKET = Some load_ticket_node"
    "map_of (g_nodes ?g) CLASSIFY_TICKET = Some (classify_ticket_node E)"
    "map_of (g_nodes ?g) SELECT_AGENT = Some (select_agent_node E)"
    "map_of (g_nodes ?g) EXECUTE_AGENT = Some (execute_agent_node E)"
    "map_of (g_nodes ?g) CONFIDENCE_EVALUATION = Some (confidence_evaluation_node E)"
    "map_of (g_nodes ?g) PERSIST_RESULTS = Some (persist_results_node E)"
    by (simp_all add: build_workflow_def node_names)
  have d: "LOAD_TICKET \<noteq> END_NODE" "CLASSIFY_TICKET \<noteq> END_NODE" "SELECT_AGENT \<noteq> END_NODE"
    "EXECUTE_AGENT \<noteq> END_NODE" "CONFIDENCE_EVALUATION \<noteq> END_NODE" "PERSIST_RESULTS \<noteq> END_NODE"
    by (simp_all add: node_names)
  show ?thesis
    unfolding graph_run_Suc [OF e(1) d(1) n(1)] graph_run_Suc [OF e(2) d(2) n(2)] graph_run_Suc [OF e(3) d(3) n(3)]
      graph_run_Suc [OF e(4) d(4) n(4)] graph_run_Suc [OF e(5) d(5) n(5)] graph_run_Suc [OF e(6) d(6) n(6)]
      graph_run_END [OF e(7)] ..
qed

text \<open>With more than six steps the number of them does not matter.\<close>

lemma graph_run_enough: "7 \<le> n \<Longrightarrow> graph_run n (build_workflow E) START = graph_run 7 (build_workflow E) START"
proof -
  have seven: "graph_run (Suc (Suc (Suc (Suc (Suc (Suc (Suc m))))))) = graph_run (m + 7)" for m
    by (simp add: numeral_eq_Suc)
  assume "7 \<le> n"
  then obtain m where "n = m + 7" by (metis add.commute le_Suc_ex)
  then show ?thesis using graph_run_chain [of m E] graph_run_chain [of 0 E] unfolding seven by simp
qed

lemma invoke_eq:
  "invoke E = then_node load_ticket_node (then_node (classify_ticket_node E) (then_node (select_agent_node E)
     (then_node (execute_agent_node E) (then_node (confidence_evaluation_node E)
       (then_node (persist_results_node E) ret)))))"
  using graph_run_chain [of 18 E] by (intro ext) (simp add: invoke_def RECURSION_LIMIT_def numeral_eq_Suc)

subsection \<open>Nodes, one by one\<close>

definition workflow_ns :: "string list" where
  "workflow_ns = [CLS_CACHE_KEY_PREFIX, KB_CACHE_KEY_PREFIX, CHECKPOINT_KEY_PREFIX]"

lemma workflow_ns_mem [simp]:
  "CLS_CACHE_KEY_PREFIX \<in> set workflow_ns" "KB_CACHE_KEY_PREFIX \<in> set workflow_ns"
  "CHECKPOINT_KEY_PREFIX \<in> set workflow_ns"
  by (simp_all add: workflow_ns_def)

text \<open>What everything before the last node may do: nothing to the tables, in Redis only its namespaces.\<close>

definition frame :: "'r env \<Rightarrow> 'r world \<Rightarrow> 'r world \<Rightarrow> bool" where
  "frame E = world_rel (only_ns workflow_ns (e_redis E)) (=)"

lemma reflp_frame [simp]: "reflp (frame E)" and transp_frame [simp]: "transp (frame E)"
  by (simp_all add: frame_def)

lemma frame_db: "frame E w w' \<Longrightarrow> w_db w' = w_db w"
  by (simp add: frame_def world_rel_def)

lemma frame_trans: "frame E a b \<Longrightarrow> frame E b c \<Longrightarrow> frame E a c"
  using transp_frame by (rule transpD)

lemma steps_save_checkpoint:
  assumes "redis_laws (e_redis E)"
  shows "steps (frame E) (save_checkpoint E t stage snap)"
proof -
  have "steps (frame E) (on_redis (checkpoint_save (e_redis E) ttl now t stage snap))" for ttl now
    unfolding frame_def by (rule steps_on_redis) (simp_all add: steps_checkpoint_save assms reflp_def)
  then show ?thesis by (simp add: steps_def save_checkpoint_def)
qed

lemma steps_checkpointed:
  assumes "redis_laws (e_redis E)" "steps (frame E) (node s)"
  shows "steps (frame E) (checkpointed E stage node s)"
  unfolding checkpointed_def
  by (intro steps_bind steps_catch steps_ret steps_save_checkpoint assms) simp_all

lemma checkpointed_Inr:
  assumes "node s w = (Inr u, w')"
  shows "\<exists>w''. checkpointed E stage node s w = (Inr u, w'')"
  using assms catch_total [of "\<lambda>e. ret ()" "save_checkpoint E (ws_ticket_id s) stage (update_json u)" w']
  by (auto simp: checkpointed_def bind_def)

lemma checkpointed_Inl: "node s w = (Inl e, w') \<Longrightarrow> checkpointed E stage node s w = (Inl e, w')"
  by (simp add: checkpointed_def bind_def)

definition clients_ok :: "'r env \<Rightarrow> bool" where
  "clients_ok E \<longleftrightarrow>
     (let key = or_none (openai_api_key (e_settings E)) in
      e_openai_new E key (llm_request_timeout_seconds (e_settings E)) = None \<and> (\<forall>a. lc_api_key (ca_llm a) = key \<longrightarrow> e_agent_new E a = None)
      \<and> (\<forall>t. e_crew_new E t = None))"

lemma classify_returns:
  assumes "redis_laws (e_redis E)" "clients_ok E"
  shows "\<exists>c w'. classify_ticket E t w = (Inr c, w')"
proof -
  obtain v w1 where get: "cls_get_cached E (cls_key E t) w = (Inr v, w1)"
    using redis_cache.look_total [OF assms(1), of "cls_key E t" "w_redis w"]
    by (auto simp: cls_get_cached_def on_redis_def)
  have set: "\<exists>w3. cls_set_cached E (cls_key E t) s w2 = (Inr (), w3)" for s w2
    using redis_cache.keep_total [OF assms(1), of "cls_build_cache E" "cls_key E t" "JStr s" "w_redis w2"]
    by (auto simp: cls_set_cached_def on_redis_def)
  show ?thesis
  proof (cases "Option.bind v category_of_json")
    case None
    show ?thesis
    proof (cases "openai_category E t")
      case None
      with \<open>Option.bind v category_of_json = None\<close> get assms(2) show ?thesis
        by (simp add: classify_ticket_def bind_def [of "cls_get_cached E k" for k] Let_def check_def clients_ok_def)
    next
      case (Some c)
      obtain w3 where "cls_set_cached E (cls_key E t) (ticket_category_value c) w1 = (Inr (), w3)"
        using set by metis
      with Some \<open>Option.bind v category_of_json = None\<close> get assms(2) show ?thesis
        by (simp add: classify_ticket_def bind_def [of "cls_get_cached E k" for k]
            bind_def [of "cls_set_cached E k s" for k s] Let_def check_def clients_ok_def)
    qed
  next
    case (Some c)
    with get show ?thesis by (simp add: classify_ticket_def bind_def Let_def)
  qed
qed

lemma respond_returns:
  assumes "clients_ok E"
  shows "\<exists>r w'. respond E agent t w = (Inr r, w')"
proof -
  obtain ctx w1 where ctx: "retrieve_context E agent t w = (Inr ctx, w1)"
    unfolding retrieve_context_def using catch_total by (metis ret_apply)
  have "respond E agent t w = catch (bind (e_kickoff E (reply_task E agent t ctx))
                  (\<lambda>output. ret (result_of_kickoff ctx (Inr output))))
               (\<lambda>e. ret (result_of_kickoff ctx (Inl e))) w1"
    using assms unfolding respond_def bind_Inr [where m = "retrieve_context E agent t" and s = w, OF ctx] Let_def
    by (simp add: check_def clients_ok_def Let_def del: result_of_kickoff.simps)
  then show ?thesis
    using catch_total [of "\<lambda>e. ret (result_of_kickoff ctx (Inl e))"] by simp
qed

lemma agent_init_ok: "clients_ok E \<Longrightarrow> agent_init E agent = ret ()"
  by (simp add: agent_init_def agent_config_def clients_ok_def check_def Let_def)

lemma then_node_Inr: "node s w = (Inr u, w') \<Longrightarrow> then_node node k s w = k (merge_update u s) w'"
  by (simp add: then_node_def bind_def)

lemma steps_classify_node: "redis_laws (e_redis E) \<Longrightarrow> steps (frame E) (classify_ticket_node E s)"
  unfolding classify_ticket_node_def
  by (rule steps_checkpointed, assumption, unfold frame_def)
     (intro steps_bind steps_classify steps_ret; simp)

lemma steps_select_node: "redis_laws (e_redis E) \<Longrightarrow> steps (frame E) (select_agent_node E s)"
  unfolding select_agent_node_def by (intro steps_checkpointed steps_ret) simp_all

lemma steps_execute_node:
  "redis_laws (e_redis E) \<Longrightarrow> kickoff_law E T \<Longrightarrow> steps (frame E) (execute_agent_node E s)"
  unfolding execute_agent_node_def
  by (rule steps_checkpointed, assumption, unfold frame_def Let_def agent_init_def)
     (intro steps_bind steps_check steps_respond steps_ret; simp)

lemma steps_confidence_node: "redis_laws (e_redis E) \<Longrightarrow> steps (frame E) (confidence_evaluation_node E s)"
  unfolding confidence_evaluation_node_def
  by (rule steps_checkpointed, assumption, unfold Let_def evaluate_policy_eq lift_sum_def sum.case ret_bind)
     (rule steps_ret, simp)

text \<open>The state that reaches the last node: the category, the agent, its result, and the policy's verdict.\<close>

definition evaluated_state :: "workflow_state \<Rightarrow> ticket_category \<Rightarrow> agent_result \<Rightarrow> workflow_state" where
  "evaluated_state s c r =
     (let p = policy_of (ws_ticket_text s) PLACEHOLDER_CONFIDENCE_SCORE (r_unresolved r) in
      s\<lparr>ws_category := Some c, ws_selected_agent := Some (agent_by_category c),
        ws_retrieved_context := Some (r_retrieved_context r), ws_draft_response := Some (r_response r),
        ws_agent_unresolved := Some (r_unresolved r),
        ws_confidence_score := Some PLACEHOLDER_CONFIDENCE_SCORE,
        ws_requires_human_review := Some (requires_human_review p),
        ws_matched_policy_rules := Some (matched_rules p)\<rparr>)"

lemma evaluated_state_sel [simp]:
  "ws_ticket_id (evaluated_state s c r) = ws_ticket_id s"
  "ws_customer_id (evaluated_state s c r) = ws_customer_id s"
  "ws_ticket_text (evaluated_state s c r) = ws_ticket_text s"
  "ws_category (evaluated_state s c r) = Some c"
  "ws_selected_agent (evaluated_state s c r) = Some (agent_by_category c)"
  "ws_retrieved_context (evaluated_state s c r) = Some (r_retrieved_context r)"
  "ws_draft_response (evaluated_state s c r) = Some (r_response r)"
  "ws_agent_unresolved (evaluated_state s c r) = Some (r_unresolved r)"
  "ws_requires_human_review (evaluated_state s c r) =
     Some (requires_human_review (policy_of (ws_ticket_text s) PLACEHOLDER_CONFIDENCE_SCORE (r_unresolved r)))"
  "ws_matched_policy_rules (evaluated_state s c r) =
     Some (matched_rules (policy_of (ws_ticket_text s) PLACEHOLDER_CONFIDENCE_SCORE (r_unresolved r)))"
  by (simp_all add: evaluated_state_def Let_def)

lemma workflow_outcome:
  assumes R: "redis_laws (e_redis E)" and ok: "clients_ok E" and law: "kickoff_law E T"
  obtains c r wc wr wr' w1 where
    "classify_ticket E (ws_ticket_text s) w = (Inr c, wc)"
    "respond E (agent_class_by_type (agent_by_category c)) (ws_ticket_text s) wr = (Inr r, wr')"
    "frame E w wr" "frame E w w1"
    "invoke E s w = then_node (persist_results_node E) ret (evaluated_state s c r) w1"
proof -
  have load: "load_ticket_node s w = (Inr [F_ticket_id (ws_ticket_id s), F_customer_id (ws_customer_id s),
      F_ticket_text (ws_ticket_text s)], w)" by (simp add: load_ticket_node_def)
  have s0: "merge_update [F_ticket_id (ws_ticket_id s), F_customer_id (ws_customer_id s),
      F_ticket_text (ws_ticket_text s)] s = s" by (simp add: merge_update_def)
  obtain c wc where c: "classify_ticket E (ws_ticket_text s) w = (Inr c, wc)"
    using classify_returns [OF R ok] by blast
  have "\<exists>wa. classify_ticket_node E s w = (Inr [F_category c], wa)"
    unfolding classify_ticket_node_def
    by (rule checkpointed_Inr [where w' = wc]) (simp add: bind_def c)
  then obtain wa where n1: "classify_ticket_node E s w = (Inr [F_category c], wa)" ..
  have fa: "frame E w wa" using stepsD [OF steps_classify_node [OF R] n1] .
  let ?s1 = "s\<lparr>ws_category := Some c\<rparr>"
  have "\<exists>wb. select_agent_node E ?s1 wa = (Inr [F_selected_agent (agent_by_category c)], wb)"
    unfolding select_agent_node_def by (rule checkpointed_Inr [where w' = wa]) (simp add: get_or_def)
  then obtain wb where n2: "select_agent_node E ?s1 wa = (Inr [F_selected_agent (agent_by_category c)], wb)" ..
  have fb: "frame E w wb" using frame_trans [OF fa stepsD [OF steps_select_node [OF R] n2]] .
  let ?s2 = "?s1\<lparr>ws_selected_agent := Some (agent_by_category c)\<rparr>"
  let ?agent = "agent_class_by_type (agent_by_category c)"
  obtain r wr' where r: "respond E ?agent (ws_ticket_text s) wb = (Inr r, wr')"
    using respond_returns [OF ok] by blast
  let ?u3 = "[F_retrieved_context (r_retrieved_context r), F_draft_response (r_response r),
      F_agent_unresolved (r_unresolved r)]"
  have "\<exists>wd. execute_agent_node E ?s2 wb = (Inr ?u3, wd)"
    unfolding execute_agent_node_def
    by (rule checkpointed_Inr [where w' = wr']) (simp add: get_or_def agent_init_ok [OF ok] bind_def r)
  then obtain wd where n3: "execute_agent_node E ?s2 wb = (Inr ?u3, wd)" ..
  have fd: "frame E w wd" using frame_trans [OF fb stepsD [OF steps_execute_node [OF R law] n3]] .
  let ?s3 = "?s2\<lparr>ws_retrieved_context := Some (r_retrieved_context r), ws_draft_response := Some (r_response r),
      ws_agent_unresolved := Some (r_unresolved r)\<rparr>"
  let ?p = "policy_of (ws_ticket_text s) PLACEHOLDER_CONFIDENCE_SCORE (r_unresolved r)"
  let ?u4 = "[F_confidence_score PLACEHOLDER_CONFIDENCE_SCORE,
      F_requires_human_review (requires_human_review ?p), F_matched_policy_rules (matched_rules ?p)]"
  have "\<exists>we. confidence_evaluation_node E ?s3 wd = (Inr ?u4, we)"
    unfolding confidence_evaluation_node_def
    by (rule checkpointed_Inr [where w' = wd]) (simp add: get_or_def lift_sum_def evaluate_policy_eq Let_def)
  then obtain we where n4: "confidence_evaluation_node E ?s3 wd = (Inr ?u4, we)" ..
  have fe: "frame E w we" using frame_trans [OF fd stepsD [OF steps_confidence_node [OF R] n4]] .
  have "invoke E s w = then_node (persist_results_node E) ret (evaluated_state s c r) we"
    unfolding invoke_eq then_node_Inr [where node = load_ticket_node, OF load] s0
    by (simp add: then_node_Inr [where node = "classify_ticket_node E", OF n1]
          then_node_Inr [where node = "select_agent_node E", OF n2]
          then_node_Inr [where node = "execute_agent_node E", OF n3]
          then_node_Inr [where node = "confidence_evaluation_node E", OF n4]
          merge_update_def evaluated_state_def Let_def)
  with c r fb fe show thesis by (rule that)
qed

end
