(* ===== verification/Samples.thy ===== *)
theory Samples
  imports Workflow
begin

section \<open>A concrete environment\<close>

text \<open>
  The concrete parameters that the witnesses compute with: a database with one customer and one
  ticket whose engine never fails, an in-memory Redis that is reachable or not, a model that
  always answers the same category, a crew run with a given outcome that calls no tool, and the
  identity in place of SHA-256 (it is collision free, which is all that is used).
\<close>

definition sample_time :: datetime where
  "sample_time = DateTime 2026 7 1 12 30 0 0"

definition sample_db_env :: db_env where
  "sample_db_env = \<lparr>d_fault = (\<lambda>op db. None),
     d_new_id = (\<lambda>db. 100 + of_nat (length (db_tickets db) + length (db_approvals db) + length (db_audit_logs db))),
     d_now = (\<lambda>db. sample_time), d_db_now = (\<lambda>db. sample_time), d_tie = (\<lambda>i. 0)\<rparr>"

definition sample_customer :: customer_row where
  "sample_customer = \<lparr>cu_id = 1, cu_name = ''Ada'', cu_email = ''ada@example.com'', cu_company = None,
     cu_tier = STANDARD, cu_created_at = sample_time\<rparr>"

definition sample_user :: "user_role \<Rightarrow> user_row" where
  "sample_user role = \<lparr>us_id = 2, us_email = ''sue@example.com'', us_password_hash = ''x'', us_full_name = ''Sue'',
     us_role = role, us_is_active = True, us_created_at = sample_time, us_updated_at = sample_time\<rparr>"

definition sample_ticket :: ticket_row where
  "sample_ticket = \<lparr>tk_id = 3, tk_customer_id = 1, tk_assigned_agent_id = None, tk_subject = ''Help'',
     tk_description = ''My app crashes'', tk_priority = MEDIUM, tk_status = TS_NEW, tk_ai_summary = None,
     tk_created_at = sample_time, tk_updated_at = sample_time\<rparr>"

definition sample_article :: article_row where
  "sample_article = \<lparr>ka_id = 4, ka_category = ''technical'', ka_title = ''Crashes'',
     ka_content = ''Restart the app'', ka_created_at = sample_time, ka_updated_at = sample_time\<rparr>"

definition sample_db :: database where
  "sample_db = \<lparr>db_customers = [sample_customer], db_users = [sample_user SUPERVISOR],
     db_tickets = [sample_ticket], db_approvals = [], db_audit_logs = [], db_articles = [sample_article],
     db_agent_runs = []\<rparr>"

lemmas sample_rows = sample_customer_def sample_user_def sample_ticket_def sample_article_def

definition base_env :: "'r redis_client \<Rightarrow> string \<Rightarrow> exc + crew_result \<Rightarrow> 'r env" where
  "base_env R category outcome = \<lparr>e_settings = default_settings, e_redis = R, e_sha256 = (\<lambda>t. t),
     e_db = sample_db_env, e_openai_new = (\<lambda>key timeout. None), e_openai_parse = (\<lambda>m p t. Inr (Some category)),
     e_agent_new = (\<lambda>a. None), e_crew_new = (\<lambda>task. None), e_kickoff = (\<lambda>task w. (outcome, w))\<rparr>"

abbreviation sample_env :: "string \<Rightarrow> exc + crew_result \<Rightarrow> mem_state env" where
  "sample_env \<equiv> base_env mem_redis"

abbreviation live_env :: "string \<Rightarrow> exc + crew_result \<Rightarrow> (string \<rightharpoonup> string) env" where
  "live_env \<equiv> base_env live_redis"

definition live_world :: "(string \<rightharpoonup> string) world" where
  "live_world = \<lparr>w_redis = Map.empty, w_db = sample_db\<rparr>"

definition sample_world :: "bool \<Rightarrow> mem_state world" where
  "sample_world up = \<lparr>w_redis = (Map.empty, up), w_db = sample_db\<rparr>"

definition sample_state :: "string \<Rightarrow> workflow_state" where
  "sample_state text = \<lparr>ws_ticket_id = 3, ws_customer_id = 1, ws_ticket_text = text, ws_category = None,
     ws_selected_agent = None, ws_retrieved_context = None, ws_draft_response = None,
     ws_agent_unresolved = None, ws_confidence_score = None, ws_requires_human_review = None,
     ws_matched_policy_rules = None, ws_workflow_status = Some WS_PENDING\<rparr>"

lemma base_env_sel [simp]:
  "e_redis (base_env R c out) = R" "e_db (base_env R c out) = sample_db_env"
  "e_sha256 (base_env R c out) = (\<lambda>t. t)" "e_kickoff (base_env R c out) = (\<lambda>task w. (out, w))"
  "e_openai_new (base_env R c out) = (\<lambda>key timeout. None)" "e_crew_new (base_env R c out) = (\<lambda>task. None)"
  "e_settings (base_env R c out) = default_settings"
  by (simp_all add: base_env_def)

lemma live_world_sel [simp]: "w_redis live_world = Map.empty" "w_db live_world = sample_db"
  by (simp_all add: live_world_def)

lemma sample_no_faults [simp]: "no_faults sample_db_env"
  by (simp add: no_faults_def sample_db_env_def)

lemma base_clients_ok [simp]: "clients_ok (base_env R c out)"
  by (simp add: clients_ok_def base_env_def Let_def)

lemma base_kickoff_law [simp]: "kickoff_law (base_env R c out) T"
  unfolding kickoff_law_def by (auto simp: after_searches_def intro: exI [of _ "[]"])

lemma sample_wf [simp]: "db_wf sample_db"
  by (simp add: db_wf_def sample_db_def sample_rows ticket_ok_def id_lists fk_opt_def)

lemma sample_caches [simp]: "kb_cache_ok E T (sample_world up)" "cls_cache_ok E T (sample_world up)"
  if "e_redis E = mem_redis"
  using that by (simp_all add: kb_cache_ok_def cls_cache_ok_def cache_holds_def sample_world_def)

lemma sample_world_sel [simp]: "w_db (sample_world up) = sample_db" "w_redis (sample_world up) = (Map.empty, up)"
  by (simp_all add: sample_world_def)

lemma sample_state_sel [simp]: "ws_ticket_id (sample_state t) = 3" "ws_ticket_text (sample_state t) = t"
  by (simp_all add: sample_state_def)

end
