(* ===== verification/Workflow_Typing.thy ===== *)
theory Workflow_Typing
  imports Workflow
begin

section \<open>The fields of the workflow state\<close>

text \<open>
  \<open>WorkflowState\<close> (\<^verbatim>\<open>backend/graph/state.py\<close>) is a \<open>TypedDict\<close> with three required keys and nine that a node
  adds. This theory states the discipline that the nodes of \<^verbatim>\<open>nodes.py\<close> keep: what each of them writes,
  that none touches the required keys, and what it may raise; and that the graph of \<^verbatim>\<open>workflow.py\<close>
  ends after six nodes, whatever the recursion limit.
\<close>

subsection \<open>Keys\<close>

datatype ws_key =
    Ticket_id | Customer_id | Ticket_text | Category | Selected_agent | Retrieved_context | Draft_response
  | Agent_unresolved | Confidence_score | Requires_human_review | Matched_policy_rules | Workflow_status

text \<open>The keys that a state has, and the key of one entry of an update.\<close>

fun present :: "workflow_state \<Rightarrow> ws_key \<Rightarrow> bool" where
  "present s Ticket_id = True"
| "present s Customer_id = True"
| "present s Ticket_text = True"
| "present s Category = (ws_category s \<noteq> None)"
| "present s Selected_agent = (ws_selected_agent s \<noteq> None)"
| "present s Retrieved_context = (ws_retrieved_context s \<noteq> None)"
| "present s Draft_response = (ws_draft_response s \<noteq> None)"
| "present s Agent_unresolved = (ws_agent_unresolved s \<noteq> None)"
| "present s Confidence_score = (ws_confidence_score s \<noteq> None)"
| "present s Requires_human_review = (ws_requires_human_review s \<noteq> None)"
| "present s Matched_policy_rules = (ws_matched_policy_rules s \<noteq> None)"
| "present s Workflow_status = (ws_workflow_status s \<noteq> None)"

fun key_of :: "ws_field \<Rightarrow> ws_key" where
  "key_of (F_ticket_id _) = Ticket_id"
| "key_of (F_customer_id _) = Customer_id"
| "key_of (F_ticket_text _) = Ticket_text"
| "key_of (F_category _) = Category"
| "key_of (F_selected_agent _) = Selected_agent"
| "key_of (F_retrieved_context _) = Retrieved_context"
| "key_of (F_draft_response _) = Draft_response"
| "key_of (F_agent_unresolved _) = Agent_unresolved"
| "key_of (F_confidence_score _) = Confidence_score"
| "key_of (F_requires_human_review _) = Requires_human_review"
| "key_of (F_matched_policy_rules _) = Matched_policy_rules"
| "key_of (F_workflow_status _) = Workflow_status"

definition required_part :: "workflow_state \<Rightarrow> uuid \<times> uuid \<times> string" where
  "required_part s = (ws_ticket_id s, ws_customer_id s, ws_ticket_text s)"

text \<open>What each node writes.\<close>

definition node_keys :: "(string \<times> ws_key list) list" where
  "node_keys =
    [(LOAD_TICKET, [Ticket_id, Customer_id, Ticket_text]), (CLASSIFY_TICKET, [Category]), (SELECT_AGENT, [Selected_agent]),
     (EXECUTE_AGENT, [Retrieved_context, Draft_response, Agent_unresolved]),
     (CONFIDENCE_EVALUATION, [Confidence_score, Requires_human_review, Matched_policy_rules]),
     (PERSIST_RESULTS, [Workflow_status])]"

lemma present_set_field: "present (set_field f s) k \<longleftrightarrow> present s k \<or> k = key_of f"
  by (cases f; cases k; simp)

lemma present_merge: "present (merge_update u s) k \<longleftrightarrow> present s k \<or> k \<in> set (map key_of u)"
  unfolding merge_update_def by (induction u arbitrary: s) (auto simp: present_set_field)

subsection \<open>What a node may answer\<close>

text \<open>
  The exceptions of the constructors that the code calls outside every \<^verbatim>\<open>try\<close>: the OpenAI client, the
  CrewAI agent, and the task with its crew.
\<close>

definition client_refusal :: "'r env \<Rightarrow> string \<Rightarrow> exc \<Rightarrow> bool" where
  "client_refusal E name e \<longleftrightarrow>
     name = CLASSIFY_TICKET
       \<and> e_openai_new E (or_none (openai_api_key (e_settings E))) (llm_request_timeout_seconds (e_settings E)) = Some e
     \<or> name = EXECUTE_AGENT
       \<and> (\<exists>agent. e_agent_new E (agent_config E agent) = Some e \<or> (\<exists>t ctx. e_crew_new E (reply_task E agent t ctx) = Some e))"

lemma checkpointed_same:
  assumes "checkpointed E stage node s w = (r, w')"
  shows "\<exists>w1. node s w = (r, w1)"
proof (cases "node s w")
  case (Pair a w1)
  show ?thesis
  proof (cases a)
    case (Inl e)
    with Pair assms show ?thesis by (auto simp: checkpointed_def bind_def)
  next
    case (Inr u)
    obtain w2 where "checkpointed E stage node s w = (Inr u, w2)"
      using checkpointed_Inr Pair [unfolded Inr] by blast
    with assms Pair Inr show ?thesis by simp
  qed
qed

lemma classify_refusal:
  assumes R: "redis_laws (e_redis E)" and "classify_ticket E t w = (Inl e, w')"
  shows "client_refusal E CLASSIFY_TICKET e"
proof -
  obtain v w1 where get: "cls_get_cached E (cls_key E t) w = (Inr v, w1)"
    using redis_cache.look_total [OF R, of "cls_key E t" "w_redis w"]
    by (auto simp: cls_get_cached_def on_redis_def)
  have set: "\<exists>w3. cls_set_cached E k s w2 = (Inr (), w3)" for k s w2
    using redis_cache.keep_total [OF R, of "cls_build_cache E" k "JStr s" "w_redis w2"]
    by (auto simp: cls_set_cached_def on_redis_def)
  note get = bind_Inr [where m = "cls_get_cached E (cls_key E t)" and s = w, OF get]
  have stored: "bind (cls_set_cached E k s) (\<lambda>_. ret c) w2 \<noteq> (Inl e, w')" for k s c w2
    using set [of k s w2] by (auto simp: bind_def)
  show ?thesis
  proof (cases "Option.bind v category_of_json")
    case None
    then have "bind (check (e_openai_new E (or_none (openai_api_key (e_settings E))) (llm_request_timeout_seconds (e_settings E))))
        (\<lambda>_. case openai_category E t of None \<Rightarrow> ret GENERAL
           | Some c \<Rightarrow> bind (cls_set_cached E (cls_key E t) (ticket_category_value c)) (\<lambda>_. ret c)) w1 = (Inl e, w')"
      using assms(2) by (simp add: classify_ticket_def Let_def get)
    then show ?thesis using stored
      by (fastforce simp: check_def client_refusal_def split: option.splits)
  next
    case (Some c)
    with assms(2) show ?thesis by (simp add: classify_ticket_def Let_def get)
  qed
qed

lemma respond_refusal:
  assumes "respond E agent t w = (Inl e, w')"
  shows "\<exists>ctx. e_crew_new E (reply_task E agent t ctx) = Some e"
proof -
  obtain ctx w1 where ctx: "retrieve_context E agent t w = (Inr ctx, w1)"
    unfolding retrieve_context_def using catch_total by (metis ret_apply)
  have never: "catch m (\<lambda>e. ret (f e)) v \<noteq> (Inl e, w')"
    for m and f :: "exc \<Rightarrow> agent_result" and v
    using catch_total [of "\<lambda>e. ret (f e)" m v] by auto
  show ?thesis
  proof (cases "e_crew_new E (reply_task E agent t ctx)")
    case None
    with assms never show ?thesis
      by (simp add: respond_def bind_Inr [where m = "retrieve_context E agent t" and s = w, OF ctx] Let_def check_def
          del: result_of_kickoff.simps)
  next
    case (Some x)
    with assms show ?thesis
      by (intro exI [of _ ctx])
         (simp add: respond_def bind_Inr [where m = "retrieve_context E agent t" and s = w, OF ctx] Let_def check_def)
  qed
qed

text \<open>A node of the graph writes its keys, leaves the required part, or is refused a client.\<close>

definition node_answer :: "'r env \<Rightarrow> string \<Rightarrow> workflow_state \<Rightarrow> exc + ws_field list \<Rightarrow> bool" where
  "node_answer E name s r \<longleftrightarrow>
     (case r of Inl e \<Rightarrow> client_refusal E name e
      | Inr u \<Rightarrow> map_of node_keys name = Some (map key_of u) \<and> required_part (merge_update u s) = required_part s)"

lemmas node_answer_simps = node_answer_def node_keys_def node_names merge_update_def required_part_def

lemma load_answer: "load_ticket_node s w = (r, w') \<Longrightarrow> node_answer E LOAD_TICKET s r"
  by (auto simp: load_ticket_node_def node_answer_simps)

lemma classify_answer:
  assumes "redis_laws (e_redis E)" "classify_ticket_node E s w = (r, w')"
  shows "node_answer E CLASSIFY_TICKET s r"
proof -
  obtain w1 where "bind (classify_ticket E (ws_ticket_text s)) (\<lambda>category. ret [F_category category]) w = (r, w1)"
    using checkpointed_same assms(2) unfolding classify_ticket_node_def by blast
  then show ?thesis using classify_refusal [OF assms(1)]
    by (auto simp: bind_def node_answer_simps split: prod.splits sum.splits)
qed

lemma select_answer:
  assumes "select_agent_node E s w = (r, w')"
  shows "node_answer E SELECT_AGENT s r"
proof -
  obtain w1 where "ret [F_selected_agent (agent_by_category (get_or GENERAL (ws_category s)))] w = (r, w1)"
    using checkpointed_same assms unfolding select_agent_node_def by blast
  then show ?thesis by (auto simp: node_answer_simps)
qed

lemma execute_answer:
  assumes "execute_agent_node E s w = (r, w')"
  shows "node_answer E EXECUTE_AGENT s r"
proof -
  let ?a = "agent_class_by_type (get_or GENERAL_AGENT (ws_selected_agent s))"
  obtain w1 where "bind (agent_init E ?a) (\<lambda>_. bind (respond E ?a (ws_ticket_text s)) (\<lambda>result.
      ret [F_retrieved_context (r_retrieved_context result), F_draft_response (r_response result),
           F_agent_unresolved (r_unresolved result)])) w = (r, w1)"
    using checkpointed_same assms unfolding execute_agent_node_def Let_def by blast
  then show ?thesis using respond_refusal [of E ?a "ws_ticket_text s" w]
    by (auto simp: agent_init_def check_def bind_def client_refusal_def node_answer_simps
        split: prod.splits sum.splits option.splits)
qed

lemma confidence_answer:
  assumes "confidence_evaluation_node E s w = (r, w')"
  shows "node_answer E CONFIDENCE_EVALUATION s r"
  using checkpointed_same assms unfolding confidence_evaluation_node_def
  by (fastforce simp: Let_def evaluate_policy_eq lift_sum_def node_answer_simps)

lemma persist_answer:
  assumes "persist_results_node E s w = (r, w')"
  shows "node_answer E PERSIST_RESULTS s r"
proof -
  have "\<exists>w1. enqueue_supervisor_review E s w = (Inr (), w1)"
    unfolding enqueue_supervisor_review_def Let_def using catch_total [of "\<lambda>e. ret ()"] by auto
  then show ?thesis using assms
    by (auto simp: persist_results_node_def bind_def node_answer_simps split: if_splits)
qed

lemma node_answers:
  assumes "redis_laws (e_redis E)" "(name, node) \<in> set (g_nodes (build_workflow E))" "node s w = (r, w')"
  shows "node_answer E name s r"
  using assms(2,3) load_answer classify_answer [OF assms(1)] select_answer execute_answer confidence_answer persist_answer
  unfolding build_workflow_def by auto

subsection \<open>A whole run\<close>

lemma then_node_cases:
  assumes "then_node node k s w = (r, w')"
  obtains e where "node s w = (Inl e, w')" "r = Inl e"
  | u w1 where "node s w = (Inr u, w1)" "k (merge_update u s) w1 = (r, w')"
  using assms by (auto simp: then_node_def bind_def split: prod.splits sum.splits)

text \<open>
  \<open>run_answer E ks s r\<close>: what the rest of a run answers from a state \<open>s\<close> when the nodes to come write the
  keys \<open>ks\<close>.
\<close>

definition run_answer :: "'r env \<Rightarrow> ws_key list \<Rightarrow> workflow_state \<Rightarrow> exc + workflow_state \<Rightarrow> bool" where
  "run_answer E ks s r \<longleftrightarrow>
     (case r of Inl e \<Rightarrow> \<exists>name. client_refusal E name e
      | Inr s' \<Rightarrow> required_part s' = required_part s \<and> (\<forall>k. present s' k \<longleftrightarrow> present s k \<or> k \<in> set ks))"

lemma then_node_answer:
  assumes "then_node node k s w = (r, w')" and "\<And>r w'. node s w = (r, w') \<Longrightarrow> node_answer E name s r"
    and "map_of node_keys name = Some ks" and "\<And>s w r w'. k s w = (r, w') \<Longrightarrow> run_answer E ks' s r"
  shows "run_answer E (ks @ ks') s r"
  using assms(1)
proof (cases rule: then_node_cases)
  case (1 e)
  with assms(2) show ?thesis by (auto simp: node_answer_def run_answer_def)
next
  case (2 u w1)
  have "map key_of u = ks" "required_part (merge_update u s) = required_part s"
    using assms(2) [OF 2(1)] assms(3) by (auto simp: node_answer_def)
  with assms(4) [OF 2(2)] show ?thesis by (auto simp: run_answer_def present_merge split: sum.splits)
qed

lemma invoke_answer:
  assumes R: "redis_laws (e_redis E)" and "invoke E s w = (r, w')"
  shows "run_answer E (concat (map snd node_keys)) s r"
proof -
  have end_run: "ret s w = (r, w') \<Longrightarrow> run_answer E [] s r" for s w r w'
    by (auto simp: run_answer_def)
  note step = then_node_answer [where E = E]
  have keys: "map_of node_keys LOAD_TICKET = Some [Ticket_id, Customer_id, Ticket_text]"
    "map_of node_keys CLASSIFY_TICKET = Some [Category]" "map_of node_keys SELECT_AGENT = Some [Selected_agent]"
    "map_of node_keys EXECUTE_AGENT = Some [Retrieved_context, Draft_response, Agent_unresolved]"
    "map_of node_keys CONFIDENCE_EVALUATION = Some [Confidence_score, Requires_human_review, Matched_policy_rules]"
    "map_of node_keys PERSIST_RESULTS = Some [Workflow_status]"
    by (simp_all add: node_keys_def node_names)
  have "run_answer E ([Ticket_id, Customer_id, Ticket_text] @ [Category] @ [Selected_agent]
      @ [Retrieved_context, Draft_response, Agent_unresolved]
      @ [Confidence_score, Requires_human_review, Matched_policy_rules] @ [Workflow_status] @ []) s r"
    using assms(2) unfolding invoke_eq
    by (rule step [OF _ load_answer keys(1) step [OF _ classify_answer [OF R] keys(2) step [OF _ select_answer keys(3)
          step [OF _ execute_answer keys(4) step [OF _ confidence_answer keys(5)
            step [OF _ persist_answer keys(6) end_run]]]]]])
  then show ?thesis by (simp add: node_keys_def)
qed

subsection \<open>Properties\<close>

lemma all_keys: "k \<in> set (concat (map snd node_keys))"
  by (cases k) (simp_all add: node_keys_def)

lemma no_refusal: "clients_ok E \<Longrightarrow> \<not> client_refusal E name e"
  by (auto simp: client_refusal_def clients_ok_def Let_def agent_config_def)

lemma invoke_returns:
  assumes "redis_laws (e_redis E)" "clients_ok E"
  shows "\<exists>s' w'. invoke E s w = (Inr s', w')"
proof -
  obtain r w' where r: "invoke E s w = (r, w')" by fastforce
  with invoke_answer [OF assms(1) r] no_refusal [OF assms(2)] show ?thesis
    by (cases r) (auto simp: run_answer_def)
qed

text \<open>C4: the nodes keep the type of the state, whatever Redis, the database and the models do. A node of the graph
  that returns writes exactly its own keys and leaves the ticket's id, customer and text as they are;
  it raises only what the constructor of the OpenAI client, of the agent or of its crew raises. So a
  run, from any state, either ends with every key present, or with such an exception of the
  classification or the execution of the agent, and never with a missing key.\<close>

theorem workflow_is_well_typed:
  assumes "redis_laws (e_redis E)"
  shows "(\<forall>(name, node) \<in> set (g_nodes (build_workflow E)). case fst (node s w) of
        Inr u \<Rightarrow> map_of node_keys name = Some (map key_of u) \<and> required_part (merge_update u s) = required_part s
          \<and> (\<forall>k. present (merge_update u s) k \<longleftrightarrow> present s k \<or> k \<in> set (map key_of u))
      | Inl e \<Rightarrow> client_refusal E name e)
    \<and> (case fst (invoke E s w) of
        Inr s' \<Rightarrow> required_part s' = required_part s \<and> (\<forall>k. present s' k)
      | Inl e \<Rightarrow> client_refusal E CLASSIFY_TICKET e \<or> client_refusal E EXECUTE_AGENT e)"
proof
  show "\<forall>(name, node) \<in> set (g_nodes (build_workflow E)). case fst (node s w) of
        Inr u \<Rightarrow> map_of node_keys name = Some (map key_of u) \<and> required_part (merge_update u s) = required_part s
          \<and> (\<forall>k. present (merge_update u s) k \<longleftrightarrow> present s k \<or> k \<in> set (map key_of u))
      | Inl e \<Rightarrow> client_refusal E name e"
  proof (clarify)
    fix name node assume node: "(name, node) \<in> set (g_nodes (build_workflow E))"
    obtain r w' where r: "node s w = (r, w')" by fastforce
    from node_answers [OF assms node r] r show "case fst (node s w) of
        Inr u \<Rightarrow> map_of node_keys name = Some (map key_of u) \<and> required_part (merge_update u s) = required_part s
          \<and> (\<forall>k. present (merge_update u s) k \<longleftrightarrow> present s k \<or> k \<in> set (map key_of u))
      | Inl e \<Rightarrow> client_refusal E name e"
      by (simp add: node_answer_def present_merge split: sum.splits)
  qed
next
  obtain r w' where r: "invoke E s w = (r, w')" by fastforce
  with invoke_answer [OF assms r] all_keys show "case fst (invoke E s w) of
        Inr s' \<Rightarrow> required_part s' = required_part s \<and> (\<forall>k. present s' k)
      | Inl e \<Rightarrow> client_refusal E CLASSIFY_TICKET e \<or> client_refusal E EXECUTE_AGENT e"
    by (auto simp: run_answer_def client_refusal_def split: sum.splits)
qed

text \<open>C10: a run ends. With the clients constructed, whatever else fails, every recursion limit of at least seven,
  LangGraph's default of 25 among them, lets a run reach the end of the graph, and with the same
  result: no edge leads back.\<close>

theorem workflow_terminates:
  assumes "redis_laws (e_redis E)" and "clients_ok E"
  shows "7 \<le> RECURSION_LIMIT \<and> (\<exists>s' w'. \<forall>n \<ge> 7. graph_run n (build_workflow E) START s w = (Inr s', w'))"
proof -
  have limit: "7 \<le> RECURSION_LIMIT" by (simp add: RECURSION_LIMIT_def)
  obtain s' w' where "invoke E s w = (Inr s', w')" using invoke_returns [OF assms] by blast
  then have "graph_run 7 (build_workflow E) START s w = (Inr s', w')"
    unfolding invoke_def graph_run_enough [OF limit] .
  then have "graph_run n (build_workflow E) START s w = (Inr s', w')" if "7 \<le> n" for n
    unfolding graph_run_enough [OF that] .
  with limit show ?thesis by blast
qed

end
