(* ===== verification/Escalation.thy ===== *)
theory Escalation
  imports Samples Workflow_Typing
begin

section \<open>What a run of the workflow leaves behind\<close>

text \<open>
  The last node in detail, and the properties of a whole run: the routing and the decision, the
  review queue, and the escalation of failed generations. The witnesses run the workflow on
  \<open>sample_env\<close>, a concrete environment whose model answers every ticket with a category that is a
  parameter and whose crew run does as another parameter says.
\<close>

subsection \<open>Persisting the outcome\<close>

definition review_row :: "db_env \<Rightarrow> database \<Rightarrow> workflow_state \<Rightarrow> approval_row" where
  "review_row D db s = \<lparr>ap_id = d_new_id D db, ap_ticket_id = ws_ticket_id s, ap_requested_by = None,
     ap_approved_by = None, ap_status = AS_PENDING, ap_comments = None,
     ap_requested_at = d_db_now D db, ap_decided_at = None,
     ap_draft_response = get_or [] (ws_draft_response s), ap_retrieved_context = ws_retrieved_context s,
     ap_selected_agent = support_agent_value (get_or GENERAL_AGENT (ws_selected_agent s)),
     ap_matched_policy_rules = get_or [] (ws_matched_policy_rules s)\<rparr>"

definition with_review :: "db_env \<Rightarrow> workflow_state \<Rightarrow> database \<Rightarrow> database" where
  "with_review D s db = db\<lparr>db_approvals := db_approvals db @ [review_row D db s]\<rparr>"

definition draft_event :: "db_env \<Rightarrow> database \<Rightarrow> workflow_state \<Rightarrow> audit_row" where
  "draft_event D db s = \<lparr>al_id = d_new_id D db, al_ticket_id = ws_ticket_id s, al_user_id = None,
     al_event_type = ''ai_draft_created'', al_description = AI_DRAFT_DESCRIPTION,
     al_event_metadata = Some (JObj [(''matched_policy_rules'',
       JList (map JStr (get_or [] (ws_matched_policy_rules s))))]),
     al_created_at = d_db_now D db\<rparr>"

definition with_event :: "db_env \<Rightarrow> workflow_state \<Rightarrow> database \<Rightarrow> database" where
  "with_event D s db = db\<lparr>db_audit_logs := db_audit_logs db @ [draft_event D db s]\<rparr>"

lemma length_agent_value: "length (support_agent_value a) \<le> 50"
  by (cases a) simp_all

definition persist_review :: "db_env \<Rightarrow> workflow_state \<Rightarrow> (unit, database) comp" where
  "persist_review D s = with_session
     (bind (create_pending D (ws_ticket_id s) (get_or [] (ws_draft_response s)) (ws_retrieved_context s)
              (support_agent_value (get_or GENERAL_AGENT (ws_selected_agent s)))
              (get_or [] (ws_matched_policy_rules s)))
       (\<lambda>_. db_commit D))"

lemma create_pending_eq:
  "create_pending D (ws_ticket_id s) (get_or [] (ws_draft_response s)) (ws_retrieved_context s)
     (support_agent_value (get_or GENERAL_AGENT (ws_selected_agent s))) (get_or [] (ws_matched_policy_rules s)) ss
   = bind (db_flush D (insert_approval (review_row D (ss_work ss) s)))
       (\<lambda>_. reload_with_ticket D (d_new_id D (ss_work ss))) ss"
  by (simp add: create_pending_def Let_def review_row_def)

lemma insert_review:
  "insert_approval (review_row D db s) db = Inr db' \<Longrightarrow> db' = with_review D s db"
  by (simp add: insert_approval_def with_review_def split: if_splits)

text \<open>The review item is stored whole or not at all.\<close>

lemma persist_review_cases:
  assumes "persist_review D s db = (a, db')"
  shows "(a = Inr () \<and> db' = with_review D s db) \<or> ((\<exists>e. a = Inl e) \<and> db' = db)"
proof -
  let ?s0 = "\<lparr>ss_work = db, ss_saved = db\<rparr>"
  have reload: "reload_with_ticket D i ss = (x, ss') \<Longrightarrow> ss' = ss" for i ss x ss'
    by (auto simp: reload_with_ticket_def bind_def db_select_def split: option.splits sum.splits prod.splits list.splits)
  show ?thesis
  proof (cases "db_flush D (insert_approval (review_row D db s)) ?s0")
    case (Pair f s1)
    show ?thesis
    proof (cases f)
      case (Inl e)
      then have "s1 = ?s0" using Pair by (auto simp: db_flush_def split: option.splits sum.splits)
      with Inl Pair assms have "a = Inl e \<and> db' = db"
        by (auto simp: persist_review_def with_session_def bind_def create_pending_eq)
      then show ?thesis by blast
    next
      case (Inr u)
      then obtain db1 where db1: "insert_approval (review_row D db s) db = Inr db1"
        and s1: "s1 = ?s0\<lparr>ss_work := db1\<rparr>"
        using Pair by (auto simp: db_flush_def split: option.splits sum.splits)
      obtain x s2 where x: "reload_with_ticket D (d_new_id D db) s1 = (x, s2)" by fastforce
      then have s2: "s2 = s1" by (rule reload)
      with Inr Pair assms x s1 insert_review [OF db1] show ?thesis
        by (cases x) (auto simp: persist_review_def with_session_def bind_def create_pending_eq db_commit_def
            split: option.splits)
    qed
  qed
qed

lemma persist_review_ok:
  assumes "no_faults D" "ws_ticket_id s \<in> set (ticket_ids db)"
    and "d_new_id D db \<notin> ap_id ` set (db_approvals db)"
  shows "persist_review D s db = (Inr (), with_review D s db)"
proof -
  have "insert_approval (review_row D db s) db = Inr (with_review D s db)"
    using assms(2,3) length_agent_value [of "get_or GENERAL_AGENT (ws_selected_agent s)"]
    by (simp add: insert_approval_def review_row_def approval_fk_def fk_opt_def with_review_def)
  moreover have "filter (\<lambda>a. ap_id a = d_new_id D db) (db_approvals (with_review D s db)) = [review_row D db s]"
    using assms(3) by (force simp: with_review_def filter_empty_conv review_row_def)
  ultimately show ?thesis using assms(1)
    by (simp add: persist_review_def with_session_def bind_def create_pending_eq reload_with_ticket_def
        db_flush_def db_select_def db_commit_def no_faults_def)
qed

lemma enqueue_eq:
  "enqueue_supervisor_review E s = catch
     (bind (on_db (persist_review (e_db E) s))
       (\<lambda>_. on_db (log_audit_event (e_db E) (ws_ticket_id s) ''ai_draft_created'' AI_DRAFT_DESCRIPTION None
          (Some [(''matched_policy_rules'', JList (map JStr (get_or [] (ws_matched_policy_rules s))))]))))
     (\<lambda>e. ret ())"
  by (simp add: enqueue_supervisor_review_def persist_review_def Let_def)

lemma log_draft_cases:
  assumes "log_audit_event D (ws_ticket_id s) ''ai_draft_created'' AI_DRAFT_DESCRIPTION None
      (Some [(''matched_policy_rules'', JList (map JStr (get_or [] (ws_matched_policy_rules s))))]) db = (a, db')"
  shows "a = Inr () \<and> (db' = db \<or> db' = with_event D s db)"
  using assms
  by (auto simp: log_audit_event_def audit_create_def session_defs bind_def catch_def Let_def with_event_def
      draft_event_def insert_audit_def split: option.splits if_splits sum.splits prod.splits)

text \<open>
  The three outcomes of enqueueing: nothing stored, the review item alone, or the review item and
  its audit event.
\<close>

lemma enqueue_cases:
  assumes "enqueue_supervisor_review E s w = (a, w')"
  shows "a = Inr () \<and> w_redis w' = w_redis w \<and>
    w_db w' \<in> {w_db w, with_review (e_db E) s (w_db w),
      with_event (e_db E) s (with_review (e_db E) s (w_db w))}"
proof -
  obtain b db1 where p: "persist_review (e_db E) s (w_db w) = (b, db1)" by fastforce
  from persist_review_cases [OF p] show ?thesis
  proof
    assume "(\<exists>e. b = Inl e) \<and> db1 = w_db w"
    with p assms show ?thesis by (auto simp: enqueue_eq catch_def bind_def on_db_def)
  next
    assume b: "b = Inr () \<and> db1 = with_review (e_db E) s (w_db w)"
    obtain c db2 where l: "log_audit_event (e_db E) (ws_ticket_id s) ''ai_draft_created'' AI_DRAFT_DESCRIPTION None
      (Some [(''matched_policy_rules'', JList (map JStr (get_or [] (ws_matched_policy_rules s))))]) db1 = (c, db2)"
      by fastforce
    from log_draft_cases [OF l] b p l assms show ?thesis
      by (auto simp: enqueue_eq catch_def bind_def on_db_def)
  qed
qed

text \<open>Conditions under which the review item reaches the queue: the engine does not fail, the ticket
  exists and the generated keys are fresh.\<close>

definition queue_ready :: "db_env \<Rightarrow> uuid \<Rightarrow> database \<Rightarrow> bool" where
  "queue_ready D ticket_id db \<longleftrightarrow> no_faults D \<and> ticket_id \<in> set (ticket_ids db)
     \<and> (\<forall>db'. d_new_id D db' \<notin> ap_id ` set (db_approvals db))
     \<and> (\<forall>db'. d_new_id D db' \<notin> al_id ` set (db_audit_logs db))"

lemma enqueue_ready:
  assumes "queue_ready (e_db E) (ws_ticket_id s) (w_db w)"
  shows "enqueue_supervisor_review E s w =
    (Inr (), w\<lparr>w_db := with_event (e_db E) s (with_review (e_db E) s (w_db w))\<rparr>)"
proof -
  let ?D = "e_db E" and ?db1 = "with_review (e_db E) s (w_db w)"
  have p: "persist_review ?D s (w_db w) = (Inr (), ?db1)"
    by (rule persist_review_ok) (use assms in \<open>simp_all add: queue_ready_def\<close>)
  have "log_audit_event ?D (ws_ticket_id s) ''ai_draft_created'' AI_DRAFT_DESCRIPTION None
      (Some [(''matched_policy_rules'', JList (map JStr (get_or [] (ws_matched_policy_rules s))))]) ?db1
      = (Inr (), with_event ?D s ?db1)"
    by (subst log_audit_appends)
       (use assms in \<open>simp_all add: queue_ready_def with_review_def id_lists fk_opt_def with_event_def draft_event_def\<close>)
  with p show ?thesis by (simp add: enqueue_eq catch_def bind_def on_db_def)
qed

lemma respond_kickoff_fails:
  assumes "clients_ok E" "\<And>task w'. \<exists>e. fst (e_kickoff E task w') = Inl e"
    and "respond E agent t w = (Inr r, w')"
  shows "r_unresolved r \<and> r_response r = FALLBACK_RESPONSE"
proof -
  obtain ctx w1 where ctx: "retrieve_context E agent t w = (Inr ctx, w1)"
    unfolding retrieve_context_def using catch_total by (metis ret_apply)
  obtain e w2 where k: "e_kickoff E (reply_task E agent t ctx) w1 = (Inl e, w2)"
    using assms(2) [of "reply_task E agent t ctx" w1] by (metis prod.collapse)
  have "respond E agent t w = (Inr (result_of_kickoff ctx (Inl e)), w2)"
    using assms(1) k unfolding respond_def bind_Inr [where m = "retrieve_context E agent t" and s = w, OF ctx] Let_def
    by (simp add: check_def clients_ok_def Let_def catch_def bind_def)
  with assms(3) show ?thesis by auto
qed

lemma persist_node_eq:
  assumes "ws_requires_human_review s = Some b"
    and "if b then enqueue_supervisor_review E s w = (Inr (), w') else w' = w"
  shows "then_node (persist_results_node E) ret s w = (Inr (s\<lparr>ws_workflow_status := Some WS_COMPLETED\<rparr>), w')"
  using assms by (cases b) (simp_all add: then_node_def persist_results_node_def get_or_def bind_def merge_update_def)

subsection \<open>A run of the workflow\<close>

text \<open>
  Everything a run does, in terms of the category, the agent result, and the three outcomes of the
  last node.
\<close>

lemma invoke_outcome:
  assumes R: "redis_laws (e_redis E)" and ok: "clients_ok E" and law: "kickoff_law E T"
  obtains c r wc wr wr' w' where
    "classify_ticket E (ws_ticket_text s) w = (Inr c, wc)"
    "respond E (agent_class_by_type (agent_by_category c)) (ws_ticket_text s) wr = (Inr r, wr')"
    "w_db wr = w_db w"
    "invoke E s w = (Inr ((evaluated_state s c r)\<lparr>ws_workflow_status := Some WS_COMPLETED\<rparr>), w')"
    "only_ns workflow_ns (e_redis E) (w_redis w) (w_redis w')"
    "if the (ws_requires_human_review (evaluated_state s c r))
     then w_db w' \<in> {w_db w, with_review (e_db E) (evaluated_state s c r) (w_db w),
        with_event (e_db E) (evaluated_state s c r) (with_review (e_db E) (evaluated_state s c r) (w_db w))}
     else w_db w' = w_db w"
    "the (ws_requires_human_review (evaluated_state s c r)) \<Longrightarrow> queue_ready (e_db E) (ws_ticket_id s) (w_db w) \<Longrightarrow>
      w_db w' = with_event (e_db E) (evaluated_state s c r) (with_review (e_db E) (evaluated_state s c r) (w_db w))"
proof -
  obtain c r wc wr wr' w1 where c: "classify_ticket E (ws_ticket_text s) w = (Inr c, wc)"
    and r: "respond E (agent_class_by_type (agent_by_category c)) (ws_ticket_text s) wr = (Inr r, wr')"
    and fr: "frame E w wr" and f1: "frame E w w1"
    and inv: "invoke E s w = then_node (persist_results_node E) ret (evaluated_state s c r) w1"
    using workflow_outcome [OF R ok law, of s w] .
  let ?s = "evaluated_state s c r"
  let ?b = "the (ws_requires_human_review ?s)"
  have b: "ws_requires_human_review ?s = Some ?b" by simp
  have db1: "w_db w1 = w_db w" and ns: "only_ns workflow_ns (e_redis E) (w_redis w) (w_redis w1)"
    using f1 by (simp_all add: frame_def world_rel_def)
  obtain a w' where enq: "(if ?b then enqueue_supervisor_review E ?s w1 else (Inr (), w1)) = (a, w')" by fastforce
  have cases: "a = Inr () \<and> w_redis w' = w_redis w1 \<and>
     (if ?b then w_db w' \<in> {w_db w1, with_review (e_db E) ?s (w_db w1),
        with_event (e_db E) ?s (with_review (e_db E) ?s (w_db w1))} else w_db w' = w_db w1)"
    using enq enqueue_cases [of E ?s w1 a w'] by (cases ?b) auto
  have ready: "w_db w' = with_event (e_db E) ?s (with_review (e_db E) ?s (w_db w))"
    if "?b" "queue_ready (e_db E) (ws_ticket_id s) (w_db w)"
    using enq that enqueue_ready [of E ?s w1] by (auto simp: db1)
  have "invoke E s w = (Inr (?s\<lparr>ws_workflow_status := Some WS_COMPLETED\<rparr>), w')"
    unfolding inv by (rule persist_node_eq [OF b]) (use enq cases in \<open>auto split: if_splits\<close>)
  moreover have "only_ns workflow_ns (e_redis E) (w_redis w) (w_redis w')" using ns cases by simp
  moreover have "if ?b then w_db w' \<in> {w_db w, with_review (e_db E) ?s (w_db w),
        with_event (e_db E) ?s (with_review (e_db E) ?s (w_db w))} else w_db w' = w_db w"
    using cases unfolding db1 by blast
  ultimately show thesis using c r frame_db [OF fr] ready by (intro that)
qed

subsection \<open>Properties\<close>

lemma agent_category: "CATEGORY (agent_class_by_type (agent_by_category c)) = ticket_category_value c"
  by (cases c) (simp_all add: billing_agent_def technical_agent_def account_agent_def general_agent_def)

lemma sample_queue_ready [simp]: "queue_ready sample_db_env 3 sample_db"
  by (simp add: queue_ready_def sample_db_def id_lists sample_rows)

text \<open>C6: a run of the workflow, end to end. With a Redis that keeps its laws and clients that can be
  constructed, \<open>invoke\<close> returns after the six nodes: the ticket has the category the classifier
  gave, its specialist (the one that searches the knowledge base of that category) was the one to
  respond, its reply and unresolved signal are the agent's, and the review decision and the matched
  rules are those of the policy on the ticket text and that signal.\<close>

theorem workflow_routes_and_decides:
  assumes "redis_laws (e_redis E)" and "clients_ok E" and "kickoff_law E T"
  shows "\<exists>s' w' c r p w1 w2 w3. invoke E s w = (Inr s', w')
    \<and> classify_ticket E (ws_ticket_text s) w = (Inr c, w1)
    \<and> respond E (agent_class_by_type (agent_by_category c)) (ws_ticket_text s) w2 = (Inr r, w3)
    \<and> w_db w2 = w_db w
    \<and> CATEGORY (agent_class_by_type (agent_by_category c)) = ticket_category_value c
    \<and> evaluate_policy (ws_ticket_text s) PLACEHOLDER_CONFIDENCE_SCORE (r_unresolved r) = Inr p
    \<and> s' = s\<lparr>ws_category := Some c, ws_selected_agent := Some (agent_by_category c),
        ws_retrieved_context := Some (r_retrieved_context r), ws_draft_response := Some (r_response r),
        ws_agent_unresolved := Some (r_unresolved r),
        ws_confidence_score := Some PLACEHOLDER_CONFIDENCE_SCORE,
        ws_requires_human_review := Some (requires_human_review p),
        ws_matched_policy_rules := Some (matched_rules p),
        ws_workflow_status := Some WS_COMPLETED\<rparr>"
proof -
  obtain c r wc wr wr' w' where
    c: "classify_ticket E (ws_ticket_text s) w = (Inr c, wc)"
    and r: "respond E (agent_class_by_type (agent_by_category c)) (ws_ticket_text s) wr = (Inr r, wr')"
    and db: "w_db wr = w_db w"
    and inv: "invoke E s w = (Inr ((evaluated_state s c r)\<lparr>ws_workflow_status := Some WS_COMPLETED\<rparr>), w')"
    using invoke_outcome [OF assms, of s w] .
  let ?p = "policy_of (ws_ticket_text s) PLACEHOLDER_CONFIDENCE_SCORE (r_unresolved r)"
  show ?thesis
    by (intro exI [of _ "(evaluated_state s c r)\<lparr>ws_workflow_status := Some WS_COMPLETED\<rparr>"] exI [of _ w'] exI [of _ c]
          exI [of _ r] exI [of _ ?p] exI [of _ wc] exI [of _ wr] exI [of _ wr'] conjI inv c r db agent_category
          evaluate_policy_eq)
       (simp add: evaluated_state_def Let_def)
qed

theorem workflow_routes_and_decides_witness:
  "\<exists>s' w' c r p w1 w2 w3.
    invoke (sample_env ''technical'' (Inr (OtherOutput ''hm''))) (sample_state ''crash'') (sample_world True) = (Inr s', w')
    \<and> classify_ticket (sample_env ''technical'' (Inr (OtherOutput ''hm''))) (ws_ticket_text (sample_state ''crash''))
        (sample_world True) = (Inr c, w1)
    \<and> respond (sample_env ''technical'' (Inr (OtherOutput ''hm''))) (agent_class_by_type (agent_by_category c))
        (ws_ticket_text (sample_state ''crash'')) w2 = (Inr r, w3)
    \<and> w_db w2 = w_db (sample_world True)
    \<and> CATEGORY (agent_class_by_type (agent_by_category c)) = ticket_category_value c
    \<and> evaluate_policy (ws_ticket_text (sample_state ''crash'')) PLACEHOLDER_CONFIDENCE_SCORE (r_unresolved r) = Inr p
    \<and> s' = (sample_state ''crash'')\<lparr>ws_category := Some c, ws_selected_agent := Some (agent_by_category c),
        ws_retrieved_context := Some (r_retrieved_context r), ws_draft_response := Some (r_response r),
        ws_agent_unresolved := Some (r_unresolved r),
        ws_confidence_score := Some PLACEHOLDER_CONFIDENCE_SCORE,
        ws_requires_human_review := Some (requires_human_review p),
        ws_matched_policy_rules := Some (matched_rules p),
        ws_workflow_status := Some WS_COMPLETED\<rparr>"
  by (rule workflow_routes_and_decides [where T = UNIV]) simp_all

text \<open>What puts a ticket under human review. In a run, review is required exactly when the text
  contains an escalation keyword or the word refund in any letter case, or the agent reported the
  ticket unresolved; the rule \<open>low_confidence\<close> never fires, because the score is the constant 1.\<close>

lemma workflow_review_iff:
  assumes "redis_laws (e_redis E)" and "clients_ok E" and "kickoff_law E T"
  shows "\<exists>s' w' u rs. invoke E s w = (Inr s', w') \<and> ws_agent_unresolved s' = Some u
    \<and> ws_requires_human_review s' =
        Some ((\<exists>k \<in> set ESCALATION_KEYWORDS. contains k (py_lower (ws_ticket_text s)))
              \<or> contains REFUND_KEYWORD (py_lower (ws_ticket_text s)) \<or> u)
    \<and> ws_matched_policy_rules s' = Some rs \<and> ''low_confidence'' \<notin> set rs"
proof -
  obtain c r wc wr wr' w' where
    inv: "invoke E s w = (Inr ((evaluated_state s c r)\<lparr>ws_workflow_status := Some WS_COMPLETED\<rparr>), w')"
    using invoke_outcome [OF assms, of s w] by metis
  have conf: "\<not> float_less PLACEHOLDER_CONFIDENCE_SCORE LOW_CONFIDENCE_THRESHOLD"
    unfolding PLACEHOLDER_CONFIDENCE_SCORE_def LOW_CONFIDENCE_THRESHOLD_def by code_simp
  then have "''low_confidence'' \<notin> set (matched_rules (policy_of t PLACEHOLDER_CONFIDENCE_SCORE u))" for t u
    by (simp add: policy_of_def Let_def rule_fires_def)
  with inv conf show ?thesis
    by (intro exI [of _ "(evaluated_state s c r)\<lparr>ws_workflow_status := Some WS_COMPLETED\<rparr>"] exI [of _ w']) (simp add: requires_review_iff)
qed

text \<open>C5: the review queue after a run. When the clients can be constructed (\<open>clients_ok\<close>), the database
  works with fresh keys and the ticket of the run has its row (\<open>queue_ready\<close>), a run adds exactly one pending approval request with
  the agent's draft, its context, the matched rules and no decision, and one audit event, if the
  policy requires review, and changes no table otherwise.\<close>

theorem workflow_fills_review_queue:
  assumes "redis_laws (e_redis E)" and "clients_ok E" and "kickoff_law E T"
    and "queue_ready (e_db E) (ws_ticket_id s) (w_db w)"
  shows "\<exists>s' w'. invoke E s w = (Inr s', w')
    \<and> (if ws_requires_human_review s' = Some True
       then \<exists>a l. w_db w' = (w_db w)\<lparr>db_approvals := db_approvals (w_db w) @ [a], db_audit_logs := db_audit_logs (w_db w) @ [l]\<rparr>
          \<and> ap_status a = AS_PENDING \<and> ap_ticket_id a = ws_ticket_id s \<and> ap_approved_by a = None \<and> ap_decided_at a = None
          \<and> Some (ap_draft_response a) = ws_draft_response s' \<and> ap_retrieved_context a = ws_retrieved_context s'
          \<and> Some (ap_matched_policy_rules a) = ws_matched_policy_rules s'
          \<and> al_ticket_id l = ws_ticket_id s \<and> al_event_type l = ''ai_draft_created''
       else w_db w' = w_db w)"
proof -
  obtain c r wc wr wr' w' where
    inv: "invoke E s w = (Inr ((evaluated_state s c r)\<lparr>ws_workflow_status := Some WS_COMPLETED\<rparr>), w')"
    and db: "if the (ws_requires_human_review (evaluated_state s c r))
     then w_db w' \<in> {w_db w, with_review (e_db E) (evaluated_state s c r) (w_db w),
        with_event (e_db E) (evaluated_state s c r) (with_review (e_db E) (evaluated_state s c r) (w_db w))}
     else w_db w' = w_db w"
    and ready: "the (ws_requires_human_review (evaluated_state s c r)) \<Longrightarrow> queue_ready (e_db E) (ws_ticket_id s) (w_db w) \<Longrightarrow>
      w_db w' = with_event (e_db E) (evaluated_state s c r) (with_review (e_db E) (evaluated_state s c r) (w_db w))"
    using invoke_outcome [OF assms(1-3), of s w] by metis
  let ?s = "evaluated_state s c r"
  show ?thesis
  proof (cases "the (ws_requires_human_review ?s)")
    case True
    let ?a = "review_row (e_db E) (w_db w) ?s"
    let ?l = "draft_event (e_db E) (with_review (e_db E) ?s (w_db w)) ?s"
    have "w_db w' = (w_db w)\<lparr>db_approvals := db_approvals (w_db w) @ [?a], db_audit_logs := db_audit_logs (w_db w) @ [?l]\<rparr>"
      using ready [OF True assms(4)] by (simp add: with_event_def with_review_def)
    moreover have "ap_status ?a = AS_PENDING" "ap_ticket_id ?a = ws_ticket_id s" "ap_approved_by ?a = None"
      "ap_decided_at ?a = None" "Some (ap_draft_response ?a) = ws_draft_response ?s"
      "ap_retrieved_context ?a = ws_retrieved_context ?s"
      "Some (ap_matched_policy_rules ?a) = ws_matched_policy_rules ?s"
      "al_ticket_id ?l = ws_ticket_id s" "al_event_type ?l = ''ai_draft_created''"
      by (simp_all add: review_row_def draft_event_def get_or_def)
    ultimately show ?thesis using True
      by (intro exI [of _ "?s\<lparr>ws_workflow_status := Some WS_COMPLETED\<rparr>"] exI [of _ w'])
         (simp add: inv, blast)
  next
    case False
    with db show ?thesis
      by (intro exI [of _ "?s\<lparr>ws_workflow_status := Some WS_COMPLETED\<rparr>"] exI [of _ w']) (simp add: inv)
  qed
qed

theorem workflow_fills_review_queue_witness:
  "\<exists>s' w'. invoke (sample_env ''billing'' (Inr (OtherOutput ''ok''))) (sample_state ''a refund'') (sample_world True) = (Inr s', w')
    \<and> (if ws_requires_human_review s' = Some True
       then \<exists>a l. w_db w' = (w_db (sample_world True))\<lparr>db_approvals := db_approvals (w_db (sample_world True)) @ [a],
              db_audit_logs := db_audit_logs (w_db (sample_world True)) @ [l]\<rparr>
          \<and> ap_status a = AS_PENDING \<and> ap_ticket_id a = ws_ticket_id (sample_state ''a refund'')
          \<and> ap_approved_by a = None \<and> ap_decided_at a = None
          \<and> Some (ap_draft_response a) = ws_draft_response s' \<and> ap_retrieved_context a = ws_retrieved_context s'
          \<and> Some (ap_matched_policy_rules a) = ws_matched_policy_rules s'
          \<and> al_ticket_id l = ws_ticket_id (sample_state ''a refund'') \<and> al_event_type l = ''ai_draft_created''
       else w_db w' = w_db (sample_world True))"
  by (rule workflow_fills_review_queue [where T = UNIV]) simp_all

text \<open>
  \<open>reaches_last E s w r w'\<close>: a run from \<open>s\<close> and \<open>w\<close> raises before the last node, with the tables as they
  were, or it reaches the last node with the same tables and the same ticket.
\<close>

definition reaches_last :: "'r env \<Rightarrow> workflow_state \<Rightarrow> 'r world \<Rightarrow> exc + workflow_state \<Rightarrow> 'r world \<Rightarrow> bool" where
  "reaches_last E s w r w' \<longleftrightarrow> (\<exists>e. r = Inl e) \<and> w_db w' = w_db w
     \<or> (\<exists>s5 w5. ws_ticket_id s5 = ws_ticket_id s \<and> w_db w5 = w_db w
          \<and> then_node (persist_results_node E) ret s5 w5 = (r, w'))"

lemma then_node_reaches:
  assumes "then_node node k s w = (r, w')" and "steps (frame E) (node s)"
    and "\<And>r w'. node s w = (r, w') \<Longrightarrow> node_answer E name s r"
    and "\<And>s1 w1. k s1 w1 = (r, w') \<Longrightarrow> reaches_last E s1 w1 r w'"
  shows "reaches_last E s w r w'"
  using assms(1)
proof (cases rule: then_node_cases)
  case (1 e)
  with frame_db [OF stepsD [OF assms(2) 1(1)]] show ?thesis by (simp add: reaches_last_def)
next
  case (2 u w1)
  have "ws_ticket_id (merge_update u s) = ws_ticket_id s"
    using assms(3) [OF 2(1)] by (simp add: node_answer_def required_part_def)
  with frame_db [OF stepsD [OF assms(2) 2(1)]] assms(4) [OF 2(2)] show ?thesis by (simp add: reaches_last_def)
qed

lemma invoke_reaches:
  assumes R: "redis_laws (e_redis E)" and law: "kickoff_law E T" and "invoke E s w = (r, w')"
  shows "reaches_last E s w r w'"
proof -
  have load: "steps (frame E) (load_ticket_node s)" for s unfolding load_ticket_node_def by (simp add: steps_ret)
  have last: "reaches_last E s w r w'" if "then_node (persist_results_node E) ret s w = (r, w')" for s w
    using that by (auto simp: reaches_last_def)
  note step = then_node_reaches [where E = E]
  show ?thesis
    using assms(3) unfolding invoke_eq
    by (rule step [OF _ load load_answer step [OF _ steps_classify_node [OF R] classify_answer [OF R]
          step [OF _ steps_select_node [OF R] select_answer step [OF _ steps_execute_node [OF R law] execute_answer
            step [OF _ steps_confidence_node [OF R] confidence_answer last]]]]])
qed

text \<open>The last node never raises, and stores the review item whole or not at all.\<close>

lemma last_node_cases:
  assumes "then_node (persist_results_node E) ret s w = (r, w')"
  shows "\<exists>s'. r = Inr s' \<and> ws_requires_human_review s' = ws_requires_human_review s
    \<and> (w_db w' = w_db w \<or> ws_requires_human_review s = Some True
        \<and> w_db w' \<in> {with_review (e_db E) s (w_db w), with_event (e_db E) s (with_review (e_db E) s (w_db w))})"
proof (cases "get_or False (ws_requires_human_review s)")
  case True
  then have review: "ws_requires_human_review s = Some True"
    by (cases "ws_requires_human_review s") (simp_all add: get_or_def)
  obtain a w1 where enq: "enqueue_supervisor_review E s w = (a, w1)" by fastforce
  from enqueue_cases [OF enq] enq review assms show ?thesis
    by (auto simp: then_node_def persist_results_node_def bind_def get_or_def merge_update_def)
next
  case False
  with assms show ?thesis
    by (auto simp: then_node_def persist_results_node_def bind_def merge_update_def)
qed

lemma enqueue_without_ticket:
  assumes "ws_ticket_id s \<notin> set (ticket_ids (w_db w))"
  shows "w_db (snd (enqueue_supervisor_review E s w)) = w_db w"
proof -
  have "\<exists>e. insert_approval (review_row D db s) db = Inl e" if "db = w_db w" for D db
    using assms that by (simp add: insert_approval_def approval_fk_def review_row_def)
  then obtain e where "insert_approval (review_row (e_db E) (w_db w) s) (w_db w) = Inl e" by blast
  then obtain e' where "persist_review (e_db E) s (w_db w) = (Inl e', w_db w)"
    by (cases "d_fault (e_db E) DbFlush (w_db w)")
       (auto simp: persist_review_def with_session_def bind_def create_pending_eq db_flush_def)
  then show ?thesis by (simp add: enqueue_eq catch_def bind_def on_db_def)
qed

text \<open>C9: no half-written review, whatever fails. A run that raises leaves every table as it was (this is a
  client that cannot be constructed; with the clients constructed a run always returns). A run that
  returns either leaves the tables as they were, or adds the pending approval request alone, or adds
  it together with its audit event, and adds something only if review is required and the ticket of
  the run has its row: never an audit event without the request, never a change to an earlier row.\<close>

theorem workflow_review_is_atomic:
  assumes "redis_laws (e_redis E)" and "kickoff_law E T" and "invoke E s w = (r, w')"
  shows "(case r of
        Inl e \<Rightarrow> w_db w' = w_db w
      | Inr s' \<Rightarrow> w_db w' = w_db w
         \<or> ws_requires_human_review s' = Some True \<and> ws_ticket_id s \<in> set (ticket_ids (w_db w))
           \<and> (\<exists>a. ap_status a = AS_PENDING \<and> ap_ticket_id a = ws_ticket_id s
               \<and> (w_db w' = (w_db w)\<lparr>db_approvals := db_approvals (w_db w) @ [a]\<rparr>
                  \<or> (\<exists>l. al_ticket_id l = ws_ticket_id s
                        \<and> w_db w' = (w_db w)\<lparr>db_approvals := db_approvals (w_db w) @ [a],
                                               db_audit_logs := db_audit_logs (w_db w) @ [l]\<rparr>))))
    \<and> (clients_ok E \<longrightarrow> (\<exists>s'. r = Inr s'))"
proof
  show "clients_ok E \<longrightarrow> (\<exists>s'. r = Inr s')" using invoke_returns [OF assms(1), of s w] assms(3) by auto
  from invoke_reaches [OF assms] consider (raised) e where "r = Inl e" "w_db w' = w_db w"
    | (last) s5 w5 where "ws_ticket_id s5 = ws_ticket_id s" "w_db w5 = w_db w"
        "then_node (persist_results_node E) ret s5 w5 = (r, w')"
    unfolding reaches_last_def by blast
  then show "case r of Inl e \<Rightarrow> w_db w' = w_db w
      | Inr s' \<Rightarrow> w_db w' = w_db w
         \<or> ws_requires_human_review s' = Some True \<and> ws_ticket_id s \<in> set (ticket_ids (w_db w))
           \<and> (\<exists>a. ap_status a = AS_PENDING \<and> ap_ticket_id a = ws_ticket_id s
               \<and> (w_db w' = (w_db w)\<lparr>db_approvals := db_approvals (w_db w) @ [a]\<rparr>
                  \<or> (\<exists>l. al_ticket_id l = ws_ticket_id s
                        \<and> w_db w' = (w_db w)\<lparr>db_approvals := db_approvals (w_db w) @ [a],
                                               db_audit_logs := db_audit_logs (w_db w) @ [l]\<rparr>)))"
  proof cases
    case raised
    then show ?thesis by simp
  next
    case last
    from last_node_cases [OF last(3)] obtain s' where r: "r = Inr s'"
      and review: "ws_requires_human_review s' = ws_requires_human_review s5"
      and db: "w_db w' = w_db w \<or> ws_requires_human_review s5 = Some True
        \<and> w_db w' \<in> {with_review (e_db E) s5 (w_db w), with_event (e_db E) s5 (with_review (e_db E) s5 (w_db w))}"
      unfolding last(2) by blast
    have row: "ws_ticket_id s \<in> set (ticket_ids (w_db w))" if "w_db w' \<noteq> w_db w"
    proof (rule ccontr)
      assume "ws_ticket_id s \<notin> set (ticket_ids (w_db w))"
      then have "w_db (snd (enqueue_supervisor_review E s5 w5)) = w_db w"
        using enqueue_without_ticket [of s5 w5 E] last(1,2) by simp
      then have "w_db w' = w_db w" using last(2,3)
        by (auto simp: then_node_def persist_results_node_def bind_def split: if_splits prod.splits sum.splits)
      with that show False by contradiction
    qed
    let ?a = "review_row (e_db E) (w_db w) s5" and ?l = "draft_event (e_db E) (with_review (e_db E) s5 (w_db w)) s5"
    have rows: "ap_status ?a = AS_PENDING" "ap_ticket_id ?a = ws_ticket_id s" "al_ticket_id ?l = ws_ticket_id s"
      by (simp_all add: review_row_def draft_event_def last(1))
    show ?thesis
    proof (cases "w_db w' = w_db w")
      case False
      with db have "w_db w' = (w_db w)\<lparr>db_approvals := db_approvals (w_db w) @ [?a]\<rparr>
        \<or> w_db w' = (w_db w)\<lparr>db_approvals := db_approvals (w_db w) @ [?a], db_audit_logs := db_audit_logs (w_db w) @ [?l]\<rparr>"
        by (simp add: with_review_def with_event_def)
      moreover have "ws_requires_human_review s' = Some True" using db False review by simp
      ultimately show ?thesis using row [OF False] rows unfolding r sum.case by blast
    qed (simp add: r)
  qed
qed

text \<open>A run for a ticket that is not in the table, as of the script with fresh ids: it completes, and stores nothing.\<close>

theorem workflow_review_is_atomic_witness:
  "\<exists>s' w'. invoke (sample_env ''general'' (Inr (OtherOutput ''ok''))) ((sample_state ''a refund'')\<lparr>ws_ticket_id := 9\<rparr>)
      (sample_world False) = (Inr s', w') \<and> w_db w' = sample_db"
proof -
  let ?E = "sample_env ''general'' (Inr (OtherOutput ''ok''))" and ?s = "(sample_state ''a refund'')\<lparr>ws_ticket_id := 9\<rparr>"
  obtain r w' where run: "invoke ?E ?s (sample_world False) = (r, w')" by fastforce
  have laws: "redis_laws (e_redis ?E)" by simp
  note T = workflow_review_is_atomic [OF laws base_kickoff_law run, THEN conjunct2, rule_format, OF base_clients_ok]
    workflow_review_is_atomic [OF laws base_kickoff_law run, THEN conjunct1]
  have "9 \<notin> set (ticket_ids sample_db)" by (simp add: sample_db_def id_lists sample_rows)
  moreover from T(1) obtain s' where "r = Inr s'" ..
  ultimately show ?thesis using T(2) run by auto
qed

text \<open>C11: a failed generation is escalated. If the crew run of every specialist raises, a run of which the clients
  can be constructed still completes, the draft is the fallback reply, the rule \<open>agent_unresolved\<close> is
  among the matched rules and review is required. And it reaches the supervisors: if the database works
  and the ticket has its row (\<open>queue_ready\<close>), the run adds a pending approval request for the ticket with
  that draft and that rule. (Enqueueing is best-effort: a failing database loses the request.)\<close>

theorem failed_generation_escalates:
  assumes "redis_laws (e_redis E)" and "clients_ok E" and "kickoff_law E T"
    and "\<And>task w'. \<exists>e. fst (e_kickoff E task w') = Inl e"
  shows "\<exists>s' w' rs. invoke E s w = (Inr s', w') \<and> ws_draft_response s' = Some FALLBACK_RESPONSE
    \<and> ws_requires_human_review s' = Some True
    \<and> ws_matched_policy_rules s' = Some rs \<and> ''agent_unresolved'' \<in> set rs
    \<and> (queue_ready (e_db E) (ws_ticket_id s) (w_db w) \<longrightarrow>
        (\<exists>a. db_approvals (w_db w') = db_approvals (w_db w) @ [a] \<and> ap_status a = AS_PENDING
           \<and> ap_ticket_id a = ws_ticket_id s \<and> ap_draft_response a = FALLBACK_RESPONSE \<and> ap_matched_policy_rules a = rs))"
proof -
  obtain c r wc wr wr' w' where
    r: "respond E (agent_class_by_type (agent_by_category c)) (ws_ticket_text s) wr = (Inr r, wr')"
    and inv: "invoke E s w = (Inr ((evaluated_state s c r)\<lparr>ws_workflow_status := Some WS_COMPLETED\<rparr>), w')"
    and queue: "the (ws_requires_human_review (evaluated_state s c r)) \<Longrightarrow> queue_ready (e_db E) (ws_ticket_id s) (w_db w) \<Longrightarrow>
      w_db w' = with_event (e_db E) (evaluated_state s c r) (with_review (e_db E) (evaluated_state s c r) (w_db w))"
    using invoke_outcome [OF assms(1-3), of s w] by metis
  let ?s = "evaluated_state s c r"
  have u: "r_unresolved r" and d: "r_response r = FALLBACK_RESPONSE"
    using respond_kickoff_fails [OF assms(2,4) r] by simp_all
  have rule: "''agent_unresolved'' \<in> set (matched_rules (policy_of t cf True))" for t cf
    by (simp add: policy_of_def Let_def ALL_RULES_def rule_fires_def REFUND_KEYWORD_def)
  have review: "the (ws_requires_human_review ?s)" using u by (simp add: requires_review_iff)
  have "db_approvals (w_db w') = db_approvals (w_db w) @ [review_row (e_db E) (w_db w) ?s]"
    if "queue_ready (e_db E) (ws_ticket_id s) (w_db w)"
    using queue [OF review that] by (simp add: with_event_def with_review_def)
  moreover have "ap_status (review_row D db ?s) = AS_PENDING" "ap_ticket_id (review_row D db ?s) = ws_ticket_id s"
    "ap_draft_response (review_row D db ?s) = FALLBACK_RESPONSE"
    "Some (ap_matched_policy_rules (review_row D db ?s)) = ws_matched_policy_rules ?s" for D db
    using d by (simp_all add: review_row_def get_or_def)
  ultimately show ?thesis using inv u d rule review
    by (intro exI [of _ "?s\<lparr>ws_workflow_status := Some WS_COMPLETED\<rparr>"] exI [of _ w']) auto
qed

theorem failed_generation_escalates_witness:
  "\<exists>s' w' a. invoke (sample_env ''account'' (Inl (OtherExc ''no key''))) (sample_state ''hello'') (sample_world True) = (Inr s', w')
    \<and> ws_draft_response s' = Some FALLBACK_RESPONSE \<and> ws_requires_human_review s' = Some True
    \<and> db_approvals (w_db w') = [a] \<and> ap_status a = AS_PENDING \<and> ap_ticket_id a = 3
    \<and> ap_draft_response a = FALLBACK_RESPONSE \<and> ''agent_unresolved'' \<in> set (ap_matched_policy_rules a)"
proof -
  let ?E = "sample_env ''account'' (Inl (OtherExc ''no key''))"
  have "redis_laws (e_redis ?E)" "\<And>task w'. \<exists>e. fst (e_kickoff ?E task w') = Inl e" by simp_all
  from failed_generation_escalates [OF this(1) base_clients_ok base_kickoff_law this(2),
      where s = "sample_state ''hello''" and w = "sample_world True"]
  moreover have "db_approvals sample_db = []" by (simp add: sample_db_def)
  ultimately show ?thesis by auto
qed

end
