(* ===== verification/Idempotency.thy ===== *)
theory Idempotency
  imports Cache
begin

section \<open>The idempotency store\<close>

text \<open>
  \<^verbatim>\<open>backend/services/idempotency.py\<close>. A key of the store is free, claimed by a request that is
  still executing, or holds the response of a completed one (\<open>slot\<close>). The store fails closed:
  a Redis error in a claim or a completion is raised as \<open>IdempotencyBackendUnavailable\<close>.
  The locale \<open>once_store\<close> is the contract towards its client (\<^verbatim>\<open>services/ticket.py\<close>); it is
  interpreted on the code's three operations.
\<close>

definition IDEMPOTENCY_KEY_PREFIX :: string where "IDEMPOTENCY_KEY_PREFIX = ''idempotency''"

definition IN_PROGRESS_SENTINEL :: json where
  "IN_PROGRESS_SENTINEL = JObj [(''status'', JStr ''in_progress'')]"

definition idem_key :: "string \<Rightarrow> string" where
  "idem_key k = IDEMPOTENCY_KEY_PREFIX @ '':'' @ k"

text \<open>
  \<open>claim_or_get_existing\<close>: \<open>None\<close> when this call claimed the key. A stored JSON \<open>null\<close> is returned
  as \<open>None\<close> too.
\<close>

definition claim_or_get_existing :: "'r redis_client \<Rightarrow> int \<Rightarrow> string \<Rightarrow> (json option, 'r) comp" where
  "claim_or_get_existing R ttl k r =
     (case rc_set_nx R (idem_key k) (json_dumps IN_PROGRESS_SENTINEL) ttl r of
        (Inl (RedisError m), r1) \<Rightarrow> (Inl (IdempotencyBackendUnavailable m), r1)
      | (Inl e, r1) \<Rightarrow> (Inl e, r1)
      | (Inr True, r1) \<Rightarrow> (Inr None, r1)
      | (Inr False, r1) \<Rightarrow>
          (case rc_get R (idem_key k) r1 of
             (Inl (RedisError m), r2) \<Rightarrow> (Inl (IdempotencyBackendUnavailable m), r2)
           | (Inl e, r2) \<Rightarrow> (Inl e, r2)
           | (Inr None, r2) \<Rightarrow> (Inr (Some IN_PROGRESS_SENTINEL), r2)
           | (Inr (Some raw), r2) \<Rightarrow>
               (case json_loads raw of
                  Inl _ \<Rightarrow> (Inr (Some IN_PROGRESS_SENTINEL), r2)
                | Inr JNull \<Rightarrow> (Inr None, r2)
                | Inr v \<Rightarrow> (Inr (Some v), r2))))"

definition idem_complete :: "'r redis_client \<Rightarrow> int \<Rightarrow> string \<Rightarrow> json \<Rightarrow> (unit, 'r) comp" where
  "idem_complete R ttl k response r =
     (case rc_set R (idem_key k) (json_dumps response) ttl r of
        (Inl (RedisError m), r') \<Rightarrow> (Inl (IdempotencyBackendUnavailable m), r')
      | (Inl e, r') \<Rightarrow> (Inl e, r')
      | (Inr _, r') \<Rightarrow> (Inr (), r'))"

definition idem_release :: "'r redis_client \<Rightarrow> string \<Rightarrow> (unit, 'r) comp" where
  "idem_release R k r =
     (case rc_delete R (idem_key k) r of
        (Inl (RedisError m), r') \<Rightarrow> (Inr (), r')
      | (Inl e, r') \<Rightarrow> (Inl e, r')
      | (Inr _, r') \<Rightarrow> (Inr (), r'))"

subsection \<open>The contract\<close>

datatype 'v slot = Free | Busy | Done 'v

text \<open>
  \<open>slot_of s k\<close> is the slot of a key. A claim that wins makes the slot busy; one that loses found
  it taken, and reports a stored response only if it is there; completing stores the response;
  releasing never leaves the slot more taken than before. \<open>frees\<close> allows slots to expire.
\<close>

definition frees :: "('k \<Rightarrow> 'v slot) \<Rightarrow> ('k \<Rightarrow> 'v slot) \<Rightarrow> bool" where
  "frees a b \<longleftrightarrow> (\<forall>k. b k = Free \<or> b k = a k)"

locale once_store =
  fixes claim :: "'k \<Rightarrow> ('v option, 's) comp"
    and complete :: "'k \<Rightarrow> 'v \<Rightarrow> (unit, 's) comp"
    and release :: "'k \<Rightarrow> (unit, 's) comp"
    and slot_of :: "'s \<Rightarrow> 'k \<Rightarrow> 'v slot"
    and pending :: 'v
    and storable :: "'v \<Rightarrow> bool"
    and ok :: "'s \<Rightarrow> bool"
    and lawful :: bool
  assumes claim_won: "lawful \<Longrightarrow> ok s \<Longrightarrow> claim k s = (Inr None, s') \<Longrightarrow>
      slot_of s' k = Busy \<and> frees ((slot_of s)(k := Busy)) (slot_of s') \<and> ok s'"
    and claim_lost: "lawful \<Longrightarrow> ok s \<Longrightarrow> claim k s = (Inr (Some v), s') \<Longrightarrow>
      (v = pending \<or> slot_of s k = Done v) \<and> slot_of s k \<noteq> Free \<and> frees (slot_of s) (slot_of s') \<and> ok s'"
    and claim_failed: "lawful \<Longrightarrow> ok s \<Longrightarrow> claim k s = (Inl e, s') \<Longrightarrow>
      (\<exists>m. e = IdempotencyBackendUnavailable m) \<and> ok s' \<and>
      (frees (slot_of s) (slot_of s') \<or> frees ((slot_of s)(k := Busy)) (slot_of s'))"
    and complete_done: "lawful \<Longrightarrow> ok s \<Longrightarrow> storable v \<Longrightarrow> complete k v s = (Inr (), s') \<Longrightarrow>
      slot_of s' k = Done v \<and> frees ((slot_of s)(k := Done v)) (slot_of s') \<and> ok s'"
    and complete_failed: "lawful \<Longrightarrow> ok s \<Longrightarrow> storable v \<Longrightarrow> complete k v s = (Inl e, s') \<Longrightarrow>
      (\<exists>m. e = IdempotencyBackendUnavailable m) \<and> ok s' \<and>
      (frees (slot_of s) (slot_of s') \<or> frees ((slot_of s)(k := Done v)) (slot_of s'))"
    and release_done: "lawful \<Longrightarrow> ok s \<Longrightarrow> release k s = (a, s') \<Longrightarrow>
      a = Inr () \<and> frees (slot_of s) (slot_of s') \<and> ok s'"
begin

text \<open>A loser never executes, and never reports a response that was not stored.\<close>

lemma lost_or_done:
  "lawful \<Longrightarrow> ok s \<Longrightarrow> claim k s = (Inr (Some v), s') \<Longrightarrow> v \<noteq> pending \<Longrightarrow> slot_of s k = Done v"
  using claim_lost by blast

lemma busy_blocks:
  "lawful \<Longrightarrow> ok s \<Longrightarrow> slot_of s k = Busy \<Longrightarrow> claim k s = (Inr (Some v), s') \<Longrightarrow> v = pending"
  using claim_lost by fastforce

lemma claim_total:
  assumes lawful "ok s"
  obtains s' where "claim k s = (Inr None, s')" | v s' where "claim k s = (Inr (Some v), s')"
    | m s' where "claim k s = (Inl (IdempotencyBackendUnavailable m), s')"
proof (cases "claim k s")
  case (Pair a s')
  show thesis
  proof (cases a)
    case (Inl e)
    with claim_failed [OF assms] Pair that(3) show ?thesis by blast
  next
    case (Inr x)
    with Pair that(1,2) show ?thesis by (cases x) auto
  qed
qed

end

subsection \<open>The code's store\<close>

text \<open>
  The slot of a key of the Redis state. \<open>idem_ok\<close>: every record of the namespace was written by this
  store: it parses, and to something other than \<open>null\<close>.
\<close>

definition slot_of_raw :: "string option \<Rightarrow> json slot" where
  "slot_of_raw raw =
     (case raw of None \<Rightarrow> Free
      | Some s \<Rightarrow> (case json_loads s of
          Inl _ \<Rightarrow> Busy
        | Inr v \<Rightarrow> if v = IN_PROGRESS_SENTINEL then Busy else Done v))"

definition idem_slot :: "'r redis_client \<Rightarrow> 'r \<Rightarrow> string \<Rightarrow> json slot" where
  "idem_slot R r k = slot_of_raw (rc_view R r (idem_key k))"

definition idem_ok :: "'r redis_client \<Rightarrow> 'r \<Rightarrow> bool" where
  "idem_ok R r \<longleftrightarrow> (\<forall>k raw. rc_view R r (idem_key k) = Some raw \<longrightarrow> (\<exists>v. json_loads raw = Inr v \<and> v \<noteq> JNull))"

definition idem_storable :: "json \<Rightarrow> bool" where
  "idem_storable v \<longleftrightarrow> wf_json v \<and> v \<noteq> IN_PROGRESS_SENTINEL \<and> v \<noteq> JNull"

lemma idem_key_inj [simp]: "idem_key a = idem_key b \<longleftrightarrow> a = b"
  by (simp add: idem_key_def)

lemma idem_key_ns [simp]: "in_ns IDEMPOTENCY_KEY_PREFIX (idem_key k)"
  unfolding idem_key_def by (rule in_ns_key)

lemma wf_sentinel [simp]: "wf_json IN_PROGRESS_SENTINEL"
  by (simp add: IN_PROGRESS_SENTINEL_def)

lemma sentinel_not_null [simp]: "IN_PROGRESS_SENTINEL \<noteq> JNull"
  by (simp add: IN_PROGRESS_SENTINEL_def)

lemma idem_slot_le:
  assumes "rc_view R r' \<subseteq>\<^sub>m rc_view R r"
  shows "frees (idem_slot R r) (idem_slot R r')"
  unfolding frees_def
proof
  fix k
  show "idem_slot R r' k = Free \<or> idem_slot R r' k = idem_slot R r k"
  proof (cases "rc_view R r' (idem_key k)")
    case None
    then show ?thesis by (simp add: idem_slot_def slot_of_raw_def)
  next
    case (Some raw)
    with map_le_SomeD [OF assms Some] show ?thesis by (simp add: idem_slot_def)
  qed
qed

lemma idem_slot_upd:
  assumes "rc_view R r' \<subseteq>\<^sub>m (rc_view R r)(idem_key k \<mapsto> raw)"
  shows "frees ((idem_slot R r)(k := slot_of_raw (Some raw))) (idem_slot R r')"
  unfolding frees_def
proof
  fix x
  show "idem_slot R r' x = Free \<or> idem_slot R r' x = ((idem_slot R r)(k := slot_of_raw (Some raw))) x"
  proof (cases "rc_view R r' (idem_key x)")
    case None
    then show ?thesis by (simp add: idem_slot_def slot_of_raw_def)
  next
    case (Some s)
    then have "((rc_view R r)(idem_key k \<mapsto> raw)) (idem_key x) = Some s"
      by (rule map_le_SomeD [OF assms])
    with Some show ?thesis by (cases "x = k") (simp_all add: idem_slot_def)
  qed
qed

lemma idem_ok_le:
  assumes "idem_ok R r" "rc_view R r' \<subseteq>\<^sub>m rc_view R r"
  shows "idem_ok R r'"
  unfolding idem_ok_def
proof (intro allI impI)
  fix k raw
  assume "rc_view R r' (idem_key k) = Some raw"
  then have "rc_view R r (idem_key k) = Some raw" by (rule map_le_SomeD [OF assms(2)])
  with assms(1) show "\<exists>v. json_loads raw = Inr v \<and> v \<noteq> JNull" by (simp add: idem_ok_def)
qed

lemma idem_ok_upd:
  assumes "idem_ok R r" "rc_view R r' \<subseteq>\<^sub>m (rc_view R r)(idem_key k \<mapsto> json_dumps v)" "wf_json v" "v \<noteq> JNull"
  shows "idem_ok R r'"
  unfolding idem_ok_def
proof (intro allI impI)
  fix x raw
  assume "rc_view R r' (idem_key x) = Some raw"
  then have "((rc_view R r)(idem_key k \<mapsto> json_dumps v)) (idem_key x) = Some raw"
    by (rule map_le_SomeD [OF assms(2)])
  with assms show "\<exists>u. json_loads raw = Inr u \<and> u \<noteq> JNull"
    by (cases "x = k") (auto simp: idem_ok_def)
qed

lemma slot_busy [simp]: "slot_of_raw (Some (json_dumps IN_PROGRESS_SENTINEL)) = Busy"
  by (simp add: slot_of_raw_def)

lemma slot_done [simp]: "idem_storable v \<Longrightarrow> slot_of_raw (Some (json_dumps v)) = Done v"
  by (simp add: slot_of_raw_def idem_storable_def)

text \<open>All the outcomes of a claim.\<close>

text \<open>A key that is taken: what the look at its record gives.\<close>

lemma taken_cases:
  assumes R: "redis_laws R" and ok: "idem_ok R r" and c: "claim_or_get_existing R ttl k r = (a, r')"
    and nx: "rc_set_nx R (idem_key k) (json_dumps IN_PROGRESS_SENTINEL) ttl r = (Inr False, r1)"
    and le1: "rc_view R r1 \<subseteq>\<^sub>m rc_view R r"
  shows "idem_ok R r' \<and> frees (idem_slot R r) (idem_slot R r')
    \<and> ((\<exists>m. a = Inl (IdempotencyBackendUnavailable m))
       \<or> (\<exists>v. a = Inr (Some v) \<and> (v = IN_PROGRESS_SENTINEL \<or> idem_slot R r k = Done v)))"
proof (cases "rc_get R (idem_key k) r1")
  case get: (Pair g r2)
  from rc_get_cases [OF R get] have le: "rc_view R r2 \<subseteq>\<^sub>m rc_view R r"
    using map_le_trans [OF _ le1] by cases simp_all
  have ok2: "idem_ok R r2" and fr: "frees (idem_slot R r) (idem_slot R r2)"
    using le idem_ok_le [OF ok] idem_slot_le by auto
  from rc_get_cases [OF R get] show ?thesis
  proof cases
    case (1 m)
    then have "a = Inl (IdempotencyBackendUnavailable m)" "r' = r2"
      using c nx get by (simp_all add: claim_or_get_existing_def)
    then show ?thesis using ok2 fr by blast
  next
    case 2
    show ?thesis
    proof (cases "rc_view R r2 (idem_key k)")
      case None
      then have "a = Inr (Some IN_PROGRESS_SENTINEL)" "r' = r2"
        using c nx get 2 by (simp_all add: claim_or_get_existing_def)
      then show ?thesis using ok2 fr by blast
    next
      case (Some raw)
      with ok2 obtain v where v: "json_loads raw = Inr v" "v \<noteq> JNull" by (auto simp: idem_ok_def)
      then have a: "a = Inr (Some v)" "r' = r2"
        using c nx get 2 Some by (cases v; simp add: claim_or_get_existing_def)+
      have "rc_view R r (idem_key k) = Some raw" using map_le_SomeD [OF le Some] .
      then have "v = IN_PROGRESS_SENTINEL \<or> idem_slot R r k = Done v"
        using v by (simp add: idem_slot_def slot_of_raw_def)
      then show ?thesis using a ok2 fr by blast
    qed
  qed
qed

lemma claim_cases:
  assumes R: "redis_laws R" and ok: "idem_ok R r" and c: "claim_or_get_existing R ttl k r = (a, r')"
  shows "(a = Inr None \<and> idem_slot R r' k = Busy \<and> frees ((idem_slot R r)(k := Busy)) (idem_slot R r') \<and> idem_ok R r')
    \<or> (\<exists>v. a = Inr (Some v) \<and> (v = IN_PROGRESS_SENTINEL \<or> idem_slot R r k = Done v) \<and> idem_slot R r k \<noteq> Free
         \<and> frees (idem_slot R r) (idem_slot R r') \<and> idem_ok R r')
    \<or> (\<exists>m. a = Inl (IdempotencyBackendUnavailable m) \<and> idem_ok R r' \<and>
         (frees (idem_slot R r) (idem_slot R r') \<or> frees ((idem_slot R r)(k := Busy)) (idem_slot R r')))"
proof (cases "rc_set_nx R (idem_key k) (json_dumps IN_PROGRESS_SENTINEL) ttl r")
  case (Pair b r1)
  from rc_set_nx_cases [OF R Pair] show ?thesis
  proof cases
    case (1 m)
    then have "a = Inl (IdempotencyBackendUnavailable m)" "r' = r1"
      using c Pair by (simp_all add: claim_or_get_existing_def)
    moreover have "idem_ok R r1" using 1(2) idem_ok_le [OF ok] idem_ok_upd [OF ok] by auto
    moreover have "frees (idem_slot R r) (idem_slot R r1) \<or> frees ((idem_slot R r)(k := Busy)) (idem_slot R r1)"
      using 1(2) idem_slot_le idem_slot_upd [of R r1 r k "json_dumps IN_PROGRESS_SENTINEL"] by auto
    ultimately show ?thesis by blast
  next
    case 2
    then have "a = Inr None" "r' = r1" using c Pair by (simp_all add: claim_or_get_existing_def)
    moreover have "idem_slot R r1 k = Busy" using 2(3) by (simp add: idem_slot_def)
    ultimately show ?thesis
      using 2 idem_slot_upd [of R r1 r k "json_dumps IN_PROGRESS_SENTINEL"] idem_ok_upd [OF ok] by auto
  next
    case 3
    have "idem_slot R r k \<noteq> Free"
      using 3(3) by (auto simp: idem_slot_def slot_of_raw_def split: sum.splits if_splits)
    with taken_cases [OF R ok c] Pair 3(1,2) show ?thesis by blast
  qed
qed

lemma complete_cases:
  assumes R: "redis_laws R" and ok: "idem_ok R r" and v: "idem_storable v"
    and c: "idem_complete R ttl k v r = (a, r')"
  shows "(a = Inr () \<and> idem_slot R r' k = Done v \<and> frees ((idem_slot R r)(k := Done v)) (idem_slot R r') \<and> idem_ok R r')
    \<or> (\<exists>m. a = Inl (IdempotencyBackendUnavailable m) \<and> idem_ok R r' \<and>
         (frees (idem_slot R r) (idem_slot R r') \<or> frees ((idem_slot R r)(k := Done v)) (idem_slot R r')))"
proof (cases "rc_set R (idem_key k) (json_dumps v) ttl r")
  case (Pair b r1)
  note upd = idem_slot_upd [of R r1 r k "json_dumps v", unfolded slot_done [OF v]]
  have okv: "rc_view R r1 \<subseteq>\<^sub>m (rc_view R r)(idem_key k \<mapsto> json_dumps v) \<Longrightarrow> idem_ok R r1"
    using v idem_ok_upd [OF ok, of r1 k v] by (simp add: idem_storable_def)
  from rc_set_cases [OF R Pair] show ?thesis
  proof cases
    case (1 m)
    then have "a = Inl (IdempotencyBackendUnavailable m)" "r' = r1" using c Pair by (simp_all add: idem_complete_def)
    with 1(2) show ?thesis using upd okv idem_slot_le [of R r1 r] idem_ok_le [OF ok, of r1] by auto
  next
    case 2
    then have "a = Inr ()" "r' = r1" using c Pair by (simp_all add: idem_complete_def)
    with 2 show ?thesis using upd okv v by (auto simp: idem_slot_def)
  qed
qed

lemma release_cases:
  assumes R: "redis_laws R" and ok: "idem_ok R r" and c: "idem_release R k r = (a, r')"
  shows "a = Inr () \<and> frees (idem_slot R r) (idem_slot R r') \<and> idem_ok R r'"
proof (cases "rc_delete R (idem_key k) r")
  case (Pair b r1)
  from rc_delete_cases [OF R Pair] have "a = Inr () \<and> r' = r1 \<and> rc_view R r1 \<subseteq>\<^sub>m rc_view R r"
    by cases (use c Pair in \<open>auto simp: idem_release_def map_le_def split: if_splits\<close>)
  then show ?thesis using idem_slot_le [of R r1 r] idem_ok_le [OF ok, of r1] by simp
qed

interpretation idem: once_store
  "claim_or_get_existing R ttl" "idem_complete R ttl" "idem_release R" "idem_slot R" IN_PROGRESS_SENTINEL
  idem_storable "idem_ok R" "redis_laws R"
  for R :: "'r redis_client" and ttl
proof
  fix s s' :: 'r and k :: string and v :: json and e :: exc and a :: "exc + unit"
  assume R: "redis_laws R" and ok: "idem_ok R s"
  show "idem_slot R s' k = Busy \<and> frees ((idem_slot R s)(k := Busy)) (idem_slot R s') \<and> idem_ok R s'"
    if "claim_or_get_existing R ttl k s = (Inr None, s')"
    using claim_cases [OF R ok that] by auto
  show "(v = IN_PROGRESS_SENTINEL \<or> idem_slot R s k = Done v) \<and> idem_slot R s k \<noteq> Free
      \<and> frees (idem_slot R s) (idem_slot R s') \<and> idem_ok R s'"
    if "claim_or_get_existing R ttl k s = (Inr (Some v), s')"
    using claim_cases [OF R ok that] by auto
  show "(\<exists>m. e = IdempotencyBackendUnavailable m) \<and> idem_ok R s' \<and>
      (frees (idem_slot R s) (idem_slot R s') \<or> frees ((idem_slot R s)(k := Busy)) (idem_slot R s'))"
    if "claim_or_get_existing R ttl k s = (Inl e, s')"
    using claim_cases [OF R ok that] by auto
  show "idem_slot R s' k = Done v \<and> frees ((idem_slot R s)(k := Done v)) (idem_slot R s') \<and> idem_ok R s'"
    if "idem_storable v" "idem_complete R ttl k v s = (Inr (), s')"
    using complete_cases [OF R ok that] by auto
  show "(\<exists>m. e = IdempotencyBackendUnavailable m) \<and> idem_ok R s' \<and>
      (frees (idem_slot R s) (idem_slot R s') \<or> frees ((idem_slot R s)(k := Done v)) (idem_slot R s'))"
    if "idem_storable v" "idem_complete R ttl k v s = (Inl e, s')"
    using complete_cases [OF R ok that] by auto
  show "a = Inr () \<and> frees (idem_slot R s) (idem_slot R s') \<and> idem_ok R s'"
    if "idem_release R k s = (a, s')"
    using release_cases [OF R ok that] .
qed

end
