(* ===== verification/Ticket_Service.thy ===== *)
theory Ticket_Service
  imports Escalation Idempotency
begin

section \<open>Creating tickets\<close>

text \<open>
  \<^verbatim>\<open>backend/schemas/ticket.py\<close>, \<^verbatim>\<open>backend/services/ticket.py\<close> and \<^verbatim>\<open>backend/api/routes/tickets.py\<close>: the
  request and response bodies, the service that combines idempotency, persistence and the
  workflow, and the endpoint with its status codes. Pydantic is used as documented: a response
  is dumped to JSON with its fields in order, and built from a dictionary by checking each
  field; the lax conversions that Pydantic also accepts (numbers for booleans, ...) are left
  out, since only dumped responses are read back.
\<close>

subsection \<open>Schemas\<close>

record ticket_create_request =
  tq_customer_id :: uuid
  tq_subject :: string
  tq_description :: string
  tq_priority :: ticket_priority

text \<open>The \<open>Field\<close> constraints, and the default priority.\<close>

definition valid_request :: "ticket_create_request \<Rightarrow> bool" where
  "valid_request q \<longleftrightarrow> 1 \<le> length (tq_subject q) \<and> length (tq_subject q) \<le> 255 \<and> 1 \<le> length (tq_description q)"

definition make_request :: "uuid \<Rightarrow> string \<Rightarrow> string \<Rightarrow> ticket_priority option \<Rightarrow> ticket_create_request option" where
  "make_request customer_id subject description priority =
     (let q = \<lparr>tq_customer_id = customer_id, tq_subject = subject, tq_description = description,
               tq_priority = get_or MEDIUM priority\<rparr>
      in if valid_request q then Some q else None)"

record ticket_create_response =
  tr_ticket_id :: uuid
  tr_customer_id :: uuid
  tr_category :: string
  tr_selected_agent :: string
  tr_draft_response :: string
  tr_requires_human_review :: bool
  tr_matched_policy_rules :: "string list"
  tr_created_at :: datetime
  tr_idempotent_replay :: bool

text \<open>Pydantic writes the naive \<open>created_at\<close> of the database without an offset.\<close>

definition naive_iso :: "datetime \<Rightarrow> string" where
  "naive_iso t = take (length (isoformat t) - 6) (isoformat t)"

definition parse_naive_iso :: "string \<Rightarrow> datetime option" where
  "parse_naive_iso s = fromisoformat (s @ ''+00:00'')"

text \<open>\<open>response.model_dump(mode="json")\<close>.\<close>

definition response_fields :: "ticket_create_response \<Rightarrow> (string \<times> json) list" where
  "response_fields r =
     [(''ticket_id'', JStr (uuid_str (tr_ticket_id r))),
      (''customer_id'', JStr (uuid_str (tr_customer_id r))),
      (''category'', JStr (tr_category r)),
      (''selected_agent'', JStr (tr_selected_agent r)),
      (''draft_response'', JStr (tr_draft_response r)),
      (''requires_human_review'', JBool (tr_requires_human_review r)),
      (''matched_policy_rules'', JList (map JStr (tr_matched_policy_rules r))),
      (''created_at'', JStr (naive_iso (tr_created_at r))),
      (''idempotent_replay'', JBool (tr_idempotent_replay r))]"

definition json_str :: "json \<Rightarrow> string option" where
  "json_str v = (case v of JStr s \<Rightarrow> Some s | _ \<Rightarrow> None)"

definition json_bool :: "json \<Rightarrow> bool option" where
  "json_bool v = (case v of JBool b \<Rightarrow> Some b | _ \<Rightarrow> None)"

definition json_strs :: "json \<Rightarrow> string list option" where
  "json_strs v =
     (case v of JList xs \<Rightarrow> if \<forall>x \<in> set xs. json_str x \<noteq> None then Some (map (the \<circ> json_str) xs) else None
      | _ \<Rightarrow> None)"

text \<open>\<open>TicketCreateResponse(**fields)\<close>: a missing or ill-typed field is a validation error.\<close>

definition response_of_fields :: "(string \<times> json) list \<Rightarrow> exc + ticket_create_response" where
  "response_of_fields kvs =
     (let str = (\<lambda>k. Option.bind (map_of kvs k) json_str) in
      case (Option.bind (str ''ticket_id'') uuid_parse, Option.bind (str ''customer_id'') uuid_parse,
            str ''category'', str ''selected_agent'', str ''draft_response'',
            Option.bind (map_of kvs ''requires_human_review'') json_bool,
            Option.bind (map_of kvs ''matched_policy_rules'') json_strs,
            Option.bind (str ''created_at'') parse_naive_iso,
            (case map_of kvs ''idempotent_replay'' of None \<Rightarrow> Some False | Some v \<Rightarrow> json_bool v)) of
        (Some ti, Some ci, Some cat, Some ag, Some dr, Some rv, Some rules, Some created, Some rep) \<Rightarrow>
          Inr \<lparr>tr_ticket_id = ti, tr_customer_id = ci, tr_category = cat, tr_selected_agent = ag,
               tr_draft_response = dr, tr_requires_human_review = rv, tr_matched_policy_rules = rules,
               tr_created_at = created, tr_idempotent_replay = rep\<rparr>
      | _ \<Rightarrow> Inl validation_error)"

subsection \<open>The service\<close>

text \<open>The database part of \<open>_execute\<close>.\<close>

definition insert_ticket_session :: "db_env \<Rightarrow> ticket_create_request \<Rightarrow> ticket_row session" where
  "insert_ticket_session D payload =
     bind (customer_get_by_id D (tq_customer_id payload)) (\<lambda>customer.
       case customer of
         None \<Rightarrow> raise (CustomerNotFound (uuid_str (tq_customer_id payload)))
       | Some _ \<Rightarrow>
           catch
             (bind (ticket_create D (tq_customer_id payload) (tq_subject payload) (tq_description payload)
                      (tq_priority payload))
               (\<lambda>ticket. bind (db_commit D) (\<lambda>_. ret ticket)))
             (\<lambda>e. case e of
                IntegrityError _ \<Rightarrow>
                  bind (db_rollback D) (\<lambda>_. raise (CustomerNotFound (uuid_str (tq_customer_id payload))))
              | _ \<Rightarrow> raise e))"

definition initial_state :: "ticket_create_request \<Rightarrow> uuid \<Rightarrow> workflow_state" where
  "initial_state payload ticket_id =
     \<lparr>ws_ticket_id = ticket_id, ws_customer_id = tq_customer_id payload,
      ws_ticket_text = tq_subject payload @ [nl, nl] @ tq_description payload,
      ws_category = None, ws_selected_agent = None, ws_retrieved_context = None, ws_draft_response = None,
      ws_agent_unresolved = None, ws_confidence_score = None, ws_requires_human_review = None,
      ws_matched_policy_rules = None, ws_workflow_status = Some WS_PENDING\<rparr>"

definition response_of_state :: "ticket_create_request \<Rightarrow> ticket_row \<Rightarrow> workflow_state \<Rightarrow> ticket_create_response" where
  "response_of_state payload ticket final =
     \<lparr>tr_ticket_id = tk_id ticket, tr_customer_id = tq_customer_id payload,
      tr_category = ticket_category_value (get_or GENERAL (ws_category final)),
      tr_selected_agent = support_agent_value (get_or GENERAL_AGENT (ws_selected_agent final)),
      tr_draft_response = get_or [] (ws_draft_response final),
      tr_requires_human_review = get_or False (ws_requires_human_review final),
      tr_matched_policy_rules = get_or [] (ws_matched_policy_rules final),
      tr_created_at = tk_created_at ticket, tr_idempotent_replay = False\<rparr>"

definition execute_ticket :: "'r env \<Rightarrow> ticket_create_request \<Rightarrow> (ticket_create_response, 'r world) comp" where
  "execute_ticket E payload =
     bind (on_db (with_session (insert_ticket_session (e_db E) payload))) (\<lambda>ticket.
       bind (invoke E (initial_state payload (tk_id ticket))) (\<lambda>final.
         ret (response_of_state payload ticket final)))"

text \<open>\<open>{**existing, "idempotent_replay": True}\<close>.\<close>

definition replay_fields :: "(string \<times> json) list \<Rightarrow> (string \<times> json) list" where
  "replay_fields kvs = AList.update ''idempotent_replay'' (JBool True) kvs"

definition idem_ttl :: "'r env \<Rightarrow> int" where
  "idem_ttl E = redis_idempotency_ttl_seconds (e_settings E)"

definition create_ticket ::
    "'r env \<Rightarrow> ticket_create_request \<Rightarrow> string option \<Rightarrow> (ticket_create_response, 'r world) comp" where
  "create_ticket E payload idempotency_key =
     (case idempotency_key of
        None \<Rightarrow> execute_ticket E payload
      | Some k \<Rightarrow>
          bind (on_redis (claim_or_get_existing (e_redis E) (idem_ttl E) k)) (\<lambda>existing.
            case existing of
              Some (JObj kvs) \<Rightarrow>
                if map_of kvs ''status'' = Some (JStr ''in_progress'') then raise (TicketCreationInProgress k)
                else lift_sum (response_of_fields (replay_fields kvs))
            | Some _ \<Rightarrow> raise (AttributeError ''get'')
            | None \<Rightarrow>
                bind (catch (execute_ticket E payload)
                        (\<lambda>e. bind (on_redis (idem_release (e_redis E) k)) (\<lambda>_. raise e)))
                  (\<lambda>response.
                    bind (on_redis (idem_complete (e_redis E) (idem_ttl E) k (JObj (response_fields response))))
                      (\<lambda>_. ret response))))"

subsection \<open>The endpoint\<close>

text \<open>The body of \<open>create_ticket_endpoint\<close>: the status code with the response.\<close>

definition create_ticket_endpoint ::
    "'r env \<Rightarrow> ticket_create_request \<Rightarrow> string option \<Rightarrow> (nat \<times> ticket_create_response, 'r world) comp" where
  "create_ticket_endpoint E payload idempotency_key =
     bind (catch (create_ticket E payload idempotency_key)
             (\<lambda>e. case e of
                TicketCreationInProgress _ \<Rightarrow>
                  raise (HTTPException 409 ''A request with this Idempotency-Key is already being processed'')
              | IdempotencyBackendUnavailable _ \<Rightarrow>
                  raise (HTTPException 503 ''Unable to verify request idempotency right now; please retry'')
              | CustomerNotFound c \<Rightarrow>
                  raise (HTTPException 404
                    (''Customer '' @ c @ '' not found. See GET /customers for valid customer_id values.''))
              | _ \<Rightarrow> raise e))
       (\<lambda>response. ret (if tr_idempotent_replay response then 200 else 201, response))"

subsection \<open>What is stored is what was answered\<close>

lemma isoformat_suffix: "\<exists>p. isoformat t = p @ ''+00:00''"
proof (cases t)
  case (DateTime y mo d h mi s us)
  define u where "u = (if us = 0 then [] else ''.'' @ dec_digits 6 us)"
  define p where "p = dec_digits 4 y @ ''-'' @ dec_digits 2 mo @ ''-'' @ dec_digits 2 d @ ''T'' @ dec_digits 2 h @ '':''
     @ dec_digits 2 mi @ '':'' @ dec_digits 2 s @ u"
  have "isoformat t = p @ ''+00:00''" by (simp add: DateTime p_def u_def)
  then show ?thesis by blast
qed

lemma naive_iso_suffix: "naive_iso t @ ''+00:00'' = isoformat t"
proof -
  obtain p where p: "isoformat t = p @ ''+00:00''" using isoformat_suffix by blast
  then have "naive_iso t = p" unfolding naive_iso_def by simp
  with p show ?thesis by simp
qed

lemma parse_naive_iso: "valid_datetime t \<Longrightarrow> parse_naive_iso (naive_iso t) = Some t"
  unfolding parse_naive_iso_def naive_iso_suffix by (rule isoformat_roundtrip)

lemma json_strs_JStr [simp]: "json_strs (JList (map JStr xs)) = Some xs"
  by (simp add: json_strs_def json_str_def comp_def)

lemma response_roundtrip:
  assumes "valid_datetime (tr_created_at r)"
  shows "response_of_fields (response_fields r) = Inr r"
    and "response_of_fields (replay_fields (response_fields r)) = Inr (r\<lparr>tr_idempotent_replay := True\<rparr>)"
  using parse_naive_iso [OF assms]
  by (simp_all add: response_of_fields_def response_fields_def replay_fields_def json_str_def json_bool_def Let_def)

lemma response_storable: "idem_storable (JObj (response_fields r))"
  by (simp add: idem_storable_def response_fields_def IN_PROGRESS_SENTINEL_def)

lemma response_no_status: "map_of (response_fields r) ''status'' = None"
  by (simp add: response_fields_def)

subsection \<open>The insertion\<close>

definition new_ticket :: "db_env \<Rightarrow> ticket_create_request \<Rightarrow> database \<Rightarrow> ticket_row" where
  "new_ticket D q db = \<lparr>tk_id = d_new_id D db, tk_customer_id = tq_customer_id q, tk_assigned_agent_id = None,
     tk_subject = tq_subject q, tk_description = tq_description q, tk_priority = tq_priority q,
     tk_status = TS_NEW, tk_ai_summary = None, tk_created_at = d_db_now D db, tk_updated_at = d_db_now D db\<rparr>"

definition with_new_ticket :: "db_env \<Rightarrow> ticket_create_request \<Rightarrow> database \<Rightarrow> database" where
  "with_new_ticket D q db = db\<lparr>db_tickets := db_tickets db @ [new_ticket D q db]\<rparr>"

lemma ticket_create_eq:
  "ticket_create D (tq_customer_id q) (tq_subject q) (tq_description q) (tq_priority q) ss
   = bind (db_flush D (insert_ticket (new_ticket D q (ss_work ss)))) (\<lambda>_. ret (new_ticket D q (ss_work ss))) ss"
  by (simp add: ticket_create_def Let_def new_ticket_def)

lemma insert_new_ticket: "insert_ticket (new_ticket D q db) db = Inr db' \<Longrightarrow> db' = with_new_ticket D q db"
  by (simp add: insert_ticket_def with_new_ticket_def split: if_splits)

text \<open>
  A ticket is stored whole, with the answer that names it, or not at all; a missing customer is
  \<open>CustomerNotFound\<close>, found missing before the insert or by the database.
\<close>

lemma insert_session_cases:
  assumes "with_session (insert_ticket_session D q) db = (a, db')"
  shows "(a = Inr (new_ticket D q db) \<and> db' = with_new_ticket D q db
           \<and> insert_ticket (new_ticket D q db) db = Inr db')
       \<or> ((\<exists>e. a = Inl e) \<and> db' = db)"
proof -
  let ?s0 = "\<lparr>ss_work = db, ss_saved = db\<rparr>"
  show ?thesis
  proof (cases "\<exists>c. customer_get_by_id D (tq_customer_id q) ?s0 = (Inr (Some c), ?s0)")
    case False
    then have "db' = db \<and> (\<exists>e. a = Inl e)"
      using assms by (auto simp: with_session_def insert_ticket_session_def bind_def customer_get_by_id_def
          db_select_def split: option.splits)
    then show ?thesis by blast
  next
    case True
    then obtain c where c: "customer_get_by_id D (tq_customer_id q) ?s0 = (Inr (Some c), ?s0)" ..
    obtain f s1 where f: "db_flush D (insert_ticket (new_ticket D q db)) ?s0 = (f, s1)" by fastforce
    have flush: "(\<exists>e. f = Inl e \<and> s1 = ?s0)
        \<or> (f = Inr () \<and> s1 = ?s0\<lparr>ss_work := with_new_ticket D q db\<rparr>
            \<and> insert_ticket (new_ticket D q db) db = Inr (with_new_ticket D q db))"
      using f insert_new_ticket [of D q db]
      by (auto simp: db_flush_def split: option.splits sum.splits)
    then show ?thesis
    proof
      assume "\<exists>e. f = Inl e \<and> s1 = ?s0"
      then have "db' = db \<and> (\<exists>e. a = Inl e)"
        using assms c f by (auto simp: with_session_def insert_ticket_session_def bind_def catch_def
            ticket_create_eq db_rollback_def split: exc.splits option.splits)
      then show ?thesis by blast
    next
      assume ok: "f = Inr () \<and> s1 = ?s0\<lparr>ss_work := with_new_ticket D q db\<rparr>
            \<and> insert_ticket (new_ticket D q db) db = Inr (with_new_ticket D q db)"
      show ?thesis
      proof (cases "d_fault D DbCommit (with_new_ticket D q db)")
        case None
        with assms c f ok show ?thesis
          by (auto simp: with_session_def insert_ticket_session_def bind_def catch_def
            ticket_create_eq db_commit_def)
      next
        case (Some e)
        with assms c f ok have "db' = db \<and> (\<exists>e. a = Inl e)"
          by (auto simp: with_session_def insert_ticket_session_def bind_def catch_def
            ticket_create_eq db_commit_def db_rollback_def split: exc.splits option.splits)
        then show ?thesis by blast
      qed
    qed
  qed
qed

lemma insert_session_missing:
  assumes "d_fault D DbSelect db = None" "tq_customer_id q \<notin> set (customer_ids db)"
  shows "with_session (insert_ticket_session D q) db =
    (Inl (CustomerNotFound (uuid_str (tq_customer_id q))), db)"
proof -
  have "find (\<lambda>c. cu_id c = tq_customer_id q) (db_customers db) = None"
    using assms(2) by (force simp: find_None_iff customer_ids_def)
  with assms(1) show ?thesis
    by (simp add: with_session_def insert_ticket_session_def bind_def customer_get_by_id_def db_select_def)
qed

text \<open>When the engine does not fail and the key is fresh, the ticket of a valid request is stored.\<close>

lemma insert_session_ok:
  assumes "no_faults D" "valid_request q" "tq_customer_id q \<in> set (customer_ids db)"
    and "d_new_id D db \<notin> set (ticket_ids db)"
  shows "with_session (insert_ticket_session D q) db = (Inr (new_ticket D q db), with_new_ticket D q db)"
proof -
  obtain c where "find (\<lambda>c. cu_id c = tq_customer_id q) (db_customers db) = Some c"
    using assms(3) by (cases "find (\<lambda>c. cu_id c = tq_customer_id q) (db_customers db)")
      (auto simp: find_None_iff customer_ids_def)
  moreover have "insert_ticket (new_ticket D q db) db = Inr (with_new_ticket D q db)"
    using assms by (simp add: insert_ticket_def new_ticket_def fk_opt_def with_new_ticket_def valid_request_def)
  ultimately show ?thesis using assms(1)
    by (simp add: with_session_def insert_ticket_session_def bind_def catch_def customer_get_by_id_def
        db_select_def ticket_create_eq db_flush_def db_commit_def no_faults_def)
qed

end
