(* ===== verification/Ticket_Creation.thy ===== *)
theory Ticket_Creation
  imports Ticket_Service
begin

section \<open>Ticket creation: invariants, idempotency, failures\<close>

text \<open>
  The properties of \<open>create_ticket\<close> and of the endpoint: what it may do to the tables, when it
  executes at all, that a completed request is replayed, and what a failure leaves behind.
\<close>

text \<open>The request of the witnesses.\<close>

definition sample_request :: "uuid \<Rightarrow> ticket_create_request" where
  "sample_request customer = \<lparr>tq_customer_id = customer, tq_subject = ''Refund'', tq_description = ''please'',
     tq_priority = LOW\<rparr>"

subsection \<open>What a request may do to the tables\<close>

text \<open>A request as \<open>create_pending\<close> makes it: pending, asked for by nobody, without a decision.\<close>

definition undecided :: "approval_row \<Rightarrow> bool" where
  "undecided a \<longleftrightarrow> ap_status a = AS_PENDING \<and> ap_requested_by a = None \<and> ap_approved_by a = None \<and> ap_decided_at a = None"

lemma steps_create_pending:
  assumes "transp Q" "\<And>a db db'. undecided a \<Longrightarrow> insert_approval a db = Inr db' \<Longrightarrow> Q db db'"
  shows "steps (ss_rel Q) (create_pending D t dr ctx ag rules)"
  unfolding steps_def
proof
  fix ss
  have step: "ss_rel Q ss (snd (bind (db_flush D (insert_approval a)) (\<lambda>_. reload_with_ticket D (ap_id a)) ss))"
    if "undecided a" for a
    unfolding reload_with_ticket_def
    by (rule steps_apply, intro steps_bind steps_flush steps_select transp_ss_rel assms(1) assms(2) [OF that])
       (auto split: list.splits intro: steps_ret steps_raise)
  show "ss_rel Q ss (snd (create_pending D t dr ctx ag rules ss))"
    unfolding create_pending_def Let_def by (rule step) (simp add: undecided_def)
qed

lemma steps_then_node:
  "transp R \<Longrightarrow> steps R (node s) \<Longrightarrow> (\<And>s. steps R (k s)) \<Longrightarrow> steps R (then_node node k s)"
  unfolding then_node_def by (rule steps_bind)

lemma steps_persist:
  assumes "reflp P" "transp P" "reflp Q" "transp Q"
    and "\<And>a db db'. undecided a \<Longrightarrow> insert_approval a db = Inr db' \<Longrightarrow> Q db db'"
    and "\<And>l db db'. insert_audit l db = Inr db' \<Longrightarrow> Q db db'"
  shows "steps (world_rel P Q) (persist_results_node E s)"
proof -
  have "steps (world_rel P Q) (enqueue_supervisor_review E s)"
    unfolding enqueue_supervisor_review_def Let_def
    by (intro steps_catch steps_bind steps_ret steps_on_db steps_with_session steps_create_pending steps_commit
          steps_log_audit transp_ss_rel transp_world_rel reflp_world_rel assms)
  then have "steps (world_rel P Q) (if b then enqueue_supervisor_review E s else ret ())" for b
    by (cases b) (simp_all only: if_True if_False steps_ret reflp_world_rel assms)
  then show ?thesis unfolding persist_results_node_def
    by (intro steps_bind steps_ret transp_world_rel reflp_world_rel assms)
qed

lemma steps_invoke:
  assumes R: "redis_laws (e_redis E)" and law: "kickoff_law E T" and Q: "reflp Q" "transp Q"
    and "\<And>a db db'. undecided a \<Longrightarrow> insert_approval a db = Inr db' \<Longrightarrow> Q db db'"
    and "\<And>l db db'. insert_audit l db = Inr db' \<Longrightarrow> Q db db'"
  shows "steps (world_rel (only_ns workflow_ns (e_redis E)) Q) (invoke E s)"
proof -
  let ?W = "world_rel (only_ns workflow_ns (e_redis E)) Q"
  have refl: "reflp ?W" and trans: "transp ?W" using Q by simp_all
  have up: "frame E v v' \<Longrightarrow> ?W v v'" for v v'
    using Q(1) by (auto simp: frame_def world_rel_def reflpD)
  have load: "steps ?W (load_ticket_node s)" for s
    unfolding load_ticket_node_def by (rule steps_ret [OF refl])
  note nodes = steps_classify_node [OF R, THEN steps_mono, OF up] steps_select_node [OF R, THEN steps_mono, OF up]
    steps_execute_node [OF R law, THEN steps_mono, OF up] steps_confidence_node [OF R, THEN steps_mono, OF up]
  have persist: "steps ?W (persist_results_node E s)" for s
    by (rule steps_persist) (use assms in simp_all)
  show ?thesis
    unfolding invoke_eq by (intro steps_then_node trans load nodes persist steps_ret refl)
qed

lemma steps_insert_session:
  assumes "reflp Q" "transp Q" "\<And>t db db'. insert_ticket t db = Inr db' \<Longrightarrow> Q db db'"
  shows "steps Q (with_session (insert_ticket_session D q))"
  unfolding steps_def
proof
  fix db
  obtain a db' where s: "with_session (insert_ticket_session D q) db = (a, db')" by fastforce
  from insert_session_cases [OF s] s show "Q db (snd (with_session (insert_ticket_session D q) db))"
    using assms(1,3) by (auto simp: reflpD)
qed

text \<open>The relations on tables that every request respects.\<close>

definition row_closed :: "(database \<Rightarrow> database \<Rightarrow> bool) \<Rightarrow> bool" where
  "row_closed Q \<longleftrightarrow> reflp Q \<and> transp Q
     \<and> (\<forall>t db db'. insert_ticket t db = Inr db' \<longrightarrow> Q db db')
     \<and> (\<forall>a db db'. undecided a \<longrightarrow> insert_approval a db = Inr db' \<longrightarrow> Q db db')
     \<and> (\<forall>l db db'. insert_audit l db = Inr db' \<longrightarrow> Q db db')"

lemma row_closed_grows: "row_closed grows"
  unfolding row_closed_def
  using insert_ticket_grows insert_approval_grows audit_only_grows [OF insert_audit_only] by simp

lemma row_closed_wf: "row_closed (keeps db_wf)"
proof -
  have "insert_ticket t db = Inr db' \<Longrightarrow> keeps db_wf db db'" for t db db'
    unfolding keeps_def by (intro impI) (rule insert_ticket_wf)
  moreover have "insert_approval a db = Inr db' \<Longrightarrow> keeps db_wf db db'" for a db db'
    unfolding keeps_def by (intro impI) (rule insert_approval_wf)
  moreover have "insert_audit l db = Inr db' \<Longrightarrow> keeps db_wf db db'" for l db db'
    unfolding keeps_def by (intro impI) (rule insert_audit_wf)
  ultimately show ?thesis unfolding row_closed_def by simp
qed

lemma steps_execute_ticket:
  assumes R: "redis_laws (e_redis E)" and law: "kickoff_law E T" and Q: "row_closed Q"
  shows "steps (world_rel (only_ns workflow_ns (e_redis E)) Q) (execute_ticket E q)"
proof -
  from Q have q: "reflp Q" "transp Q" "\<And>t db db'. insert_ticket t db = Inr db' \<Longrightarrow> Q db db'"
    "\<And>a db db'. undecided a \<Longrightarrow> insert_approval a db = Inr db' \<Longrightarrow> Q db db'"
    "\<And>l db db'. insert_audit l db = Inr db' \<Longrightarrow> Q db db'"
    by (auto simp: row_closed_def)
  show ?thesis unfolding execute_ticket_def
    by (intro steps_bind steps_on_db steps_insert_session steps_invoke [OF R law] steps_ret
          transp_world_rel reflp_world_rel reflp_only_ns transp_only_ns q)
qed

lemma steps_any: "steps (\<lambda>_ _. True) m"
  by (simp add: steps_def)

lemma steps_create_ticket:
  fixes E :: "'r env"
  assumes R: "redis_laws (e_redis E)" and law: "kickoff_law E T" and Q: "row_closed Q"
  shows "steps (world_rel (\<lambda>_ _. True) Q) (create_ticket E q key)"
proof -
  let ?W = "world_rel (\<lambda>_ _ :: 'r. True) Q"
  have rt: "reflp Q" "transp Q" "reflp (\<lambda>_ _ :: 'r. True)" "transp (\<lambda>_ _ :: 'r. True)"
    using Q by (auto simp: row_closed_def reflp_def transp_def)
  have refl: "reflp ?W" and trans: "transp ?W" using rt by simp_all
  have exec: "steps ?W (execute_ticket E q)"
    by (rule steps_mono [OF steps_execute_ticket [OF R law Q]]) (simp add: world_rel_def)
  have redis: "steps ?W (on_redis m)" for m by (rule steps_on_redis [OF rt(1) steps_any])
  have lift: "steps ?W (lift_sum x)" for x :: "exc + 'b"
    by (cases x) (simp_all add: lift_sum_def steps_ret steps_raise refl)
  show ?thesis
  proof (cases key)
    case None
    then show ?thesis using exec by (simp add: create_ticket_def)
  next
    case (Some k)
    then show ?thesis unfolding create_ticket_def
      by (auto split: option.splits json.splits
          intro!: steps_bind [OF trans] steps_catch [OF trans] steps_ret [OF refl] steps_raise [OF refl]
            exec redis lift)
  qed
qed

text \<open>What a request to create a ticket may do to the tables, whatever fails and whatever it answers.\<close>

lemma create_ticket_keeps_tables:
  assumes "redis_laws (e_redis E)" and "kickoff_law E T" and "db_wf (w_db w)"
    and "create_ticket E q key w = (res, w')"
  shows "db_wf (w_db w') \<and> grows (w_db w) (w_db w')"
proof
  show "db_wf (w_db w')"
    using stepsD [OF steps_create_ticket [OF assms(1,2) row_closed_wf] assms(4)] assms(3)
    by (simp add: world_rel_def keeps_def)
  show "grows (w_db w) (w_db w')"
    using stepsD [OF steps_create_ticket [OF assms(1,2) row_closed_grows] assms(4)] by (simp add: world_rel_def)
qed

subsection \<open>Claims\<close>

abbreviation claim_key :: "'r env \<Rightarrow> string \<Rightarrow> (json option, 'r) comp" where
  "claim_key E \<equiv> claim_or_get_existing (e_redis E) (idem_ttl E)"

definition claimed_body :: "'r env \<Rightarrow> ticket_create_request \<Rightarrow> string \<Rightarrow> (ticket_create_response, 'r world) comp" where
  "claimed_body E q k =
     bind (catch (execute_ticket E q) (\<lambda>e. bind (on_redis (idem_release (e_redis E) k)) (\<lambda>_. raise e)))
       (\<lambda>response. bind (on_redis (idem_complete (e_redis E) (idem_ttl E) k (JObj (response_fields response))))
          (\<lambda>_. ret response))"

lemma create_ticket_claimed:
  assumes "claim_key E k (w_redis w) = (Inr None, r')"
  shows "create_ticket E q (Some k) w = claimed_body E q k (w\<lparr>w_redis := r'\<rparr>)"
  by (simp add: create_ticket_def bind_def [of "on_redis m" for m] on_redis_def assms claimed_body_def)

definition existing_answer :: "string \<Rightarrow> json \<Rightarrow> exc + ticket_create_response" where
  "existing_answer k v =
     (case v of
        JObj kvs \<Rightarrow>
          if map_of kvs ''status'' = Some (JStr ''in_progress'') then Inl (TicketCreationInProgress k)
          else response_of_fields (replay_fields kvs)
      | _ \<Rightarrow> Inl (AttributeError ''get''))"

lemma create_ticket_existing:
  assumes "claim_key E k (w_redis w) = (Inr (Some v), r')"
  shows "create_ticket E q (Some k) w = (existing_answer k v, w\<lparr>w_redis := r'\<rparr>)"
  using assms
  by (cases v) (auto simp: create_ticket_def bind_def on_redis_def lift_sum_def existing_answer_def split: sum.splits)

lemma create_ticket_unclaimed:
  assumes "claim_key E k (w_redis w) = (Inl e, r')"
  shows "create_ticket E q (Some k) w = (Inl e, w\<lparr>w_redis := r'\<rparr>)"
  using assms by (simp add: create_ticket_def bind_def on_redis_def)

lemma existing_pending [simp]: "existing_answer k IN_PROGRESS_SENTINEL = Inl (TicketCreationInProgress k)"
  by (simp add: existing_answer_def IN_PROGRESS_SENTINEL_def)

lemma existing_response:
  "valid_datetime (tr_created_at r) \<Longrightarrow>
     existing_answer k (JObj (response_fields r)) = Inr (r\<lparr>tr_idempotent_replay := True\<rparr>)"
  by (simp add: existing_answer_def response_no_status response_roundtrip)

lemma existing_is_replay:
  assumes "existing_answer k v = Inr response"
  shows "tr_idempotent_replay response"
proof -
  obtain kvs where "response_of_fields (replay_fields kvs) = Inr response"
    using assms by (cases v) (auto simp: existing_answer_def split: if_splits)
  moreover have "map_of (replay_fields kvs) ''idempotent_replay'' = Some (JBool True)"
    by (simp add: replay_fields_def update_conv')
  ultimately show ?thesis by (auto simp: response_of_fields_def Let_def json_bool_def split: option.splits)
qed

lemma endpoint_state:
  assumes "create_ticket E q key w = (r, w')"
  shows "\<exists>res. create_ticket_endpoint E q key w = (res, w')"
proof (cases r)
  case (Inl e)
  with assms show ?thesis by (cases e) (simp_all add: create_ticket_endpoint_def bind_def catch_def)
next
  case (Inr x)
  with assms show ?thesis by (simp add: create_ticket_endpoint_def bind_def catch_def)
qed

lemma claim_done:
  assumes "redis_steady R r" and "rc_view R r (idem_key k) = Some raw" and "json_loads raw = Inr v" "v \<noteq> JNull"
  obtains r' where "claim_or_get_existing R ttl k r = (Inr (Some v), r')" "rc_view R r' = rc_view R r"
proof -
  obtain r1 where nx: "rc_set_nx R (idem_key k) (json_dumps IN_PROGRESS_SENTINEL) ttl r = (Inr False, r1)"
    and a1: "redis_answers R r1" and v1: "rc_view R r1 = rc_view R r"
    using assms(1,2) unfolding redis_steady_def by (metis option.distinct(1))
  obtain r2 where "rc_get R (idem_key k) r1 = (Inr (Some raw), r2)" "rc_view R r2 = rc_view R r"
    using a1 v1 assms(2) unfolding redis_answers_def by metis
  with nx assms(3,4) show thesis
    by (intro that [of r2]) (cases v; simp add: claim_or_get_existing_def)+
qed

text \<open>What the endpoint answers for what a claim found.\<close>

lemma endpoint_pending:
  assumes "claim_key E k (w_redis w) = (Inr (Some IN_PROGRESS_SENTINEL), r')"
  shows "\<exists>d. create_ticket_endpoint E q (Some k) w = (Inl (HTTPException 409 d), w\<lparr>w_redis := r'\<rparr>)"
  using create_ticket_existing [OF assms] by (simp add: create_ticket_endpoint_def bind_def catch_def)

lemma endpoint_replay:
  assumes "claim_key E k (w_redis w) = (Inr (Some (JObj (response_fields response))), r')"
    and "valid_datetime (tr_created_at response)"
  shows "create_ticket_endpoint E q (Some k) w =
    (Inr (200, response\<lparr>tr_idempotent_replay := True\<rparr>), w\<lparr>w_redis := r'\<rparr>)"
  using create_ticket_existing [OF assms(1)] existing_response [OF assms(2)]
  by (simp add: create_ticket_endpoint_def bind_def catch_def)

lemma slot_Done_raw:
  assumes "idem_slot R r k = Done v"
  obtains raw where "rc_view R r (idem_key k) = Some raw" "json_loads raw = Inr v"
  using assms that by (auto simp: idem_slot_def slot_of_raw_def split: option.splits sum.splits if_splits)

lemma steady_claim_done:
  assumes "redis_steady R r" "idem_slot R r k = Done (JObj fs)" "claim_or_get_existing R ttl k r = (Inr (Some v), r')"
  shows "v = JObj fs"
proof -
  obtain raw where "rc_view R r (idem_key k) = Some raw" "json_loads raw = Inr (JObj fs)"
    using slot_Done_raw [OF assms(2)] .
  from claim_done [OF assms(1) this, of ttl] assms(3) show ?thesis by auto
qed

text \<open>C8: only the request that claimed a key executes. Every other request with the key changes no table (in a
  store whose records parse, as the service writes them, \<open>idem_ok\<close>). When
  Redis could not be asked the endpoint answers it 503; while the claim is being executed, 409; and when
  the key holds the response of a completed request, 200 with that response, marked as a replay
  (or 409, if the record expires between the two commands of the claim, which a steady Redis rules out).\<close>

theorem only_the_claimant_executes:
  assumes "redis_laws (e_redis E)" and "idem_ok (e_redis E) (w_redis w)"
    and "claim_key E k (w_redis w) = (a, r')" and "a \<noteq> Inr None"
  shows "\<exists>res. create_ticket_endpoint E q (Some k) w = (res, w\<lparr>w_redis := r'\<rparr>)
    \<and> (case a of
         Inl e \<Rightarrow> \<exists>d. res = Inl (HTTPException 503 d)
       | Inr v \<Rightarrow> idem_slot (e_redis E) (w_redis w) k \<noteq> Free
           \<and> (idem_slot (e_redis E) (w_redis w) k = Busy \<longrightarrow> (\<exists>d. res = Inl (HTTPException 409 d)))
           \<and> (\<forall>response. idem_slot (e_redis E) (w_redis w) k = Done (JObj (response_fields response)) \<longrightarrow>
                valid_datetime (tr_created_at response) \<longrightarrow>
                res = Inr (200, response\<lparr>tr_idempotent_replay := True\<rparr>)
                \<or> (\<exists>d. res = Inl (HTTPException 409 d)) \<and> \<not> redis_steady (e_redis E) (w_redis w)))"
proof (cases a)
  case (Inl e)
  then obtain m where "e = IdempotencyBackendUnavailable m"
    using idem.claim_failed [OF assms(1,2), of "idem_ttl E" k e r'] assms(3) by blast
  with Inl assms(3) show ?thesis
    by (auto simp: create_ticket_endpoint_def bind_def catch_def create_ticket_unclaimed)
next
  case (Inr x)
  with assms(4) obtain v where v: "a = Inr (Some v)" by (cases x) auto
  with assms(3) have claim: "claim_key E k (w_redis w) = (Inr (Some v), r')" by simp
  let ?slot = "idem_slot (e_redis E) (w_redis w) k"
  have lost: "(v = IN_PROGRESS_SENTINEL \<or> ?slot = Done v) \<and> ?slot \<noteq> Free"
    using idem.claim_lost [OF assms(1,2) claim] by blast
  show ?thesis
  proof (cases "v = IN_PROGRESS_SENTINEL")
    case True
    with claim have "claim_key E k (w_redis w) = (Inr (Some IN_PROGRESS_SENTINEL), r')" by simp
    from endpoint_pending [OF this] obtain d where
      res: "create_ticket_endpoint E q (Some k) w = (Inl (HTTPException 409 d), w\<lparr>w_redis := r'\<rparr>)" by blast
    have "\<not> redis_steady (e_redis E) (w_redis w)" if "?slot = Done (JObj (response_fields response))" for response
    proof
      assume "redis_steady (e_redis E) (w_redis w)"
      from steady_claim_done [OF this that claim] True have "response_fields response = [(''status'', JStr ''in_progress'')]"
        by (simp add: IN_PROGRESS_SENTINEL_def)
      with response_no_status [of response] show False by simp
    qed
    with res lost v show ?thesis by auto
  next
    case False
    with lost have slot: "?slot = Done v" by blast
    obtain res where res: "create_ticket_endpoint E q (Some k) w = (res, w\<lparr>w_redis := r'\<rparr>)"
      using endpoint_state [OF create_ticket_existing [OF claim, of q]] by auto
    have "res = Inr (200, response\<lparr>tr_idempotent_replay := True\<rparr>)"
      if "?slot = Done (JObj (response_fields response))" "valid_datetime (tr_created_at response)" for response
      using endpoint_replay [OF _ that(2), of E k w r' q] claim slot that(1) res by simp
    with res slot v show ?thesis by auto
  qed
qed

subsection \<open>Replaying\<close>

text \<open>A response, as the witnesses store it.\<close>

definition sample_response :: ticket_create_response where
  "sample_response = \<lparr>tr_ticket_id = 101, tr_customer_id = 1, tr_category = ''technical'',
     tr_selected_agent = ''technical_agent'', tr_draft_response = ''Restart it'', tr_requires_human_review = True,
     tr_matched_policy_rules = [''refund''], tr_created_at = sample_time, tr_idempotent_replay = False\<rparr>"

lemma sample_response_time [simp]: "valid_datetime (tr_created_at sample_response)"
  by (simp add: sample_response_def sample_time_def)

text \<open>Redis down, the key claimed by another request, and the key of a completed request.\<close>

theorem only_the_claimant_executes_witness:
  "(\<exists>d. create_ticket_endpoint (sample_env ''billing'' (Inr (OtherOutput ''ok''))) (sample_request 1) (Some ''k'')
        (sample_world False) = (Inl (HTTPException 503 d), sample_world False))
    \<and> (\<exists>d w. create_ticket_endpoint (live_env ''billing'' (Inr (OtherOutput ''ok''))) (sample_request 1) (Some ''k'')
        (live_world\<lparr>w_redis := [idem_key ''k'' \<mapsto> json_dumps IN_PROGRESS_SENTINEL]\<rparr>) = (Inl (HTTPException 409 d), w))
    \<and> (\<exists>w. create_ticket_endpoint (live_env ''billing'' (Inr (OtherOutput ''ok''))) (sample_request 1) (Some ''k'')
        (live_world\<lparr>w_redis := [idem_key ''k'' \<mapsto> json_dumps (JObj (response_fields sample_response))]\<rparr>)
        = (Inr (200, sample_response\<lparr>tr_idempotent_replay := True\<rparr>), w))"
proof (intro conjI)
  let ?E = "live_env ''billing'' (Inr (OtherOutput ''ok''))"
  show "\<exists>d. create_ticket_endpoint (sample_env ''billing'' (Inr (OtherOutput ''ok''))) (sample_request 1) (Some ''k'')
        (sample_world False) = (Inl (HTTPException 503 d), sample_world False)"
    using only_the_claimant_executes [of "sample_env ''billing'' (Inr (OtherOutput ''ok''))" "sample_world False" "''k''"
        "Inl (IdempotencyBackendUnavailable ''Connection refused'')" "(Map.empty, False)" "sample_request 1"]
    by (auto simp: idem_ok_def claim_or_get_existing_def unreachable_def sample_world_def)
  let ?busy = "[idem_key ''k'' \<mapsto> json_dumps IN_PROGRESS_SENTINEL]"
  have "idem_ok live_redis ?busy" using loads_dumps [OF wf_sentinel] by (auto simp: idem_ok_def split: if_splits)
  moreover have "claim_key ?E ''k'' ?busy = (Inr (Some IN_PROGRESS_SENTINEL), ?busy)"
    by (simp add: claim_or_get_existing_def loads_dumps [OF wf_sentinel] split: json.split)
  moreover have "idem_slot live_redis ?busy ''k'' = Busy" by (simp add: idem_slot_def)
  ultimately show "\<exists>d w. create_ticket_endpoint ?E (sample_request 1) (Some ''k'') (live_world\<lparr>w_redis := ?busy\<rparr>)
        = (Inl (HTTPException 409 d), w)"
    using only_the_claimant_executes [of ?E "live_world\<lparr>w_redis := ?busy\<rparr>" "''k''" "Inr (Some IN_PROGRESS_SENTINEL)" ?busy "sample_request 1"]
    by auto
  let ?v = "JObj (response_fields sample_response)"
  let ?done = "[idem_key ''k'' \<mapsto> json_dumps ?v]"
  have wf: "wf_json ?v" using response_storable [of sample_response] by (simp add: idem_storable_def)
  then have "idem_ok live_redis ?done" by (auto simp: idem_ok_def loads_dumps simp del: json_dumps.simps split: if_splits)
  moreover have "claim_key ?E ''k'' ?done = (Inr (Some ?v), ?done)"
    by (simp add: claim_or_get_existing_def loads_dumps [OF wf] del: json_dumps.simps)
  moreover have "idem_slot live_redis ?done ''k'' = Done ?v"
    using slot_done [OF response_storable [of sample_response]] by (simp add: idem_slot_def del: json_dumps.simps)
  ultimately show "\<exists>w. create_ticket_endpoint ?E (sample_request 1) (Some ''k'') (live_world\<lparr>w_redis := ?done\<rparr>)
        = (Inr (200, sample_response\<lparr>tr_idempotent_replay := True\<rparr>), w)"
    using only_the_claimant_executes [of ?E "live_world\<lparr>w_redis := ?done\<rparr>" "''k''" "Inr (Some ?v)" ?done "sample_request 1"]
    by (auto simp del: json_dumps.simps)
qed

text \<open>
  What may happen after a request with key \<open>k\<close>: more requests with the key, while Redis answers and
  nothing expires, and in between anything that leaves the record of the key as it is: requests with
  other keys or none, changes to the tables, other commands and the expiry of other keys.
\<close>

inductive later :: "'r env \<Rightarrow> string \<Rightarrow> 'r world \<Rightarrow> 'r world \<Rightarrow> bool" for E k w where
  L_Now: "later E k w w"
| L_Request: "later E k w w1 \<Longrightarrow> redis_steady (e_redis E) (w_redis w1) \<Longrightarrow> create_ticket E q (Some k) w1 = (r, w2)
    \<Longrightarrow> later E k w w2"
| L_Other: "later E k w w1 \<Longrightarrow> rc_view (e_redis E) (w_redis w2) (idem_key k) = rc_view (e_redis E) (w_redis w1) (idem_key k)
    \<Longrightarrow> later E k w w2"

text \<open>One replay: it answers from the record, changes no table, and leaves the record.\<close>

lemma replay_keeps_record:
  assumes "redis_steady (e_redis E) (w_redis w)" and "valid_datetime (tr_created_at response)"
    and "rc_view (e_redis E) (w_redis w) (idem_key k) = Some (json_dumps (JObj (response_fields response)))"
  obtains w2 where "create_ticket E q (Some k) w = (Inr (response\<lparr>tr_idempotent_replay := True\<rparr>), w2)"
    "w_db w2 = w_db w" "rc_view (e_redis E) (w_redis w2) = rc_view (e_redis E) (w_redis w)"
proof -
  have "wf_json (JObj (response_fields response))" using response_storable by (simp add: idem_storable_def)
  then have parse: "json_loads (json_dumps (JObj (response_fields response))) = Inr (JObj (response_fields response))"
    by (rule loads_dumps)
  obtain r2 where claim: "claim_key E k (w_redis w) = (Inr (Some (JObj (response_fields response))), r2)"
    and view: "rc_view (e_redis E) r2 = rc_view (e_redis E) (w_redis w)"
    using claim_done [OF assms(1,3) parse json.distinct(11) [symmetric]] by metis
  have "create_ticket E q (Some k) w = (Inr (response\<lparr>tr_idempotent_replay := True\<rparr>), w\<lparr>w_redis := r2\<rparr>)"
    using create_ticket_existing [OF claim] existing_response [OF assms(2)] by simp
  with view show thesis by (intro that [of "w\<lparr>w_redis := r2\<rparr>"]) simp_all
qed

lemma later_keeps_record:
  assumes "later E k w w'" and "valid_datetime (tr_created_at response)"
    and "rc_view (e_redis E) (w_redis w) (idem_key k) = Some (json_dumps (JObj (response_fields response)))"
  shows "rc_view (e_redis E) (w_redis w') (idem_key k) = Some (json_dumps (JObj (response_fields response)))"
  using assms(1)
proof (induction rule: later.induct)
  case L_Now
  show ?case by (rule assms(3))
next
  case (L_Request w1 q r w2)
  obtain w3 where "create_ticket E q (Some k) w1 = (Inr (response\<lparr>tr_idempotent_replay := True\<rparr>), w3)"
    and "rc_view (e_redis E) (w_redis w3) = rc_view (e_redis E) (w_redis w1)"
    using replay_keeps_record [OF L_Request(2) assms(2) L_Request(4)] by metis
  with L_Request(3,4) show ?case by simp
next
  case (L_Other w1 w2)
  then show ?case by simp
qed

text \<open>What a request that executed and completed leaves under its key.\<close>

lemma completed_record:
  assumes "redis_laws (e_redis E)"
    and "create_ticket E q (Some k) w = (Inr response, w1)" and "\<not> tr_idempotent_replay response"
  shows "rc_view (e_redis E) (w_redis w1) (idem_key k) = Some (json_dumps (JObj (response_fields response)))"
proof -
  obtain a r0 where claim: "claim_key E k (w_redis w) = (a, r0)" by fastforce
  have "a = Inr None"
  proof (rule ccontr)
    assume "a \<noteq> Inr None"
    moreover have False if "a = Inl e" for e
      using create_ticket_unclaimed [of E k w e r0 q] claim that assms(2) by simp
    moreover have False if "a = Inr (Some v)" for v
      using create_ticket_existing [of E k w v r0 q] claim that assms(2,3) existing_is_replay [of k v response] by simp
    ultimately show False by (cases a) auto
  qed
  with claim assms(2) have body: "claimed_body E q k (w\<lparr>w_redis := r0\<rparr>) = (Inr response, w1)"
    by (simp add: create_ticket_claimed)
  then obtain w' where comp: "on_redis (idem_complete (e_redis E) (idem_ttl E) k (JObj (response_fields response))) w' = (Inr (), w1)"
    unfolding claimed_body_def
    by (auto simp: bind_def catch_def split: prod.splits sum.splits)
  obtain b r1 where set: "rc_set (e_redis E) (idem_key k) (json_dumps (JObj (response_fields response))) (idem_ttl E)
      (w_redis w') = (b, r1)" by fastforce
  show ?thesis
    using rc_set_cases [OF assms(1) set]
    by cases (use comp set in \<open>auto simp: on_redis_def idem_complete_def\<close>)
qed

text \<open>C7: a completed request is replayed. Once a request with a key has been answered with a ticket of its
  own (not itself a replay), every later request with that key, the first as well as any after it and
  whatever its payload, is answered with the same response marked as a replay, changes no table, and leaves
  the record of the key for the next one; while Redis answers and the record has not expired.\<close>

theorem completed_request_is_replayed:
  assumes "redis_laws (e_redis E)"
    and "create_ticket E q (Some k) w = (Inr response, w1)" and "\<not> tr_idempotent_replay response"
    and "valid_datetime (tr_created_at response)"
    and "later E k w1 w2" and "redis_steady (e_redis E) (w_redis w2)"
  shows "\<exists>w3. create_ticket E q' (Some k) w2 = (Inr (response\<lparr>tr_idempotent_replay := True\<rparr>), w3) \<and> w_db w3 = w_db w2
    \<and> idem_slot (e_redis E) (w_redis w3) k = Done (JObj (response_fields response)) \<and> later E k w1 w3"
proof -
  note kept = later_keeps_record [OF assms(5,4) completed_record [OF assms(1-3)]]
  obtain w3 where replay: "create_ticket E q' (Some k) w2 = (Inr (response\<lparr>tr_idempotent_replay := True\<rparr>), w3)"
    "w_db w3 = w_db w2" and view: "rc_view (e_redis E) (w_redis w3) = rc_view (e_redis E) (w_redis w2)"
    using replay_keeps_record [OF assms(6,4) kept] .
  have "idem_slot (e_redis E) (w_redis w3) k = Done (JObj (response_fields response))"
    using kept slot_done [OF response_storable] by (simp add: view idem_slot_def)
  moreover have "later E k w1 w3" by (rule L_Request [OF assms(5,6) replay(1)])
  ultimately show ?thesis using replay by blast
qed

end
