(* ===== verification/Witnesses.thy ===== *)
theory Witnesses
  imports Ticket_Creation Workflow_Typing
begin

section \<open>Witnesses\<close>

text \<open>
  Concrete inputs at which the hypotheses of the components' properties hold together, on the
  environment of the theory \<open>Samples\<close>.
\<close>

definition sample_approval :: "uuid \<Rightarrow> nat \<Rightarrow> approval_status \<Rightarrow> approval_row" where
  "sample_approval i day st = \<lparr>ap_id = i, ap_ticket_id = 3, ap_requested_by = None, ap_approved_by = None,
     ap_status = st, ap_comments = None, ap_requested_at = DateTime 2026 7 day 0 0 0 0, ap_decided_at = None,
     ap_draft_response = ''draft'', ap_retrieved_context = None, ap_selected_agent = ''billing_agent'',
     ap_matched_policy_rules = [''refund'']\<rparr>"

definition sample_queue_db :: database where
  "sample_queue_db = sample_db\<lparr>db_approvals :=
     [sample_approval 12 9 AS_PENDING, sample_approval 13 5 AS_PENDING, sample_approval 14 7 AS_REJECTED]\<rparr>"

definition sample_session :: "database \<Rightarrow> session_state" where
  "sample_session db = \<lparr>ss_work = db, ss_saved = db\<rparr>"

lemma sample_select [simp]: "db_select sample_db_env f ss = (Inr (f (ss_work ss)), ss)"
  by (simp add: db_select_def sample_db_env_def)

abbreviation crash_env :: "mem_state env" where
  "crash_env \<equiv> sample_env ''technical'' (Inr (CrewOutput (Some \<lparr>ato_response = ''Restart it'', ato_unresolved = False\<rparr>) ''x''))"

theorem kb_run_transparent_witness:
  "\<exists>a w'. kb_run crash_env ''technical'' ''crash'' (sample_world True) = (Inr a, w') \<and> w_db w' = w_db (sample_world True)
    \<and> kb_cache_ok crash_env UNIV w'
    \<and> (a = kb_answer (e_db crash_env) (w_db (sample_world True)) ''technical'' ''crash''
       \<or> (a = UNAVAILABLE_MESSAGE \<and> d_fault (e_db crash_env) DbSelect (w_db (sample_world True)) \<noteq> None))"
  by (rule kb_run_transparent) simp_all


theorem classify_ticket_sound_witness:
  "\<exists>c w'. classify_ticket crash_env ''App  CRASH'' (sample_world False) = (Inr c, w')
     \<and> w_db w' = w_db (sample_world False) \<and> cls_cache_ok crash_env UNIV w'
     \<and> ((\<exists>u. normalize_text u = normalize_text ''App  CRASH'' \<and> openai_category crash_env u = Some c)
         \<or> (c = GENERAL \<and> openai_category crash_env ''App  CRASH'' = None))"
  by (rule classify_ticket_sound) simp_all

text \<open>An environment without an API key: the OpenAI client refuses to be constructed.\<close>

definition no_key_error :: exc where
  "no_key_error = OtherExc ''The api_key client option must be set''"

definition no_key_env :: "mem_state env" where
  "no_key_env = crash_env\<lparr>e_openai_new := (\<lambda>key timeout. if key = None then Some no_key_error else None)\<rparr>"

lemma no_key_env_sel [simp]:
  "e_redis no_key_env = mem_redis" "e_db no_key_env = sample_db_env" "e_sha256 no_key_env = (\<lambda>t. t)"
  "e_settings no_key_env = default_settings"
  "e_openai_new no_key_env None timeout = Some no_key_error"
  by (simp_all add: no_key_env_def)

lemma default_key [simp]: "or_none (openai_api_key default_settings) = None"
  by (simp add: or_none_def default_settings_def)

lemma classify_ticket_without_a_key:
  "classify_ticket no_key_env ''hi'' (sample_world True) = (Inl no_key_error, sample_world True)"
  by (rule classify_ticket_raises_on_client_error)
     (simp_all add: cls_get_cached_def on_redis_def cache_get_def sample_world_def)

text \<open>A ticket whose checkpoint is of an earlier stage.\<close>

theorem checkpoint_roundtrip_witness:
  "\<exists>r' r''. checkpoint_save mem_redis 3600 sample_time 3 ''classification'' (JObj [(''category'', JStr ''billing'')])
       ([checkpoint_key 3 \<mapsto> ''{}''], True) = (Inr (), r')
    \<and> checkpoint_get_latest mem_redis 3 r' =
      (Inr (Some \<lparr>cp_ticket_id = 3, cp_stage = JStr ''classification'',
         cp_snapshot = JObj [(''category'', JStr ''billing'')], cp_saved_at = sample_time\<rparr>), r'')"
proof -
  let ?snap = "JObj [(''category'', JStr ''billing'')]" and ?r = "([checkpoint_key 3 \<mapsto> ''{}''], True)"
  let ?text = "json_dumps (checkpoint_payload ''classification'' ?snap sample_time)"
  have save: "checkpoint_save mem_redis 3600 sample_time 3 ''classification'' ?snap ?r =
      (Inr (), ([checkpoint_key 3 \<mapsto> ?text], True))"
    by (simp add: checkpoint_save_def del: json_dumps.simps)
  have "redis_answers mem_redis ([checkpoint_key 3 \<mapsto> ?text], True)"
    by (simp add: redis_answers_def del: json_dumps.simps)
  moreover have "valid_datetime sample_time" "wf_json ?snap" by (simp_all add: sample_time_def)
  ultimately show ?thesis using checkpoint_roundtrip [OF _ _ _ save] save
    by (simp del: json_dumps.simps)
qed

theorem workflow_is_well_typed_witness:
  "\<exists>s'. fst (invoke crash_env (sample_state ''hello'') (sample_world True)) = Inr s' \<and> required_part s' = (3, 1, ''hello'')
     \<and> (\<forall>k. present s' k)"
proof -
  obtain s' w' where s': "invoke crash_env (sample_state ''hello'') (sample_world True) = (Inr s', w')"
    using invoke_returns [of crash_env] by fastforce
  have "redis_laws (e_redis crash_env)" by simp
  from workflow_is_well_typed [OF this, of "sample_state ''hello''" "sample_world True", THEN conjunct2] s' show ?thesis
    by (auto simp: required_part_def) (simp add: sample_state_def)
qed

theorem workflow_terminates_witness:
  "\<exists>s' w'. \<forall>n \<ge> 7. graph_run n (build_workflow crash_env) START (sample_state ''hello'') (sample_world True) = (Inr s', w')"
  using workflow_terminates [of crash_env] by simp

end
