(* ===== verification/Ticket_Outcomes.thy ===== *)
theory Ticket_Outcomes
  imports Ticket_Creation
begin

section \<open>Ticket creation from end to end\<close>

text \<open>
  The outcomes of \<open>create_ticket\<close> as a whole: what a successful request answers and stores, what an
  unknown customer leaves behind, and the two outcomes in which the answer is an error although the
  ticket is in the tables. \<open>keyless_env\<close> of the witnesses has no API key, and \<open>no_set_redis\<close> refuses
  every \<open>SET\<close> (a server that has run out of memory).
\<close>

subsection \<open>Success\<close>

text \<open>The engine does not fail, the customer exists, and the generated keys are fresh.\<close>

definition creation_ready :: "db_env \<Rightarrow> ticket_create_request \<Rightarrow> database \<Rightarrow> bool" where
  "creation_ready D q db \<longleftrightarrow> no_faults D \<and> valid_request q \<and> tq_customer_id q \<in> set (customer_ids db)
     \<and> d_new_id D db \<notin> set (ticket_ids db)
     \<and> (\<forall>db'. d_new_id D db' \<notin> ap_id ` set (db_approvals db))
     \<and> (\<forall>db'. d_new_id D db' \<notin> al_id ` set (db_audit_logs db))"

lemma creation_ready_queue:
  "creation_ready D q db \<Longrightarrow> queue_ready D (d_new_id D db) (with_new_ticket D q db)"
  by (simp add: creation_ready_def queue_ready_def with_new_ticket_def new_ticket_def ticket_ids_def)

lemma new_ticket_id [simp]: "tk_id (new_ticket D q db) = d_new_id D db"
  by (simp add: new_ticket_def)

lemma initial_state_id [simp]: "ws_ticket_id (initial_state q i) = i"
  by (simp add: initial_state_def)

text \<open>The answer to a request, from the category and the agent's result.\<close>

abbreviation final_state :: "ticket_create_request \<Rightarrow> uuid \<Rightarrow> ticket_category \<Rightarrow> agent_result \<Rightarrow> workflow_state" where
  "final_state q i c r \<equiv> (evaluated_state (initial_state q i) c r)\<lparr>ws_workflow_status := Some WS_COMPLETED\<rparr>"

lemma execute_ticket_ok:
  assumes R: "redis_laws (e_redis E)" and ok: "clients_ok E" and law: "kickoff_law E T"
    and ready: "creation_ready (e_db E) q (w_db w)"
  obtains c r w' where
    "execute_ticket E q w = (Inr (response_of_state q (new_ticket (e_db E) q (w_db w))
        (final_state q (d_new_id (e_db E) (w_db w)) c r)), w')"
    "w_db w' = (let s = evaluated_state (initial_state q (d_new_id (e_db E) (w_db w))) c r;
                    db = with_new_ticket (e_db E) q (w_db w)
                in if the (ws_requires_human_review s) then with_event (e_db E) s (with_review (e_db E) s db) else db)"
    "only_ns workflow_ns (e_redis E) (w_redis w) (w_redis w')"
proof -
  let ?D = "e_db E" and ?i = "d_new_id (e_db E) (w_db w)" and ?s = "initial_state q (d_new_id (e_db E) (w_db w))"
  let ?w = "w\<lparr>w_db := with_new_ticket ?D q (w_db w)\<rparr>"
  have ins: "with_session (insert_ticket_session ?D q) (w_db w) =
      (Inr (new_ticket ?D q (w_db w)), with_new_ticket ?D q (w_db w))"
    by (rule insert_session_ok) (use ready in \<open>simp_all add: creation_ready_def\<close>)
  obtain c r w' where
    inv: "invoke E ?s ?w = (Inr ((evaluated_state ?s c r)\<lparr>ws_workflow_status := Some WS_COMPLETED\<rparr>), w')"
    and ns: "only_ns workflow_ns (e_redis E) (w_redis ?w) (w_redis w')"
    and db: "if the (ws_requires_human_review (evaluated_state ?s c r))
     then w_db w' \<in> {w_db ?w, with_review ?D (evaluated_state ?s c r) (w_db ?w),
        with_event ?D (evaluated_state ?s c r) (with_review ?D (evaluated_state ?s c r) (w_db ?w))}
     else w_db w' = w_db ?w"
    and queue: "the (ws_requires_human_review (evaluated_state ?s c r)) \<Longrightarrow> queue_ready ?D (ws_ticket_id ?s) (w_db ?w) \<Longrightarrow>
      w_db w' = with_event ?D (evaluated_state ?s c r) (with_review ?D (evaluated_state ?s c r) (w_db ?w))"
    using invoke_outcome [OF R ok law, of ?s ?w] by metis
  have "execute_ticket E q w = (Inr (response_of_state q (new_ticket ?D q (w_db w)) (final_state q ?i c r)), w')"
    using inv by (simp add: execute_ticket_def bind_def on_db_def ins)
  moreover have "w_db w' = (let s = evaluated_state ?s c r; db = with_new_ticket ?D q (w_db w)
      in if the (ws_requires_human_review s) then with_event ?D s (with_review ?D s db) else db)"
    using db queue creation_ready_queue [OF ready] by (auto simp: Let_def)
  ultimately show thesis using that ns by simp
qed

lemma execute_ticket_answers:
  assumes "redis_laws (e_redis E)" "clients_ok E" "kickoff_law E T" "creation_ready (e_db E) q (w_db w)"
  shows "\<exists>c r w'. execute_ticket E q w = (Inr (response_of_state q (new_ticket (e_db E) q (w_db w))
      (final_state q (d_new_id (e_db E) (w_db w)) c r)), w')"
  using execute_ticket_ok [OF assms] by metis

text \<open>
  A request that is not the repetition of an earlier one: it has no key, or a key that its claim gets, and
  then Redis also takes the response.
\<close>

definition key_ready :: "'r env \<Rightarrow> string option \<Rightarrow> 'r world \<Rightarrow> bool" where
  "key_ready E key w \<longleftrightarrow> (case key of None \<Rightarrow> True
     | Some k \<Rightarrow> fst (claim_or_get_existing (e_redis E) (idem_ttl E) k (w_redis w)) = Inr None
         \<and> (\<forall>v r. fst (rc_set (e_redis E) (idem_key k) v (idem_ttl E) r) = Inr ()))"

lemma endpoint_executes:
  assumes "key_ready E key w"
  obtains w0 where "w_db w0 = w_db w"
    "\<And>response w1. execute_ticket E q w0 = (Inr response, w1) \<Longrightarrow> \<not> tr_idempotent_replay response \<Longrightarrow>
       \<exists>w2. create_ticket_endpoint E q key w = (Inr (201, response), w2) \<and> w_db w2 = w_db w1"
proof (cases key)
  case None
  then show thesis
    by (intro that [of w]) (simp_all add: create_ticket_endpoint_def create_ticket_def catch_def bind_def)
next
  case (Some k)
  with assms obtain r1 where claim: "claim_key E k (w_redis w) = (Inr None, r1)"
    by (auto simp: key_ready_def prod_eq_iff intro: that)
  have "\<exists>w2. create_ticket_endpoint E q key w = (Inr (201, response), w2) \<and> w_db w2 = w_db w1"
    if ex: "execute_ticket E q (w\<lparr>w_redis := r1\<rparr>) = (Inr response, w1)" "\<not> tr_idempotent_replay response" for response w1
  proof -
    obtain r2 where "rc_set (e_redis E) (idem_key k) (json_dumps (JObj (response_fields response))) (idem_ttl E) (w_redis w1)
        = (Inr (), r2)" using assms Some by (auto simp: key_ready_def prod_eq_iff)
    then have "create_ticket E q key w = (Inr response, w1\<lparr>w_redis := r2\<rparr>)"
      using ex(1) Some by (simp add: create_ticket_claimed [OF claim] claimed_body_def catch_def bind_def on_redis_def
          idem_complete_def del: json_dumps.simps)
    then show ?thesis using ex(2) by (simp add: create_ticket_endpoint_def catch_def bind_def)
  qed
  then show thesis by (intro that [of "w\<lparr>w_redis := r1\<rparr>"]) simp_all
qed

lemma creation_outcome:
  assumes "redis_laws (e_redis E)" and "clients_ok E" and "kickoff_law E T"
    and "creation_ready (e_db E) q (w_db w)" and "key_ready E key w"
  shows "\<exists>response w' t. create_ticket_endpoint E q key w = (Inr (201, response), w')
    \<and> db_users (w_db w') = db_users (w_db w) \<and> db_tickets (w_db w') = db_tickets (w_db w) @ [t]
    \<and> tk_id t = tr_ticket_id response \<and> tk_customer_id t = tq_customer_id q \<and> tk_status t = TS_NEW
    \<and> tk_subject t = tq_subject q \<and> tk_description t = tq_description q \<and> tk_priority t = tq_priority q
    \<and> (\<exists>u p. evaluate_policy (tq_subject q @ [nl, nl] @ tq_description q) PLACEHOLDER_CONFIDENCE_SCORE u = Inr p
         \<and> tr_requires_human_review response = requires_human_review p \<and> tr_matched_policy_rules response = matched_rules p)
    \<and> (if tr_requires_human_review response
       then \<exists>a. db_approvals (w_db w') = db_approvals (w_db w) @ [a] \<and> ap_status a = AS_PENDING
          \<and> ap_ticket_id a = tr_ticket_id response \<and> ap_draft_response a = tr_draft_response response
          \<and> ap_matched_policy_rules a = tr_matched_policy_rules response
       else db_approvals (w_db w') = db_approvals (w_db w))"
proof -
  let ?D = "e_db E" and ?i = "d_new_id (e_db E) (w_db w)" and ?t = "new_ticket (e_db E) q (w_db w)"
  obtain w0 where w0: "w_db w0 = w_db w"
    and answer: "\<And>response w1. execute_ticket E q w0 = (Inr response, w1) \<Longrightarrow> \<not> tr_idempotent_replay response \<Longrightarrow>
       \<exists>w2. create_ticket_endpoint E q key w = (Inr (201, response), w2) \<and> w_db w2 = w_db w1"
    using endpoint_executes [OF assms(5), of q] by metis
  obtain c r w1 where ex: "execute_ticket E q w0 = (Inr (response_of_state q ?t (final_state q ?i c r)), w1)"
    and db1: "w_db w1 = (let s = evaluated_state (initial_state q ?i) c r; db = with_new_ticket ?D q (w_db w)
                in if the (ws_requires_human_review s) then with_event ?D s (with_review ?D s db) else db)"
    using execute_ticket_ok [OF assms(1-3), of q w0] assms(4) unfolding w0 by metis
  let ?r = "response_of_state q ?t (final_state q ?i c r)"
  obtain w' where post: "create_ticket_endpoint E q key w = (Inr (201, ?r), w')" and "w_db w' = w_db w1"
    using answer [OF ex] by (auto simp: response_of_state_def)
  with db1 have db: "w_db w' = (let s = evaluated_state (initial_state q ?i) c r; db = with_new_ticket ?D q (w_db w)
                in if the (ws_requires_human_review s) then with_event ?D s (with_review ?D s db) else db)" by simp
  note post
  moreover have "db_users (w_db w') = db_users (w_db w)"
    unfolding db by (simp add: Let_def with_event_def with_review_def with_new_ticket_def)
  moreover have "db_tickets (w_db w') = db_tickets (w_db w) @ [?t]"
    unfolding db by (simp add: Let_def with_event_def with_review_def with_new_ticket_def)
  moreover have "tk_id ?t = tr_ticket_id ?r \<and> tk_customer_id ?t = tq_customer_id q \<and> tk_status ?t = TS_NEW
    \<and> tk_subject ?t = tq_subject q \<and> tk_description ?t = tq_description q \<and> tk_priority ?t = tq_priority q"
    by (simp add: response_of_state_def) (simp add: new_ticket_def)
  moreover have "\<exists>u p. evaluate_policy (tq_subject q @ [nl, nl] @ tq_description q) PLACEHOLDER_CONFIDENCE_SCORE u = Inr p
         \<and> tr_requires_human_review ?r = requires_human_review p \<and> tr_matched_policy_rules ?r = matched_rules p"
    unfolding evaluate_policy_eq
    by (intro exI [of _ "r_unresolved r"]) (simp add: response_of_state_def get_or_def initial_state_def)
  moreover have "if tr_requires_human_review ?r
       then \<exists>a. db_approvals (w_db w') = db_approvals (w_db w) @ [a] \<and> ap_status a = AS_PENDING
          \<and> ap_ticket_id a = tr_ticket_id ?r \<and> ap_draft_response a = tr_draft_response ?r
          \<and> ap_matched_policy_rules a = tr_matched_policy_rules ?r
       else db_approvals (w_db w') = db_approvals (w_db w)"
    unfolding db by (simp add: Let_def with_event_def with_review_def with_new_ticket_def review_row_def
        response_of_state_def get_or_def)
  ultimately show ?thesis by blast
qed

lemma sample_creation_ready [simp]: "creation_ready sample_db_env (sample_request 1) sample_db"
  by (simp add: creation_ready_def sample_request_def valid_request_def sample_db_def id_lists sample_rows)
     (simp add: sample_db_env_def)

subsection \<open>Unknown customers\<close>

lemma release_frees:
  assumes "redis_laws R" and "fst (rc_delete R (idem_key k) r) = Inr ()"
  obtains r' where "idem_release R k r = (Inr (), r')" "idem_slot R r' k = Free"
proof -
  obtain r' where d: "rc_delete R (idem_key k) r = (Inr (), r')" using assms(2) by (metis prod.collapse)
  then have "rc_view R r' \<subseteq>\<^sub>m (rc_view R r)(idem_key k := None)"
    using rc_delete_cases [OF assms(1) d] by auto
  then have "rc_view R r' (idem_key k) = None"
    by (metis fun_upd_same map_le_SomeD option.distinct(1) option.exhaust)
  with d show thesis by (intro that [of r']) (simp_all add: idem_release_def idem_slot_def slot_of_raw_def)
qed

text \<open>C33: an unknown customer. A request whose customer is not in the table is answered 404, changes no
  table, and gives its key back when Redis answers the deletion, so the client may correct the
  request and send it again under the same key.\<close>

theorem unknown_customer_changes_nothing:
  assumes "redis_laws (e_redis E)" and "claim_key E k (w_redis w) = (Inr None, r)"
    and "d_fault (e_db E) DbSelect (w_db w) = None" and "tq_customer_id q \<notin> set (customer_ids (w_db w))"
    and "fst (rc_delete (e_redis E) (idem_key k) r) = Inr ()"
  shows "\<exists>w' d. create_ticket_endpoint E q (Some k) w = (Inl (HTTPException 404 d), w')
    \<and> w_db w' = w_db w \<and> idem_slot (e_redis E) (w_redis w') k = Free"
proof -
  obtain r' where rel: "idem_release (e_redis E) k r = (Inr (), r')" and free: "idem_slot (e_redis E) r' k = Free"
    using release_frees [OF assms(1,5)] .
  have "create_ticket E q (Some k) w = (Inl (CustomerNotFound (uuid_str (tq_customer_id q))), w\<lparr>w_redis := r'\<rparr>)"
    using insert_session_missing [OF assms(3,4)] rel
    by (simp add: create_ticket_claimed [OF assms(2)] claimed_body_def execute_ticket_def bind_def catch_def
        on_db_def on_redis_def)
  then show ?thesis using free by (simp add: create_ticket_endpoint_def catch_def bind_def)
qed

theorem unknown_customer_changes_nothing_witness:
  "\<exists>w' d. create_ticket_endpoint (live_env ''billing'' (Inr (OtherOutput ''ok''))) (sample_request 7) (Some ''k'') live_world
      = (Inl (HTTPException 404 d), w') \<and> w_db w' = sample_db \<and> idem_slot live_redis (w_redis w') ''k'' = Free"
  using unknown_customer_changes_nothing [of "live_env ''billing'' (Inr (OtherOutput ''ok''))" "''k''" live_world
      "[idem_key ''k'' \<mapsto> json_dumps IN_PROGRESS_SENTINEL]" "sample_request 7"]
  by (simp add: claim_or_get_existing_def sample_db_env_def sample_request_def sample_db_def id_lists sample_rows)

subsection \<open>Failures after the ticket was stored\<close>

lemma invoke_grows:
  assumes "redis_laws (e_redis E)" "kickoff_law E T" "invoke E s w = (a, w')"
  shows "grows (w_db w) (w_db w')"
  using stepsD [OF steps_invoke [OF assms(1,2), of grows] assms(3)] insert_approval_grows
    audit_only_grows [OF insert_audit_only]
  by (simp add: world_rel_def)

lemma grows_tickets: "grows db db' \<Longrightarrow> t \<in> set (db_tickets db) \<Longrightarrow> t \<in> set (db_tickets db')"
  by (auto simp: grows_def)

lemma claim_free:
  assumes "redis_steady R r" "idem_slot R r k = Free"
  shows "\<exists>r'. claim_or_get_existing R ttl k r = (Inr None, r')"
proof -
  have "rc_view R r (idem_key k) = None"
    using assms(2) by (cases "rc_view R r (idem_key k)")
      (auto simp: idem_slot_def slot_of_raw_def split: sum.splits if_splits)
  then obtain r' where "rc_set_nx R (idem_key k) (json_dumps IN_PROGRESS_SENTINEL) ttl r = (Inr True, r')"
    using assms(1) unfolding redis_steady_def by (metis (full_types))
  then show ?thesis by (simp add: claim_or_get_existing_def)
qed

lemma claimed_body_db:
  assumes "execute_ticket E q w = (x, w1)" and "claimed_body E q k w = (r, w')"
  shows "w_db w' = w_db w1 \<and> (\<forall>response. r = Inr response \<longrightarrow> x = Inr response)"
  using assms
  by (cases x) (auto simp: claimed_body_def bind_def catch_def on_redis_def split: prod.splits sum.splits)

text \<open>A request that claims its key stores the ticket that the table accepts, however it ends.\<close>

lemma claimed_stores_ticket:
  assumes "redis_laws (e_redis E)" "kickoff_law E T"
    and "with_session (insert_ticket_session (e_db E) q) (w_db w) = (Inr t, db)" "claimed_body E q k w = (r, w')"
  shows "grows db (w_db w') \<and> (\<forall>response. r = Inr response \<longrightarrow> tr_ticket_id response = tk_id t)"
proof -
  obtain a w1 where inv: "invoke E (initial_state q (tk_id t)) (w\<lparr>w_db := db\<rparr>) = (a, w1)" by fastforce
  have ex: "execute_ticket E q w = (case a of Inl e \<Rightarrow> Inl e | Inr s \<Rightarrow> Inr (response_of_state q t s), w1)"
    using assms(3) inv by (simp add: execute_ticket_def bind_def on_db_def split: sum.split)
  from claimed_body_db [OF ex assms(4)] invoke_grows [OF assms(1,2) inv] show ?thesis
    by (auto simp: response_of_state_def split: sum.splits)
qed

text \<open>C34: a run that fails after the ticket was committed. When the workflow raises, the request fails with
  that exception and the key is given back, but the ticket stays in the table. So a retry with the same
  key, which Redis answers and whose insertion the database accepts, claims the key again and, however it ends, stores a second
  ticket of the same request beside the first, with another id: the one a successful retry answers with.
  The retry may run in another environment \<open>E'\<close> (say, after the API key was configured).\<close>

theorem failed_run_keeps_ticket_and_frees_key:
  assumes "redis_laws (e_redis E)" and "kickoff_law E T" and "claim_key E k (w_redis w) = (Inr None, r)"
    and "with_session (insert_ticket_session (e_db E) q) (w_db w) = (Inr t, db)"
    and "invoke E (initial_state q (tk_id t)) (w\<lparr>w_redis := r, w_db := db\<rparr>) = (Inl e, w2)"
    and "fst (rc_delete (e_redis E) (idem_key k) (w_redis w2)) = Inr ()"
    and "e_redis E' = e_redis E" and "kickoff_law E' T'"
  shows "\<exists>w3. create_ticket E q (Some k) w = (Inl e, w3)
    \<and> t \<notin> set (db_tickets (w_db w)) \<and> t \<in> set (db_tickets (w_db w3)) \<and> idem_slot (e_redis E) (w_redis w3) k = Free
    \<and> (\<forall>t2 db2. redis_steady (e_redis E) (w_redis w3) \<longrightarrow>
        with_session (insert_ticket_session (e_db E') q) (w_db w3) = (Inr t2, db2) \<longrightarrow>
        (\<exists>r4 w4. create_ticket E' q (Some k) w3 = (r4, w4)
          \<and> t \<in> set (db_tickets (w_db w4)) \<and> t2 \<in> set (db_tickets (w_db w4)) \<and> tk_id t2 \<noteq> tk_id t
          \<and> tk_customer_id t2 = tk_customer_id t \<and> tk_subject t2 = tk_subject t
          \<and> tk_description t2 = tk_description t \<and> tk_priority t2 = tk_priority t
          \<and> (\<forall>response. r4 = Inr response \<longrightarrow> tr_ticket_id response = tk_id t2)))"
proof -
  obtain r' where rel: "idem_release (e_redis E) k (w_redis w2) = (Inr (), r')" and free: "idem_slot (e_redis E) r' k = Free"
    using release_frees [OF assms(1,6)] .
  let ?w3 = "w2\<lparr>w_redis := r'\<rparr>"
  have stored: "t = new_ticket (e_db E) q (w_db w)" "db = with_new_ticket (e_db E) q (w_db w)"
    "insert_ticket t (w_db w) = Inr db"
    using insert_session_cases [OF assms(4)] by auto
  then have "t \<in> set (db_tickets db)" by (simp add: with_new_ticket_def)
  then have kept: "t \<in> set (db_tickets (w_db ?w3))"
    using grows_tickets [OF invoke_grows [OF assms(1,2,5)]] by simp
  have fresh: "t \<notin> set (db_tickets (w_db w))"
    using stored(3) by (auto simp: insert_ticket_def ticket_ids_def split: if_splits)
  have fails: "create_ticket E q (Some k) w = (Inl e, ?w3)"
    using assms(4,5) rel
    by (simp add: create_ticket_claimed [OF assms(3)] claimed_body_def execute_ticket_def bind_def catch_def
        on_db_def on_redis_def)
  have retry: "\<exists>r4 w4. create_ticket E' q (Some k) ?w3 = (r4, w4)
          \<and> t \<in> set (db_tickets (w_db w4)) \<and> t2 \<in> set (db_tickets (w_db w4)) \<and> tk_id t2 \<noteq> tk_id t
          \<and> tk_customer_id t2 = tk_customer_id t \<and> tk_subject t2 = tk_subject t
          \<and> tk_description t2 = tk_description t \<and> tk_priority t2 = tk_priority t
          \<and> (\<forall>response. r4 = Inr response \<longrightarrow> tr_ticket_id response = tk_id t2)"
    if steady: "redis_steady (e_redis E) (w_redis ?w3)"
      and ins: "with_session (insert_ticket_session (e_db E') q) (w_db ?w3) = (Inr t2, db2)" for t2 db2
  proof -
    obtain r4 where "claim_key E' k (w_redis ?w3) = (Inr None, r4)"
      using claim_free [OF steady, of k "idem_ttl E'"] free assms(7) by auto
    note claimed = create_ticket_claimed [OF this]
    obtain a w4 where body: "claimed_body E' q k (?w3\<lparr>w_redis := r4\<rparr>) = (a, w4)" by fastforce
    have ins': "with_session (insert_ticket_session (e_db E') q) (w_db (?w3\<lparr>w_redis := r4\<rparr>)) = (Inr t2, db2)"
      using ins by simp
    have laws: "redis_laws (e_redis E')" using assms(1,7) by simp
    from claimed_stores_ticket [OF laws assms(8) ins' body]
    have grown: "grows db2 (w_db w4)" and answer: "\<forall>response. a = Inr response \<longrightarrow> tr_ticket_id response = tk_id t2"
      by auto
    have second: "t2 = new_ticket (e_db E') q (w_db ?w3)" "db2 = with_new_ticket (e_db E') q (w_db ?w3)"
      "insert_ticket t2 (w_db ?w3) = Inr db2"
      using insert_session_cases [OF ins] by auto
    have "tk_id t2 \<notin> set (ticket_ids (w_db ?w3))" using second(3) by (auto simp: insert_ticket_def split: if_splits)
    with kept have "tk_id t2 \<noteq> tk_id t" by (auto simp: ticket_ids_def)
    moreover have "t \<in> set (db_tickets db2)" "t2 \<in> set (db_tickets db2)"
      using kept second(1,2) by (simp_all add: with_new_ticket_def)
    moreover have "tk_customer_id t2 = tk_customer_id t" "tk_subject t2 = tk_subject t"
      "tk_description t2 = tk_description t" "tk_priority t2 = tk_priority t"
      using stored(1) second(1) by (simp_all add: new_ticket_def)
    ultimately show ?thesis using claimed [of q] body grows_tickets [OF grown] answer by auto
  qed
  show ?thesis using fails fresh kept free retry by (intro exI [of _ ?w3] conjI allI impI) simp_all
qed

text \<open>The environment without an API key: constructing the OpenAI client raises.\<close>

definition keyless_env :: "(string \<rightharpoonup> string) env" where
  "keyless_env = (live_env ''billing'' (Inr (OtherOutput ''ok'')))\<lparr>e_openai_new := (\<lambda>key timeout. Some (OtherExc ''no key''))\<rparr>"

lemma keyless_sel [simp]:
  "e_redis keyless_env = live_redis" "e_db keyless_env = sample_db_env" "e_sha256 keyless_env = (\<lambda>t. t)"
  "e_settings keyless_env = default_settings" "e_openai_new keyless_env key timeout = Some (OtherExc ''no key'')"
  "e_kickoff keyless_env = (\<lambda>task w. (Inr (OtherOutput ''ok''), w))"
  by (simp_all add: keyless_env_def)

lemma keyless_invoke:
  assumes "w_redis w (cls_key keyless_env (ws_ticket_text s)) = None"
  shows "invoke keyless_env s w = (Inl (OtherExc ''no key''), w)"
proof -
  have "classify_ticket keyless_env t w = (Inl (OtherExc ''no key''), w)"
    if "w_redis w (cls_key keyless_env t) = None" for t
    using that by (simp add: classify_ticket_def cls_get_cached_def cache_get_def on_redis_def bind_def Let_def check_def)
  then have "classify_ticket_node keyless_env s w = (Inl (OtherExc ''no key''), w)"
    unfolding classify_ticket_node_def by (intro checkpointed_Inl) (simp add: bind_def assms)
  then show ?thesis
    unfolding invoke_eq by (simp add: then_node_def load_ticket_node_def bind_def merge_update_def)
qed

lemma keyless_kickoff_law [simp]: "kickoff_law keyless_env T"
  unfolding kickoff_law_def by (auto simp: after_searches_def intro: exI [of _ "[]"])

text \<open>The first request runs without an API key, its repetition with one: two tickets for one request.\<close>

theorem failed_run_keeps_ticket_and_frees_key_witness:
  "\<exists>w3 r4 w4 t t2. create_ticket keyless_env (sample_request 1) (Some ''k'') live_world = (Inl (OtherExc ''no key''), w3)
    \<and> create_ticket (live_env ''billing'' (Inr (OtherOutput ''ok''))) (sample_request 1) (Some ''k'') w3 = (r4, w4)
    \<and> t \<in> set (db_tickets (w_db w4)) \<and> t2 \<in> set (db_tickets (w_db w4)) \<and> tk_id t2 \<noteq> tk_id t
    \<and> tk_customer_id t2 = tk_customer_id t \<and> tk_subject t2 = tk_subject t"
proof -
  let ?q = "sample_request 1" and ?t = "new_ticket sample_db_env (sample_request 1) sample_db"
  let ?r = "[idem_key ''k'' \<mapsto> json_dumps IN_PROGRESS_SENTINEL]" and ?db = "with_new_ticket sample_db_env (sample_request 1) sample_db"
  let ?w = "live_world\<lparr>w_redis := ?r, w_db := ?db\<rparr>" and ?E = "live_env ''billing'' (Inr (OtherOutput ''ok''))"
  have ins: "with_session (insert_ticket_session sample_db_env ?q) sample_db = (Inr ?t, ?db)"
    by (rule insert_session_ok) (use sample_creation_ready in \<open>simp_all add: creation_ready_def\<close>)
  have fresh: "d_new_id sample_db_env ?db \<notin> set (ticket_ids ?db)"
    by (simp add: with_new_ticket_def new_ticket_def sample_db_def id_lists sample_rows) (simp add: sample_db_env_def)
  have "tq_customer_id ?q \<in> set (customer_ids ?db)" "valid_request ?q"
    using sample_creation_ready by (simp_all add: creation_ready_def with_new_ticket_def customer_ids_def)
  then have again: "\<exists>t2 db2. with_session (insert_ticket_session sample_db_env ?q) ?db = (Inr t2, db2)"
    using insert_session_ok [of sample_db_env ?q ?db] fresh by auto
  have "cls_key keyless_env t \<noteq> idem_key ''k''" for t
    by (simp add: cls_key_def cache_build_key_def build_cache_key_def idem_key_def
        cls_build_cache_def IDEMPOTENCY_KEY_PREFIX_def CLS_CACHE_KEY_PREFIX_def)
  then have inv: "invoke keyless_env (initial_state ?q (tk_id ?t)) ?w = (Inl (OtherExc ''no key''), ?w)"
    by (intro keyless_invoke) simp
  have first: "create_ticket keyless_env ?q (Some ''k'') live_world
      = (Inl (OtherExc ''no key''), ?w\<lparr>w_redis := ?r(idem_key ''k'' := None)\<rparr>)"
    using ins inv by (simp add: create_ticket_def bind_def catch_def on_redis_def on_db_def execute_ticket_def
        claim_or_get_existing_def idem_release_def)
  have claim: "claim_key keyless_env ''k'' (w_redis live_world) = (Inr None, ?r)" by (simp add: claim_or_get_existing_def)
  have laws: "redis_laws (e_redis keyless_env)" "fst (rc_delete (e_redis keyless_env) (idem_key ''k'') (w_redis ?w)) = Inr ()"
    "e_redis ?E = e_redis keyless_env" by simp_all
  have ins': "with_session (insert_ticket_session (e_db keyless_env) ?q) (w_db live_world) = (Inr ?t, ?db)" using ins by simp
  obtain t2 db2 where t2: "with_session (insert_ticket_session sample_db_env ?q) ?db = (Inr t2, db2)" using again by blast
  from failed_run_keeps_ticket_and_frees_key [OF laws(1) keyless_kickoff_law claim ins' _ laws(2,3) base_kickoff_law] inv
  have "\<exists>w3. create_ticket keyless_env ?q (Some ''k'') live_world = (Inl (OtherExc ''no key''), w3)
    \<and> (\<forall>t2 db2. redis_steady live_redis (w_redis w3) \<longrightarrow> with_session (insert_ticket_session sample_db_env ?q) (w_db w3) = (Inr t2, db2)
      \<longrightarrow> (\<exists>r4 w4. create_ticket ?E ?q (Some ''k'') w3 = (r4, w4) \<and> ?t \<in> set (db_tickets (w_db w4)) \<and> t2 \<in> set (db_tickets (w_db w4))
        \<and> tk_id t2 \<noteq> tk_id ?t \<and> tk_customer_id t2 = tk_customer_id ?t \<and> tk_subject t2 = tk_subject ?t))"
    by fastforce
  moreover have "w_db (?w\<lparr>w_redis := ?r(idem_key ''k'' := None)\<rparr>) = ?db" by simp
  ultimately show ?thesis using first t2 live_redis_steady by (metis prod.inject)
qed

text \<open>C35: a completion that fails. When Redis refuses the response of a request that has executed, the
  endpoint answers 503 (unable to verify the idempotency of the request, please retry), although
  the ticket of the request is in the table.\<close>

theorem completion_failure_hides_ticket:
  assumes "redis_laws (e_redis E)" and "kickoff_law E T"
    and "claim_key E k (w_redis w) = (Inr None, r)"
    and "execute_ticket E q (w\<lparr>w_redis := r\<rparr>) = (Inr response, w2)"
    and "rc_set (e_redis E) (idem_key k) (json_dumps (JObj (response_fields response))) (idem_ttl E) (w_redis w2)
      = (Inl (RedisError m), r3)"
  shows "\<exists>d. create_ticket_endpoint E q (Some k) w = (Inl (HTTPException 503 d), w2\<lparr>w_redis := r3\<rparr>)
    \<and> tr_ticket_id response \<in> set (ticket_ids (w_db w2))"
proof -
  have "create_ticket E q (Some k) w = (Inl (IdempotencyBackendUnavailable m), w2\<lparr>w_redis := r3\<rparr>)"
    using assms(4,5)
    by (simp add: create_ticket_claimed [OF assms(3)] claimed_body_def bind_def catch_def on_redis_def idem_complete_def)
  then have "\<exists>d. create_ticket_endpoint E q (Some k) w = (Inl (HTTPException 503 d), w2\<lparr>w_redis := r3\<rparr>)"
    by (simp add: create_ticket_endpoint_def bind_def catch_def)
  moreover obtain t db1 s where ins: "with_session (insert_ticket_session (e_db E) q) (w_db w) = (Inr t, db1)"
    and inv: "invoke E (initial_state q (tk_id t)) (w\<lparr>w_redis := r, w_db := db1\<rparr>) = (Inr s, w2)"
    and resp: "response = response_of_state q t s"
    using assms(4) by (auto simp: execute_ticket_def bind_def on_db_def split: prod.splits sum.splits)
  have "t \<in> set (db_tickets db1)"
    using insert_session_cases [OF ins] by (auto simp: with_new_ticket_def)
  then have "t \<in> set (db_tickets (w_db w2))"
    using grows_tickets [OF invoke_grows [OF assms(1,2) inv]] by simp
  ultimately show ?thesis by (auto simp: resp response_of_state_def ticket_ids_def)
qed

text \<open>A server that refuses every \<open>SET\<close> without \<open>NX\<close>.\<close>

definition no_set_redis :: "(string \<rightharpoonup> string) redis_client" where
  "no_set_redis = live_redis\<lparr>rc_set := (\<lambda>k v ttl m. (Inl (RedisError ''OOM command not allowed''), m))\<rparr>"

lemma no_set_simps [simp]:
  "rc_get no_set_redis k m = (Inr (m k), m)"
  "rc_set no_set_redis k v ttl m = (Inl (RedisError ''OOM command not allowed''), m)"
  "rc_set_nx no_set_redis k v ttl m = (if m k = None then (Inr True, m(k \<mapsto> v)) else (Inr False, m))"
  "rc_delete no_set_redis k m = (Inr (), m(k := None))" "rc_view no_set_redis m = m"
  by (simp_all add: no_set_redis_def live_redis_def)

lemma no_set_redis_laws [simp]: "redis_laws no_set_redis"
  unfolding redis_laws_def get_law_def set_law_def set_nx_law_def delete_law_def
  by (auto simp: is_redis_error_def split: if_splits)

theorem completion_failure_hides_ticket_witness:
  "\<exists>d w2. create_ticket_endpoint (base_env no_set_redis ''billing'' (Inr (OtherOutput ''ok''))) (sample_request 1) (Some ''k'')
      live_world = (Inl (HTTPException 503 d), w2) \<and> (\<exists>i. i \<in> set (ticket_ids (w_db w2)) \<and> i \<notin> set (ticket_ids sample_db))"
proof -
  let ?E = "base_env no_set_redis ''billing'' (Inr (OtherOutput ''ok''))" and ?q = "sample_request 1"
  let ?r = "[idem_key ''k'' \<mapsto> json_dumps IN_PROGRESS_SENTINEL]"
  obtain c r w2 where ex: "execute_ticket ?E ?q (live_world\<lparr>w_redis := ?r\<rparr>) =
      (Inr (response_of_state ?q (new_ticket sample_db_env ?q sample_db)
        (final_state ?q (d_new_id sample_db_env sample_db) c r)), w2)"
    using execute_ticket_answers [of ?E UNIV ?q "live_world\<lparr>w_redis := ?r\<rparr>"] by auto
  let ?resp = "response_of_state ?q (new_ticket sample_db_env ?q sample_db)
        (final_state ?q (d_new_id sample_db_env sample_db) c r)"
  have "tr_ticket_id ?resp \<notin> set (ticket_ids sample_db)"
    using sample_creation_ready by (simp add: creation_ready_def response_of_state_def)
  then show ?thesis
    using completion_failure_hides_ticket [of ?E UNIV "''k''" live_world ?r ?q ?resp w2
        "''OOM command not allowed''" "w_redis w2"] ex
    by (auto simp: claim_or_get_existing_def)
qed

subsection \<open>A request and its repetition\<close>

theorem completed_request_is_replayed_witness:
  "\<exists>response w1 w2 w3. create_ticket (live_env ''billing'' (Inr (OtherOutput ''ok''))) (sample_request 1) (Some ''k'') live_world
      = (Inr response, w1)
    \<and> create_ticket (live_env ''billing'' (Inr (OtherOutput ''ok''))) (sample_request 7) (Some ''k'') w1
      = (Inr (response\<lparr>tr_idempotent_replay := True\<rparr>), w2) \<and> w_db w2 = w_db w1
    \<and> create_ticket (live_env ''billing'' (Inr (OtherOutput ''ok''))) (sample_request 8) (Some ''k'') w2
      = (Inr (response\<lparr>tr_idempotent_replay := True\<rparr>), w3) \<and> w_db w3 = w_db w1"
proof -
  let ?E = "live_env ''billing'' (Inr (OtherOutput ''ok''))" and ?q = "sample_request 1"
  let ?r = "[idem_key ''k'' \<mapsto> json_dumps IN_PROGRESS_SENTINEL]"
  have claim: "claim_key ?E ''k'' (w_redis live_world) = (Inr None, ?r)"
    by (simp add: claim_or_get_existing_def)
  obtain c r w2 where ex: "execute_ticket ?E ?q (live_world\<lparr>w_redis := ?r\<rparr>) =
      (Inr (response_of_state ?q (new_ticket sample_db_env ?q sample_db)
        (final_state ?q (d_new_id sample_db_env sample_db) c r)), w2)"
    using execute_ticket_answers [of ?E UNIV ?q "live_world\<lparr>w_redis := ?r\<rparr>"] by auto
  let ?resp = "response_of_state ?q (new_ticket sample_db_env ?q sample_db)
        (final_state ?q (d_new_id sample_db_env sample_db) c r)"
  obtain w3 where first: "create_ticket ?E ?q (Some ''k'') live_world = (Inr ?resp, w3)"
    using ex by (simp add: create_ticket_claimed [OF claim] claimed_body_def bind_def catch_def on_redis_def
        idem_complete_def)
  have ok: "valid_datetime (tr_created_at ?resp)" "\<not> tr_idempotent_replay ?resp"
    by (simp_all add: response_of_state_def new_ticket_def sample_db_env_def sample_time_def)
  have env: "redis_laws (e_redis ?E)" "\<And>w :: (string \<rightharpoonup> string) world. redis_steady (e_redis ?E) (w_redis w)" by simp_all
  note T = completed_request_is_replayed [OF env(1) first ok(2,1) _ env(2)]
  from T [OF L_Now, of "sample_request 7"] obtain w4 where second:
    "create_ticket ?E (sample_request 7) (Some ''k'') w3 = (Inr (?resp\<lparr>tr_idempotent_replay := True\<rparr>), w4)"
    "w_db w4 = w_db w3" "later ?E ''k'' w3 w4" by blast
  from T [OF second(3), of "sample_request 8"] first second(1,2) show ?thesis by metis
qed

end
