(* ===== verification/Auth.thy ===== *)
theory Auth
  imports World
begin

section \<open>Authentication and authorization\<close>

text \<open>
  \<^verbatim>\<open>backend/auth/\<close> (\<^verbatim>\<open>hashing.py\<close>, \<^verbatim>\<open>jwt.py\<close>, \<^verbatim>\<open>dependencies.py\<close>, \<^verbatim>\<open>rate_limit_key.py\<close>, \<^verbatim>\<open>router.py\<close>) with
  \<^verbatim>\<open>core/security.py\<close> and \<^verbatim>\<open>schemas/auth.py\<close>. passlib, python-jose and Pydantic's datetime conversion
  are parameters (\<open>auth_libs\<close>); \<open>jwt_laws\<close> is what the code relies on: decoding gives back the claims
  of a token made with the same key until it has expired, and refuses with a \<^verbatim>\<open>JWTError\<close> only. A
  bearer token is a string, and the clock is \<^verbatim>\<open>d_now\<close>.
\<close>

record auth_libs =
  pw_hash :: "string \<Rightarrow> string"
  pw_verify :: "string \<Rightarrow> string \<Rightarrow> exc + bool"
  jose_encode :: "(string \<times> json) list \<Rightarrow> string \<Rightarrow> string \<Rightarrow> exc + string"
  jose_decode :: "int \<Rightarrow> string \<Rightarrow> string \<Rightarrow> string list \<Rightarrow> exc + (string \<times> json) list"
  pyd_datetime :: "json \<Rightarrow> bool"

definition is_jwt_error :: "exc \<Rightarrow> bool" where
  "is_jwt_error e \<longleftrightarrow> (case e of JWTError _ \<Rightarrow> True | _ \<Rightarrow> False)"

definition jwt_laws :: "auth_libs \<Rightarrow> bool" where
  "jwt_laws A \<longleftrightarrow>
     (\<forall>now token key algs e. jose_decode A now token key algs = Inl e \<longrightarrow> is_jwt_error e) \<and>
     (\<forall>claims key alg token ts. jose_encode A claims key alg = Inr token \<longrightarrow> map_of claims ''exp'' = Some (JInt ts) \<longrightarrow>
        (- 62135596800 \<le> ts \<and> ts \<le> 253402300799 \<longrightarrow> pyd_datetime A (JInt ts)) \<and>
        (\<forall>now. (if ts < now then (\<exists>e. jose_decode A now token key [alg] = Inl e)
                else jose_decode A now token key [alg] = Inr claims)))"

subsection \<open>Standard responses\<close>

definition credentials_exception :: exc where
  "credentials_exception = HTTPException 401 ''Could not validate credentials''"

definition forbidden_exception :: exc where
  "forbidden_exception = HTTPException 403 ''Not enough permissions''"

subsection \<open>Instants\<close>

text \<open>\<open>timegm\<close> of an aware UTC datetime, and its microseconds since the epoch.\<close>

definition days_before_month :: "nat list" where
  "days_before_month = [0, 31, 59, 90, 120, 151, 181, 212, 243, 273, 304, 334]"

definition is_leap :: "nat \<Rightarrow> bool" where
  "is_leap y \<longleftrightarrow> y mod 4 = 0 \<and> (y mod 100 \<noteq> 0 \<or> y mod 400 = 0)"

definition day_ordinal :: "nat \<Rightarrow> nat \<Rightarrow> nat \<Rightarrow> int" where
  "day_ordinal y m d =
     int ((y - 1) * 365 + (y - 1) div 4 - (y - 1) div 100 + (y - 1) div 400
          + days_before_month ! (m - 1) + (if 2 < m \<and> is_leap y then 1 else 0) + d)"

fun epoch_us :: "datetime \<Rightarrow> int" where
  "epoch_us (DateTime y mo d h mi s us) =
     (((day_ordinal y mo d - 719163) * 86400 + int h * 3600 + int mi * 60 + int s) * 1000000) + int us"

definition timegm :: "datetime \<Rightarrow> int" where
  "timegm t = epoch_us t div 1000000"

definition overflow_error :: exc where
  "overflow_error = OtherExc ''date value out of range''"

subsection \<open>Tokens\<close>

record token_payload =
  tp_sub :: string
  tp_role :: user_role
  tp_exp :: json

text \<open>\<open>TokenPayload(**payload)\<close>.\<close>

definition token_payload_of :: "auth_libs \<Rightarrow> (string \<times> json) list \<Rightarrow> exc + token_payload" where
  "token_payload_of A payload =
     (case (map_of payload ''sub'', map_of payload ''role'', map_of payload ''exp'') of
        (Some (JStr s), Some (JStr r), Some e) \<Rightarrow>
          (case user_role_of_value r of
             Some role \<Rightarrow> if pyd_datetime A e then Inr \<lparr>tp_sub = s, tp_role = role, tp_exp = e\<rparr> else Inl validation_error
           | None \<Rightarrow> Inl validation_error)
      | _ \<Rightarrow> Inl validation_error)"

text \<open>
  A \<^verbatim>\<open>timedelta\<close> is its number of microseconds. \<open>expires_delta or timedelta(minutes=...)\<close>: the zero
  duration is falsy.
\<close>

definition token_lifetime :: "settings \<Rightarrow> int option \<Rightarrow> int" where
  "token_lifetime S expires_delta =
     (let default = jwt_access_token_expire_minutes S * 60 * 1000000 in
      case expires_delta of None \<Rightarrow> default | Some d \<Rightarrow> if d = 0 then default else d)"

definition create_access_token ::
    "settings \<Rightarrow> auth_libs \<Rightarrow> datetime \<Rightarrow> uuid \<Rightarrow> user_role \<Rightarrow> int option \<Rightarrow> exc + string" where
  "create_access_token S A now user_id role expires_delta =
     (let expire = epoch_us now + token_lifetime S expires_delta in
      if expire < - 62135596800000000 \<or> 253402300799999999 < expire then Inl overflow_error
      else jose_encode A
             [(''sub'', JStr (uuid_str user_id)), (''role'', JStr (user_role_value role)),
              (''exp'', JInt (expire div 1000000))]
             (jwt_secret_key S) (jwt_algorithm S))"

definition decode_access_token :: "settings \<Rightarrow> auth_libs \<Rightarrow> datetime \<Rightarrow> string \<Rightarrow> exc + token_payload" where
  "decode_access_token S A now token =
     (case jose_decode A (timegm now) token (jwt_secret_key S) [jwt_algorithm S] of
        Inl e \<Rightarrow> Inl e
      | Inr payload \<Rightarrow> token_payload_of A payload)"

subsection \<open>Dependencies\<close>

definition get_user :: "db_env \<Rightarrow> uuid \<Rightarrow> user_row option session" where
  "get_user D user_id = db_select D (\<lambda>db. find (\<lambda>u. us_id u = user_id) (db_users db))"

definition get_current_user :: "settings \<Rightarrow> auth_libs \<Rightarrow> db_env \<Rightarrow> string \<Rightarrow> (user_row, database) comp" where
  "get_current_user S A D token db =
     (case decode_access_token S A (d_now D db) token of
        Inl (JWTError _) \<Rightarrow> raise credentials_exception db
      | Inl (ValueError _) \<Rightarrow> raise credentials_exception db
      | Inl e \<Rightarrow> raise e db
      | Inr payload \<Rightarrow>
          (case uuid_parse (tp_sub payload) of
             None \<Rightarrow> raise credentials_exception db
           | Some user_id \<Rightarrow>
               bind (with_session (get_user D user_id))
                 (\<lambda>user. case user of None \<Rightarrow> raise credentials_exception | Some u \<Rightarrow> ret u) db))"

definition get_current_active_user :: "settings \<Rightarrow> auth_libs \<Rightarrow> db_env \<Rightarrow> string \<Rightarrow> (user_row, database) comp" where
  "get_current_active_user S A D token =
     bind (get_current_user S A D token) (\<lambda>user. if \<not> us_is_active user then raise forbidden_exception else ret user)"

definition require_role ::
    "settings \<Rightarrow> auth_libs \<Rightarrow> db_env \<Rightarrow> user_role list \<Rightarrow> string \<Rightarrow> (user_row, database) comp" where
  "require_role S A D allowed_roles token =
     bind (get_current_active_user S A D token)
       (\<lambda>user. if us_role user \<notin> set allowed_roles then raise forbidden_exception else ret user)"

subsection \<open>Login\<close>

definition hash_password :: "auth_libs \<Rightarrow> string \<Rightarrow> string" where
  "hash_password A plain_password = pw_hash A plain_password"

definition verify_password :: "auth_libs \<Rightarrow> string \<Rightarrow> string \<Rightarrow> (bool, 's) comp" where
  "verify_password A plain_password password_hash =
     (case pw_verify A plain_password password_hash of Inl e \<Rightarrow> raise e | Inr ok \<Rightarrow> ret ok)"

definition DUMMY_PASSWORD_HASH :: "auth_libs \<Rightarrow> string" where
  "DUMMY_PASSWORD_HASH A = hash_password A ''not-a-real-password''"

definition incorrect_login :: exc where
  "incorrect_login = HTTPException 401 ''Incorrect email or password''"

record auth_token =
  at_access_token :: string
  at_token_type :: string

text \<open>\<open>scalar_one_or_none\<close>.\<close>

definition multiple_results :: exc where
  "multiple_results = OtherExc ''Multiple rows were found when one or none was required''"

definition user_by_email :: "db_env \<Rightarrow> string \<Rightarrow> user_row option session" where
  "user_by_email D email =
     bind (db_select D (\<lambda>db. filter (\<lambda>u. us_email u = email) (db_users db)))
       (\<lambda>rows. case rows of [] \<Rightarrow> ret None | [u] \<Rightarrow> ret (Some u) | _ \<Rightarrow> raise multiple_results)"

definition login :: "settings \<Rightarrow> auth_libs \<Rightarrow> db_env \<Rightarrow> string \<Rightarrow> string \<Rightarrow> (auth_token, database) comp" where
  "login S A D username password =
     bind (with_session (user_by_email D username)) (\<lambda>user. case user of
         None \<Rightarrow> bind (verify_password A password (DUMMY_PASSWORD_HASH A)) (\<lambda>_. raise incorrect_login)
       | Some u \<Rightarrow>
           bind (verify_password A password (us_password_hash u)) (\<lambda>ok.
             if \<not> ok then raise incorrect_login
             else if \<not> us_is_active u then raise (HTTPException 403 ''Inactive user'')
             else (\<lambda>db. case create_access_token S A (d_now D db) (us_id u) (us_role u) None of
                     Inl e \<Rightarrow> raise e db
                   | Inr token \<Rightarrow> ret \<lparr>at_access_token = token, at_token_type = ''bearer''\<rparr> db)))"

text \<open>\<open>AuthenticatedUser\<close>: the projection that \<^verbatim>\<open>GET /auth/me\<close> answers, without the password hash.\<close>

record authenticated_user =
  au_id :: uuid
  au_email :: string
  au_full_name :: string
  au_role :: user_role
  au_is_active :: bool

definition read_current_user :: "settings \<Rightarrow> auth_libs \<Rightarrow> db_env \<Rightarrow> string \<Rightarrow> (authenticated_user, database) comp" where
  "read_current_user S A D token =
     bind (get_current_active_user S A D token) (\<lambda>u. ret \<lparr>au_id = us_id u, au_email = us_email u,
       au_full_name = us_full_name u, au_role = us_role u, au_is_active = us_is_active u\<rparr>)"

subsection \<open>The rate-limit key\<close>

definition BEARER_PREFIX :: string where "BEARER_PREFIX = ''bearer ''"

text \<open>The request is its \<^verbatim>\<open>Authorization\<close> header, empty when missing, and its remote address.\<close>

record http_request =
  rq_authorization :: string
  rq_remote_address :: string

definition resolve_rate_limit_key :: "settings \<Rightarrow> auth_libs \<Rightarrow> datetime \<Rightarrow> http_request \<Rightarrow> exc + string" where
  "resolve_rate_limit_key S A now request =
     (let auth_header = rq_authorization request;
          by_ip = Inr (''ip:'' @ rq_remote_address request) in
      if startswith BEARER_PREFIX (py_lower auth_header)
      then (case decode_access_token S A now (py_strip (drop (length BEARER_PREFIX) auth_header)) of
              Inl (JWTError _) \<Rightarrow> by_ip
            | Inl e \<Rightarrow> Inl e
            | Inr payload \<Rightarrow> Inr (''user:'' @ tp_sub payload))
      else by_ip)"

subsection \<open>Tokens, made and read\<close>

lemma is_jwt_error_iff: "is_jwt_error e \<longleftrightarrow> (\<exists>m. e = JWTError m)"
  by (cases e) (auto simp: is_jwt_error_def)

lemma jose_decode_error: "jwt_laws A \<Longrightarrow> jose_decode A now t k algs = Inl e \<Longrightarrow> \<exists>m. e = JWTError m"
  unfolding jwt_laws_def is_jwt_error_iff [symmetric] by blast

lemma token_payload_error: "token_payload_of A payload = Inl e \<Longrightarrow> e = validation_error"
  by (auto simp: token_payload_of_def split: option.splits json.splits if_splits)

lemma decode_error:
  assumes "jwt_laws A" "decode_access_token S A now token = Inl e"
  obtains m where "e = JWTError m" | "e = validation_error"
proof (cases "jose_decode A (timegm now) token (jwt_secret_key S) [jwt_algorithm S]")
  case (Inl d)
  with assms(2) jose_decode_error [OF assms(1) Inl] that(1) show thesis by (auto simp: decode_access_token_def)
next
  case (Inr payload)
  with assms(2) token_payload_error that(2) show thesis by (auto simp: decode_access_token_def)
qed

lemma created_token:
  assumes "jwt_laws A" "create_access_token S A now user_id role delta = Inr token"
  defines "ts \<equiv> (epoch_us now + token_lifetime S delta) div 1000000"
  shows "if ts < timegm later then \<exists>m. decode_access_token S A later token = Inl (JWTError m)
    else decode_access_token S A later token = Inr \<lparr>tp_sub = uuid_str user_id, tp_role = role, tp_exp = JInt ts\<rparr>"
proof -
  let ?claims = "[(''sub'', JStr (uuid_str user_id)), (''role'', JStr (user_role_value role)), (''exp'', JInt ts)]"
  have range: "- 62135596800000000 \<le> epoch_us now + token_lifetime S delta"
      "epoch_us now + token_lifetime S delta \<le> 253402300799999999"
    and enc: "jose_encode A ?claims (jwt_secret_key S) (jwt_algorithm S) = Inr token"
    using assms(2) by (simp_all add: create_access_token_def Let_def ts_def split: if_splits)
  have "- 62135596800 \<le> ts" "ts \<le> 253402300799" using range unfolding ts_def by linarith+
  moreover have "map_of ?claims ''exp'' = Some (JInt ts)" by simp
  ultimately have ok: "pyd_datetime A (JInt ts)"
    and dec: "\<And>n. if ts < n then \<exists>e. jose_decode A n token (jwt_secret_key S) [jwt_algorithm S] = Inl e
        else jose_decode A n token (jwt_secret_key S) [jwt_algorithm S] = Inr ?claims"
    using assms(1) enc unfolding jwt_laws_def by (blast, blast)
  show ?thesis
  proof (cases "ts < timegm later")
    case True
    with dec [of "timegm later"] obtain e where
      "jose_decode A (timegm later) token (jwt_secret_key S) [jwt_algorithm S] = Inl e" by auto
    with True jose_decode_error [OF assms(1) this] show ?thesis by (auto simp: decode_access_token_def)
  next
    case False
    with dec [of "timegm later"] ok show ?thesis
      by (simp add: decode_access_token_def token_payload_of_def)
  qed
qed

lemma get_user_found:
  assumes "db_wf db" "u \<in> set (db_users db)" "d_fault D DbSelect db = None"
  shows "with_session (get_user D (us_id u)) db = (Inr (Some u), db)"
proof -
  have "find (\<lambda>v. us_id v = us_id u) us = Some u" if "distinct (map us_id us)" "u \<in> set us" for us :: "user_row list"
    using that by (induction us) (auto simp: rev_image_eqI)
  with assms show ?thesis by (simp add: get_user_def with_session_def db_select_def db_wf_def user_ids_def)
qed

lemma get_user_state: "with_session (get_user D i) db = (r, db') \<Longrightarrow> db' = db
    \<and> (\<forall>u. r = Inr (Some u) \<longrightarrow> u \<in> set (db_users db) \<and> us_id u = i)
    \<and> (\<forall>e. r = Inl e \<longrightarrow> d_fault D DbSelect db = Some e)"
  by (auto simp: get_user_def with_session_def db_select_def find_Some_iff split: option.splits)

lemma user_by_email_state:
  assumes "with_session (user_by_email D email) db = (a, db')"
  shows "db' = db \<and> (\<forall>u. a = Inr (Some u) \<longrightarrow> u \<in> set (db_users db) \<and> us_email u = email)"
proof (cases "d_fault D DbSelect db")
  case None
  define rows where "rows = filter (\<lambda>u. us_email u = email) (db_users db)"
  have query: "with_session (user_by_email D email) db =
      (case rows of [] \<Rightarrow> (Inr None, db) | [u] \<Rightarrow> (Inr (Some u), db) | _ \<Rightarrow> (Inl multiple_results, db))"
    using None by (simp add: with_session_def user_by_email_def bind_def db_select_def rows_def split: list.split)
  have "\<forall>u \<in> set rows. u \<in> set (db_users db) \<and> us_email u = email" by (simp add: rows_def)
  with assms query show ?thesis by (cases rows; cases "tl rows") auto
next
  case (Some e)
  with assms show ?thesis by (auto simp: with_session_def user_by_email_def bind_def db_select_def)
qed

lemma login_cases:
  assumes "login S A D username password db = (r, db')"
  shows "db' = db \<and> (\<forall>t. r = Inr t \<longrightarrow>
    (\<exists>u \<in> set (db_users db). us_email u = username \<and> pw_verify A password (us_password_hash u) = Inr True
       \<and> us_is_active u \<and> create_access_token S A (d_now D db) (us_id u) (us_role u) None = Inr (at_access_token t)))"
proof -
  obtain a db1 where u1: "with_session (user_by_email D username) db = (a, db1)" by fastforce
  with user_by_email_state [OF u1] have user: "with_session (user_by_email D username) db = (a, db)"
    and found: "\<And>u. a = Inr (Some u) \<Longrightarrow> u \<in> set (db_users db) \<and> us_email u = username" by auto
  show ?thesis using assms user found
    by (auto simp: login_def bind_def verify_password_def split: sum.splits option.splits if_splits)
qed

lemma require_role_of:
  assumes "decode_access_token S A (d_now D db) token = Inr payload" "uuid_parse (tp_sub payload) = Some i"
    and "with_session (get_user D i) db = (Inr (Some u), db)"
  shows "require_role S A D allowed token db =
    (if us_is_active u then if us_role u \<in> set allowed then Inr u else Inl forbidden_exception
     else Inl forbidden_exception, db)"
  using assms by (simp add: require_role_def get_current_active_user_def get_current_user_def bind_def)

lemma require_role_sound_aux:
  assumes "jwt_laws A" and "require_role S A D allowed token db = (r, db')"
  shows "db' = db \<and>
    (case r of
       Inr u \<Rightarrow> u \<in> set (db_users db) \<and> us_is_active u \<and> us_role u \<in> set allowed
         \<and> (\<exists>p. decode_access_token S A (d_now D db) token = Inr p \<and> uuid_parse (tp_sub p) = Some (us_id u))
     | Inl e \<Rightarrow> e = credentials_exception \<or> e = forbidden_exception \<or> d_fault D DbSelect db = Some e)"
proof (cases "decode_access_token S A (d_now D db) token")
  case (Inl e)
  obtain m where "e = JWTError m \<or> e = ValueError m"
    using decode_error [OF assms(1) Inl] by (auto simp: validation_error_def)
  with Inl assms(2) show ?thesis
    by (auto simp: require_role_def get_current_active_user_def get_current_user_def bind_def)
next
  case (Inr p)
  show ?thesis
  proof (cases "uuid_parse (tp_sub p)")
    case None
    with Inr assms(2) show ?thesis
      by (auto simp: require_role_def get_current_active_user_def get_current_user_def bind_def)
  next
    case (Some i)
    obtain g db1 where g: "with_session (get_user D i) db = (g, db1)" by fastforce
    from get_user_state [OF g] g Inr Some assms(2) show ?thesis
      by (auto simp: require_role_def get_current_active_user_def get_current_user_def bind_def
          split: sum.splits option.splits if_splits)
  qed
qed

subsection \<open>Properties\<close>

text \<open>C38: when a token expires. A token made by \<open>create_access_token\<close> decodes to the user and the role it
  was made for as long as the clock, in whole seconds, has not passed the whole second of its expiry,
  and is refused afterwards. The expiry is the requested duration after its making, or the configured
  one if none is requested; but a requested duration of zero is also replaced by the configured one.\<close>

theorem token_lifetime_exact:
  assumes "jwt_laws A" and "create_access_token S A now user_id role expires_delta = Inr token"
    and "lifetime = (if expires_delta \<in> {None, Some 0} then jwt_access_token_expire_minutes S * 60000000 else the expires_delta)"
  shows "if timegm later \<le> (epoch_us now + lifetime) div 1000000
    then \<exists>p. decode_access_token S A later token = Inr p \<and> uuid_parse (tp_sub p) = Some user_id \<and> tp_role p = role
    else \<exists>m. decode_access_token S A later token = Inl (JWTError m)"
proof -
  have "lifetime = token_lifetime S expires_delta"
    using assms(3) by (cases expires_delta) (auto simp: token_lifetime_def)
  with created_token [OF assms(1,2), of later] show ?thesis by (auto simp: uuid_roundtrip)
qed

text \<open>C14: what a login gives. A successful login answers a bearer token for an active user with that e-mail
  whose password verifies; and presenting the token to a guarded route resolves that user if their
  role is allowed there, is 403 if it is not, and is 401 once the configured lifetime is over.\<close>

theorem login_token_authorizes:
  assumes "jwt_laws A" and "db_wf db" and "login S A D username password db = (Inr t, db')"
    and "d_fault D' DbSelect db = None"
  shows "db' = db \<and> (\<exists>u \<in> set (db_users db). us_email u = username
    \<and> pw_verify A password (us_password_hash u) = Inr True
    \<and> require_role S A D' allowed (at_access_token t) db =
        (if (epoch_us (d_now D db) + jwt_access_token_expire_minutes S * 60000000) div 1000000 < timegm (d_now D' db)
         then Inl credentials_exception
         else if us_role u \<in> set allowed then Inr u else Inl forbidden_exception, db))"
proof -
  obtain u where u: "u \<in> set (db_users db)" "us_email u = username" "pw_verify A password (us_password_hash u) = Inr True"
    "us_is_active u" and tok: "create_access_token S A (d_now D db) (us_id u) (us_role u) None = Inr (at_access_token t)"
    and db: "db' = db" using login_cases [OF assms(3)] by blast
  let ?ts = "(epoch_us (d_now D db) + jwt_access_token_expire_minutes S * 60000000) div 1000000"
  have life: "token_lifetime S None = jwt_access_token_expire_minutes S * 60000000" by (simp add: token_lifetime_def)
  have dec: "if ?ts < timegm (d_now D' db)
    then \<exists>m. decode_access_token S A (d_now D' db) (at_access_token t) = Inl (JWTError m)
    else decode_access_token S A (d_now D' db) (at_access_token t) =
      Inr \<lparr>tp_sub = uuid_str (us_id u), tp_role = us_role u, tp_exp = JInt ?ts\<rparr>"
    using created_token [OF assms(1) tok, of "d_now D' db"] unfolding life .
  have "require_role S A D' allowed (at_access_token t) db =
        (if ?ts < timegm (d_now D' db) then Inl credentials_exception
         else if us_role u \<in> set allowed then Inr u else Inl forbidden_exception, db)"
  proof (cases "?ts < timegm (d_now D' db)")
    case True
    with dec show ?thesis
      by (auto simp: require_role_def get_current_active_user_def get_current_user_def bind_def)
  next
    case False
    with dec have "decode_access_token S A (d_now D' db) (at_access_token t) =
      Inr \<lparr>tp_sub = uuid_str (us_id u), tp_role = us_role u, tp_exp = JInt ?ts\<rparr>" by simp
    from require_role_of [OF this _ get_user_found [OF assms(2) u(1) assms(4)], of allowed] False u(4)
    show ?thesis by (simp add: uuid_roundtrip)
  qed
  with u db show ?thesis by blast
qed

text \<open>C13: what a guarded route lets through. Whatever the token and the tables, \<open>require_role\<close> changes no
  table and resolves only an active user of the table whose current role (that of the row, not of
  the token) is allowed and whose identity is the subject of a valid token; every refusal is the
  standard 401 or 403, and the only other exception is an error of the database itself.\<close>

theorem require_role_sound:
  assumes "jwt_laws A" and "require_role S A D allowed token db = (r, db')"
  shows "db' = db \<and>
    (case r of
       Inr u \<Rightarrow> u \<in> set (db_users db) \<and> us_is_active u \<and> us_role u \<in> set allowed
         \<and> (\<exists>p. decode_access_token S A (d_now D db) token = Inr p \<and> uuid_parse (tp_sub p) = Some (us_id u))
     | Inl e \<Rightarrow> e = credentials_exception \<or> e = forbidden_exception \<or> d_fault D DbSelect db = Some e)"
  using assms by (rule require_role_sound_aux)

lemma email_unique:
  "db_wf db \<Longrightarrow> u \<in> set (db_users db) \<Longrightarrow> v \<in> set (db_users db) \<Longrightarrow> us_email u = us_email v \<Longrightarrow> u = v"
  by (auto simp: db_wf_def distinct_map dest: inj_onD)

lemma only_user:
  "distinct (map us_email us) \<Longrightarrow> u \<in> set us \<Longrightarrow> filter (\<lambda>v. us_email v = us_email u) us = [u]" for us :: "user_row list"
  by (induction us) (auto simp: filter_empty_conv image_iff)

lemma user_by_email_found:
  assumes "db_wf db" "u \<in> set (db_users db)" "d_fault D DbSelect db = None"
  shows "with_session (user_by_email D (us_email u)) db = (Inr (Some u), db)"
  using only_user [of "db_users db" u] assms
  by (simp add: db_wf_def with_session_def user_by_email_def bind_def db_select_def)

text \<open>What \<open>login\<close> does for the e-mail of a stored user, and for an unknown one.\<close>

lemma login_of_user:
  assumes "db_wf db" "u \<in> set (db_users db)" "d_fault D DbSelect db = None"
  shows "login S A D (us_email u) password db =
    (case pw_verify A password (us_password_hash u) of Inl e \<Rightarrow> (Inl e, db)
     | Inr ok \<Rightarrow>
         if \<not> ok then (Inl incorrect_login, db)
         else if \<not> us_is_active u then (Inl (HTTPException 403 ''Inactive user''), db)
         else (case create_access_token S A (d_now D db) (us_id u) (us_role u) None of
                 Inl e \<Rightarrow> (Inl e, db)
               | Inr token \<Rightarrow> (Inr \<lparr>at_access_token = token, at_token_type = ''bearer''\<rparr>, db)))"
  by (simp add: login_def bind_def verify_password_def user_by_email_found [OF assms] split: sum.split)

lemma login_of_nobody:
  assumes "\<forall>u \<in> set (db_users db). us_email u \<noteq> username" "d_fault D DbSelect db = None"
  shows "login S A D username password db =
    (case pw_verify A password (DUMMY_PASSWORD_HASH A) of Inl e \<Rightarrow> (Inl e, db) | Inr ok \<Rightarrow> (Inl incorrect_login, db))"
proof -
  have "filter (\<lambda>u. us_email u = username) (db_users db) = []" using assms(1) by (simp add: filter_empty_conv)
  then show ?thesis using assms(2)
    by (simp add: login_def bind_def with_session_def user_by_email_def db_select_def verify_password_def split: sum.split)
qed

text \<open>C39: login does not tell whether an account exists. While the database and the password library
  answer, a login is refused with the one 401 exactly when no user has the e-mail or the user who
  has it has another password.\<close>

theorem login_refusal_is_uniform:
  assumes "db_wf db" and "d_fault D DbSelect db = None" and "\<And>h. \<exists>b. pw_verify A password h = Inr b"
    and "\<And>now i r. create_access_token S A now i r None \<noteq> Inl incorrect_login"
  shows "login S A D username password db = (Inl incorrect_login, db) \<longleftrightarrow>
    \<not> (\<exists>u \<in> set (db_users db). us_email u = username \<and> pw_verify A password (us_password_hash u) = Inr True)"
proof (cases "\<exists>u \<in> set (db_users db). us_email u = username")
  case False
  moreover obtain ok where "pw_verify A password (DUMMY_PASSWORD_HASH A) = Inr ok" using assms(3) by blast
  ultimately show ?thesis using login_of_nobody [of db username D S A password] assms(2) by auto
next
  case True
  then obtain u where u: "u \<in> set (db_users db)" "us_email u = username" by blast
  obtain ok where ok: "pw_verify A password (us_password_hash u) = Inr ok" using assms(3) by blast
  have "login S A D username password db = (Inl incorrect_login, db) \<longleftrightarrow> \<not> ok"
    unfolding u(2) [symmetric] login_of_user [OF assms(1) u(1) assms(2)] ok
    using assms(4) [of "d_now D db" "us_id u" "us_role u"] by (auto simp: incorrect_login_def split: sum.split)
  moreover have "(\<exists>v \<in> set (db_users db). us_email v = username \<and> pw_verify A password (us_password_hash v) = Inr True) \<longleftrightarrow> ok"
    using email_unique [OF assms(1) u(1)] u ok by (metis sum.inject(2))
  ultimately show ?thesis by blast
qed

lemma bearer_header:
  "startswith BEARER_PREFIX (py_lower (''Bearer '' @ t)) \<and> drop (length BEARER_PREFIX) (''Bearer '' @ t) = t"
proof -
  have "py_lower (''Bearer '' @ t) = BEARER_PREFIX @ py_lower t"
    by (simp only: py_lower_def map_append append_same_eq) code_simp
  then have "startswith BEARER_PREFIX (py_lower (''Bearer '' @ t))" by (auto simp: startswith_iff)
  then show ?thesis by (simp add: BEARER_PREFIX_def)
qed

text \<open>C40: the rate-limit key, case by case. A request whose header is not a bearer token, or whose token
  does not decode, is counted by its address; one whose token decodes to valid claims by the subject of
  the token; and for a token that is signed and unexpired but whose claims do not validate the
  function raises, although its documentation says that it never does. So the requests with a token made for a
  user are counted under that user until it expires, and by address afterwards.\<close>

theorem rate_limit_key_outcome:
  assumes "jwt_laws A"
  shows "resolve_rate_limit_key S A now rq =
      (let token = py_strip (drop (length BEARER_PREFIX) (rq_authorization rq)) in
       if \<not> startswith BEARER_PREFIX (py_lower (rq_authorization rq)) then Inr (''ip:'' @ rq_remote_address rq)
       else (case jose_decode A (timegm now) token (jwt_secret_key S) [jwt_algorithm S] of
               Inl e \<Rightarrow> Inr (''ip:'' @ rq_remote_address rq)
             | Inr claims \<Rightarrow> (case token_payload_of A claims of
                   Inl e \<Rightarrow> Inl validation_error
                 | Inr p \<Rightarrow> Inr (''user:'' @ tp_sub p))))
    \<and> (create_access_token S A made user_id role delta = Inr token \<longrightarrow> py_strip token = token \<longrightarrow>
      resolve_rate_limit_key S A now \<lparr>rq_authorization = ''Bearer '' @ token, rq_remote_address = address\<rparr> =
        Inr (if timegm now \<le> (epoch_us made + token_lifetime S delta) div 1000000
             then ''user:'' @ uuid_str user_id else ''ip:'' @ address))"
proof (intro conjI impI)
  let ?token = "py_strip (drop (length BEARER_PREFIX) (rq_authorization rq))"
  show "resolve_rate_limit_key S A now rq =
      (let token = py_strip (drop (length BEARER_PREFIX) (rq_authorization rq)) in
       if \<not> startswith BEARER_PREFIX (py_lower (rq_authorization rq)) then Inr (''ip:'' @ rq_remote_address rq)
       else (case jose_decode A (timegm now) token (jwt_secret_key S) [jwt_algorithm S] of
               Inl e \<Rightarrow> Inr (''ip:'' @ rq_remote_address rq)
             | Inr claims \<Rightarrow> (case token_payload_of A claims of
                   Inl e \<Rightarrow> Inl validation_error
                 | Inr p \<Rightarrow> Inr (''user:'' @ tp_sub p))))"
    using jose_decode_error [OF assms, of "timegm now" ?token "jwt_secret_key S" "[jwt_algorithm S]"]
    by (auto simp: resolve_rate_limit_key_def decode_access_token_def Let_def validation_error_def
        dest!: token_payload_error split: sum.split)
next
  assume "create_access_token S A made user_id role delta = Inr token" and strip: "py_strip token = token"
  note dec = created_token [OF assms this(1), of now]
  show "resolve_rate_limit_key S A now \<lparr>rq_authorization = ''Bearer '' @ token, rq_remote_address = address\<rparr> =
        Inr (if timegm now \<le> (epoch_us made + token_lifetime S delta) div 1000000
             then ''user:'' @ uuid_str user_id else ''ip:'' @ address)"
    using dec bearer_header [of token] strip unfolding resolve_rate_limit_key_def Let_def
    by (auto simp: not_less split: if_splits)
qed

end
