(* ===== verification/Supervisor_Api.thy ===== *)
theory Supervisor_Api
  imports Auth
begin

section \<open>The supervisor queue\<close>

text \<open>
  \<^verbatim>\<open>backend/api/supervisor.py\<close> with \<^verbatim>\<open>schemas/supervisor.py\<close>, and the two read-only routes
  \<^verbatim>\<open>api/routes/customers.py\<close> and \<^verbatim>\<open>api/routes/health.py\<close>. An endpoint takes the bearer token of the
  request; its dependency \<^verbatim>\<open>require_role\<close> runs before the body, in a session of its own, and so does
  the audit event after it. The rate limits of the decision endpoints belong to slowapi and are not
  part of the handlers.
\<close>

definition SUPERVISOR_ROLES :: "user_role list" where "SUPERVISOR_ROLES = [SUPERVISOR, ADMIN]"

record supervisor_queue_item =
  qi_ticket_id :: uuid
  qi_customer_id :: uuid
  qi_priority :: ticket_priority
  qi_status :: approval_status
  qi_selected_agent :: string
  qi_matched_policy_rules :: "string list"
  qi_draft_response :: string
  qi_retrieved_context :: "string option"
  qi_comments :: "string option"
  qi_requested_at :: datetime
  qi_reviewed_at :: "datetime option"
  qi_reviewer_id :: "uuid option"

record supervisor_queue_response =
  qr_items :: "supervisor_queue_item list"
  qr_total :: nat

record approval_decision_request = dr_comments :: "string option"
record edit_draft_request = ed_draft_response :: string

definition to_queue_item :: "approval_request \<Rightarrow> exc + supervisor_queue_item" where
  "to_queue_item approval_request =
     (case approval_request of
        (a, None) \<Rightarrow> Inl (AttributeError ''customer_id'')
      | (a, Some ticket) \<Rightarrow> Inr
          \<lparr>qi_ticket_id = ap_ticket_id a, qi_customer_id = tk_customer_id ticket, qi_priority = tk_priority ticket,
           qi_status = ap_status a, qi_selected_agent = ap_selected_agent a,
           qi_matched_policy_rules = ap_matched_policy_rules a, qi_draft_response = ap_draft_response a,
           qi_retrieved_context = ap_retrieved_context a, qi_comments = ap_comments a,
           qi_requested_at = ap_requested_at a, qi_reviewed_at = ap_decided_at a,
           qi_reviewer_id = ap_approved_by a\<rparr>)"

fun to_queue_items :: "approval_request list \<Rightarrow> exc + supervisor_queue_item list" where
  "to_queue_items [] = Inr []"
| "to_queue_items (r # rs) =
     (case to_queue_item r of Inl e \<Rightarrow> Inl e
      | Inr item \<Rightarrow> (case to_queue_items rs of Inl e \<Rightarrow> Inl e | Inr items \<Rightarrow> Inr (item # items)))"

definition not_in_queue :: exc where
  "not_in_queue = HTTPException 404 ''Ticket not found in supervisor queue''"

definition get_or_404 :: "db_env \<Rightarrow> uuid \<Rightarrow> approval_request session" where
  "get_or_404 D ticket_id =
     bind (get_by_ticket_id D ticket_id) (\<lambda>r. case r of None \<Rightarrow> raise not_in_queue | Some a \<Rightarrow> ret a)"

definition list_queue ::
    "settings \<Rightarrow> auth_libs \<Rightarrow> db_env \<Rightarrow> string \<Rightarrow> (supervisor_queue_response, database) comp" where
  "list_queue S A D token =
     bind (require_role S A D SUPERVISOR_ROLES token) (\<lambda>user.
       bind (with_session (bind (list_pending D) (\<lambda>pending. lift_sum (to_queue_items pending)))) (\<lambda>items.
         ret \<lparr>qr_items = items, qr_total = length items\<rparr>))"

definition get_queue_item ::
    "settings \<Rightarrow> auth_libs \<Rightarrow> db_env \<Rightarrow> string \<Rightarrow> uuid \<Rightarrow> (supervisor_queue_item, database) comp" where
  "get_queue_item S A D token ticket_id =
     bind (require_role S A D SUPERVISOR_ROLES token) (\<lambda>user.
       bind (with_session (bind (get_or_404 D ticket_id) (\<lambda>r. lift_sum (to_queue_item r)))) (\<lambda>item.
         bind (log_audit_event D ticket_id ''supervisor_viewed'' ''Supervisor viewed the AI draft response.''
                 (Some (us_id user)) None)
           (\<lambda>_. ret item)))"

definition approve_ticket ::
    "settings \<Rightarrow> auth_libs \<Rightarrow> db_env \<Rightarrow> string \<Rightarrow> uuid \<Rightarrow> approval_decision_request \<Rightarrow> (supervisor_queue_item, database) comp" where
  "approve_ticket S A D token ticket_id decision =
     bind (require_role S A D SUPERVISOR_ROLES token) (\<lambda>user.
       bind (with_session
               (bind (get_or_404 D ticket_id) (\<lambda>r.
                 bind (decide_approval D r AS_APPROVED (us_id user) (dr_comments decision)) (\<lambda>r'.
                   bind (db_commit D) (\<lambda>_. lift_sum (to_queue_item r'))))))
         (\<lambda>item.
           bind (log_audit_event D ticket_id ''supervisor_approved'' ''Supervisor approved the AI draft response.''
                   (Some (us_id user))
                   (Some [(''comments'', case dr_comments decision of None \<Rightarrow> JNull | Some c \<Rightarrow> JStr c)]))
             (\<lambda>_. ret item)))"

definition edit_draft ::
    "settings \<Rightarrow> auth_libs \<Rightarrow> db_env \<Rightarrow> string \<Rightarrow> uuid \<Rightarrow> edit_draft_request \<Rightarrow> (supervisor_queue_item, database) comp" where
  "edit_draft S A D token ticket_id edit =
     bind (require_role S A D SUPERVISOR_ROLES token) (\<lambda>user.
       bind (with_session
               (bind (get_or_404 D ticket_id) (\<lambda>r.
                 bind (update_draft D r (ed_draft_response edit)) (\<lambda>r'.
                   bind (db_commit D) (\<lambda>_. lift_sum (to_queue_item r'))))))
         (\<lambda>item.
           bind (log_audit_event D ticket_id ''supervisor_edited'' ''Supervisor edited the AI draft response.''
                   (Some (us_id user)) None)
             (\<lambda>_. ret item)))"

definition reject_ticket ::
    "settings \<Rightarrow> auth_libs \<Rightarrow> db_env \<Rightarrow> string \<Rightarrow> uuid \<Rightarrow> approval_decision_request \<Rightarrow> (supervisor_queue_item, database) comp" where
  "reject_ticket S A D token ticket_id decision =
     bind (require_role S A D SUPERVISOR_ROLES token) (\<lambda>user.
       bind (with_session
               (bind (get_or_404 D ticket_id) (\<lambda>r.
                 bind (decide_approval D r AS_REJECTED (us_id user) (dr_comments decision)) (\<lambda>r'.
                   bind (db_commit D) (\<lambda>_. lift_sum (to_queue_item r'))))))
         (\<lambda>item.
           bind (log_audit_event D ticket_id ''supervisor_rejected''
                   ''Supervisor rejected the AI draft response; marked for manual handling.''
                   (Some (us_id user))
                   (Some [(''comments'', case dr_comments decision of None \<Rightarrow> JNull | Some c \<Rightarrow> JStr c)]))
             (\<lambda>_. ret item)))"

subsection \<open>Customers and health\<close>

record customer_response =
  cr_customer_id :: uuid
  cr_name :: string
  cr_email :: string
  cr_company :: "string option"
  cr_tier :: customer_tier
  cr_created_at :: datetime

record customer_list_response =
  cl_items :: "customer_response list"
  cl_total :: nat

definition CUSTOMER_LIST_LIMIT :: nat where "CUSTOMER_LIST_LIMIT = 100"

definition list_customers ::
    "settings \<Rightarrow> auth_libs \<Rightarrow> db_env \<Rightarrow> string \<Rightarrow> (customer_list_response, database) comp" where
  "list_customers S A D token =
     bind (get_current_active_user S A D token) (\<lambda>user.
       bind (with_session (customer_list_all D CUSTOMER_LIST_LIMIT)) (\<lambda>customers.
         let items = map (\<lambda>c. \<lparr>cr_customer_id = cu_id c, cr_name = cu_name c, cr_email = cu_email c,
               cr_company = cu_company c, cr_tier = cu_tier c, cr_created_at = cu_created_at c\<rparr>) customers
         in ret \<lparr>cl_items = items, cl_total = length items\<rparr>))"

definition health :: "(string \<times> string) list" where
  "health = [(''status'', ''ok'')]"

end
