(* ===== verification/Supervisor_Queue.thy ===== *)
theory Supervisor_Queue
  imports Supervisor_Api
begin

section \<open>Properties of the supervisor queue\<close>

text \<open>
  What the endpoints of \<^verbatim>\<open>backend/api/supervisor.py\<close> do on every branch: an outcome lemma for the read and
  for the change of the latest request of a ticket, the invariant of the queue under any sequence of
  requests (\<open>supervisor_step\<close>), and the properties of the decision, the list and the edit.
\<close>

subsection \<open>The bodies of the endpoints\<close>

definition replace_approval :: "approval_row \<Rightarrow> database \<Rightarrow> database" where
  "replace_approval a db = db\<lparr>db_approvals := map (\<lambda>b. if ap_id b = ap_id a then a else b) (db_approvals db)\<rparr>"

definition requests_of :: "database \<Rightarrow> uuid \<Rightarrow> approval_row list" where
  "requests_of db ticket_id = filter (\<lambda>a. ap_ticket_id a = ticket_id) (db_approvals db)"

definition latest_request :: "db_env \<Rightarrow> database \<Rightarrow> uuid \<Rightarrow> approval_row" where
  "latest_request D db ticket_id = hd (order_desc D ap_requested_at ap_id (requests_of db ticket_id))"

text \<open>Changing the latest request of a ticket, committing, and answering the item.\<close>

definition change_latest :: "db_env \<Rightarrow> uuid \<Rightarrow> (database \<Rightarrow> approval_row \<Rightarrow> approval_row) \<Rightarrow> supervisor_queue_item session" where
  "change_latest D ticket_id f =
     bind (get_or_404 D ticket_id) (\<lambda>r ss.
       bind (bind (db_flush D (update_approval (f (ss_work ss) (fst r)))) (\<lambda>_. ret (f (ss_work ss) (fst r), snd r)))
         (\<lambda>r'. bind (db_commit D) (\<lambda>_. lift_sum (to_queue_item r'))) ss)"

definition decided :: "db_env \<Rightarrow> approval_status \<Rightarrow> uuid \<Rightarrow> string option \<Rightarrow> database \<Rightarrow> approval_row \<Rightarrow> approval_row" where
  "decided D status reviewer comments db a = a\<lparr>ap_status := status, ap_approved_by := Some reviewer,
     ap_comments := comments, ap_decided_at := Some (d_now D db)\<rparr>"

definition edited :: "string \<Rightarrow> database \<Rightarrow> approval_row \<Rightarrow> approval_row" where
  "edited draft db a = a\<lparr>ap_draft_response := draft\<rparr>"

text \<open>An endpoint that changes the queue: the guard, the change, the audit event.\<close>

definition queue_endpoint ::
    "settings \<Rightarrow> auth_libs \<Rightarrow> db_env \<Rightarrow> string \<Rightarrow> uuid \<Rightarrow> (uuid \<Rightarrow> database \<Rightarrow> approval_row \<Rightarrow> approval_row)
      \<Rightarrow> string \<Rightarrow> string \<Rightarrow> (string \<times> json) list option \<Rightarrow> (supervisor_queue_item, database) comp" where
  "queue_endpoint S A D token ticket_id f event description metadata =
     bind (require_role S A D SUPERVISOR_ROLES token) (\<lambda>user.
       bind (with_session (change_latest D ticket_id (f (us_id user)))) (\<lambda>item.
         bind (log_audit_event D ticket_id event description (Some (us_id user)) metadata) (\<lambda>_. ret item)))"

lemma decide_approval_eq:
  "decide_approval D r status uid comments ss =
     bind (db_flush D (update_approval (decided D status uid comments (ss_work ss) (fst r))))
       (\<lambda>_. ret (decided D status uid comments (ss_work ss) (fst r), snd r)) ss"
  by (simp add: decide_approval_def decided_def Let_def)

lemma decide_body_eq:
  "bind (get_or_404 D ticket_id) (\<lambda>r. bind (decide_approval D r status uid comments)
      (\<lambda>r'. bind (db_commit D) (\<lambda>_. lift_sum (to_queue_item r'))))
   = change_latest D ticket_id (decided D status uid comments)"
proof -
  have "bind (decide_approval D r status uid comments) k = (\<lambda>ss. bind (bind (db_flush D (update_approval
      (decided D status uid comments (ss_work ss) (fst r)))) (\<lambda>_. ret (decided D status uid comments (ss_work ss) (fst r), snd r))) k ss)"
    for r and k :: "approval_request \<Rightarrow> supervisor_queue_item session"
    by (rule ext) (simp add: bind_def [of _ k] decide_approval_eq)
  then show ?thesis by (simp add: change_latest_def)
qed

lemma edit_body_eq:
  "bind (get_or_404 D ticket_id) (\<lambda>r. bind (update_draft D r draft)
      (\<lambda>r'. bind (db_commit D) (\<lambda>_. lift_sum (to_queue_item r'))))
   = change_latest D ticket_id (edited draft)"
  by (simp add: change_latest_def update_draft_def edited_def Let_def)

lemma endpoint_eqs:
  "approve_ticket S A D token ticket_id decision = queue_endpoint S A D token ticket_id
     (\<lambda>uid. decided D AS_APPROVED uid (dr_comments decision)) ''supervisor_approved''
     ''Supervisor approved the AI draft response.''
     (Some [(''comments'', case dr_comments decision of None \<Rightarrow> JNull | Some c \<Rightarrow> JStr c)])"
  "reject_ticket S A D token ticket_id decision = queue_endpoint S A D token ticket_id
     (\<lambda>uid. decided D AS_REJECTED uid (dr_comments decision)) ''supervisor_rejected''
     ''Supervisor rejected the AI draft response; marked for manual handling.''
     (Some [(''comments'', case dr_comments decision of None \<Rightarrow> JNull | Some c \<Rightarrow> JStr c)])"
  "edit_draft S A D token ticket_id edit = queue_endpoint S A D token ticket_id
     (\<lambda>uid. edited (ed_draft_response edit)) ''supervisor_edited''
     ''Supervisor edited the AI draft response.'' None"
  by (simp_all only: approve_ticket_def reject_ticket_def edit_draft_def queue_endpoint_def decide_body_eq edit_body_eq)

subsection \<open>What a change does\<close>

definition item_of :: "approval_row \<Rightarrow> ticket_row \<Rightarrow> supervisor_queue_item" where
  "item_of a t = \<lparr>qi_ticket_id = ap_ticket_id a, qi_customer_id = tk_customer_id t, qi_priority = tk_priority t,
     qi_status = ap_status a, qi_selected_agent = ap_selected_agent a,
     qi_matched_policy_rules = ap_matched_policy_rules a, qi_draft_response = ap_draft_response a,
     qi_retrieved_context = ap_retrieved_context a, qi_comments = ap_comments a,
     qi_requested_at = ap_requested_at a, qi_reviewed_at = ap_decided_at a, qi_reviewer_id = ap_approved_by a\<rparr>"

lemma to_queue_item_Some [simp]: "to_queue_item (a, Some t) = Inr (item_of a t)"
  by (simp add: to_queue_item_def item_of_def)

lemma latest_request:
  assumes "requests_of db i \<noteq> []"
  shows "latest_request D db i \<in> set (db_approvals db)" "ap_ticket_id (latest_request D db i) = i"
    and "b \<in> set (db_approvals db) \<Longrightarrow> ap_ticket_id b = i \<Longrightarrow> ap_requested_at b \<le> ap_requested_at (latest_request D db i)"
  using order_desc_hd [OF assms, where D = D and key = ap_requested_at and i = ap_id] by (auto simp: latest_request_def requests_of_def)

text \<open>The ticket of a request.\<close>

definition ticket_of :: "database \<Rightarrow> approval_row \<Rightarrow> ticket_row" where
  "ticket_of db a = the (find (\<lambda>t. tk_id t = ap_ticket_id a) (db_tickets db))"

lemma with_ticket_eq: "db_wf db \<Longrightarrow> a \<in> set (db_approvals db) \<Longrightarrow> with_ticket db a = (a, Some (ticket_of db a))"
  by (erule (1) with_ticket_wf) (simp add: with_ticket_def ticket_of_def)

lemma get_by_ticket_id_eq:
  assumes "d_fault D DbSelect (ss_work ss) = None"
  shows "get_by_ticket_id D i ss = (Inr (if requests_of (ss_work ss) i = [] then None
      else Some (with_ticket (ss_work ss) (latest_request D (ss_work ss) i))), ss)"
proof -
  have "(case order_desc D ap_requested_at ap_id rows of [] \<Rightarrow> None | a # _ \<Rightarrow> Some (g a)) =
      (if rows = [] then None else Some (g (hd (order_desc D ap_requested_at ap_id rows))))"
    for rows and g :: "approval_row \<Rightarrow> approval_request"
  proof (cases "rows = []")
    case True
    then show ?thesis by (simp add: order_desc_def order_asc_def)
  next
    case False
    then have "order_desc D ap_requested_at ap_id rows \<noteq> []" by simp
    then obtain x xs where "order_desc D ap_requested_at ap_id rows = x # xs" by (auto simp only: neq_Nil_conv)
    with False show ?thesis by simp
  qed
  with assms show ?thesis
    by (simp add: get_by_ticket_id_def db_select_def requests_of_def latest_request_def)
qed

lemma update_approval_eq: "update_approval a db = Inr db' \<Longrightarrow> db' = replace_approval a db"
  by (simp add: update_approval_def replace_approval_def split: if_splits)

lemma change_latest_cases:
  assumes "with_session (change_latest D i f) db = (r, db')" and "db_wf db"
  shows "(\<exists>a. r = Inr (item_of (f db a) (ticket_of db a)) \<and> requests_of db i \<noteq> [] \<and> a = latest_request D db i
            \<and> db' = replace_approval (f db a) db \<and> update_approval (f db a) db = Inr db')
       \<or> ((\<exists>e. r = Inl e) \<and> db' = db)"
proof -
  let ?s = "\<lparr>ss_work = db, ss_saved = db\<rparr>" and ?a = "latest_request D db i"
  show ?thesis
  proof (cases "d_fault D DbSelect db = None \<and> requests_of db i \<noteq> []")
    case False
    then have "(\<exists>e. r = Inl e) \<and> db' = db"
      using assms(1) get_by_ticket_id_eq [of D ?s i]
      by (cases "d_fault D DbSelect db")
         (auto simp: with_session_def change_latest_def get_or_404_def bind_def get_by_ticket_id_def db_select_def)
    then show ?thesis ..
  next
    case True
    then have get: "get_or_404 D i ?s = (Inr (?a, Some (ticket_of db ?a)), ?s)"
      using get_by_ticket_id_eq [of D ?s i] with_ticket_eq [OF assms(2) latest_request(1) [where i = i and D = D]]
      by (simp add: get_or_404_def bind_def)
    obtain b s1 where fl: "db_flush D (update_approval (f db ?a)) ?s = (b, s1)" by fastforce
    show ?thesis
    proof (cases b)
      case (Inl e)
      then have "s1 = ?s" using fl by (auto simp: db_flush_def split: option.splits sum.splits)
      with Inl fl get assms(1) show ?thesis by (auto simp: with_session_def change_latest_def bind_def)
    next
      case (Inr u)
      then obtain db1 where up: "update_approval (f db ?a) db = Inr db1" and s1: "s1 = ?s\<lparr>ss_work := db1\<rparr>"
        using fl by (auto simp: db_flush_def split: option.splits sum.splits)
      with Inr fl get assms(1) update_approval_eq [OF up] True show ?thesis
        by (cases "d_fault D DbCommit db1")
           (auto simp: with_session_def change_latest_def bind_def db_commit_def lift_sum_def)
    qed
  qed
qed

lemma change_latest_ok:
  assumes "no_faults D" "db_wf db" "requests_of db i \<noteq> []"
    and "approval_fk db (f db (latest_request D db i))"
  defines "a \<equiv> latest_request D db i"
  shows "with_session (change_latest D i f) db = (Inr (item_of (f db a) (ticket_of db a)), replace_approval (f db a) db)"
proof -
  let ?s = "\<lparr>ss_work = db, ss_saved = db\<rparr>"
  have get: "get_or_404 D i ?s = (Inr (a, Some (ticket_of db a)), ?s)"
    using get_by_ticket_id_eq [of D ?s i] with_ticket_eq [OF assms(2) latest_request(1) [OF assms(3), where D = D]] assms(1,3)
    by (simp add: get_or_404_def bind_def no_faults_def a_def)
  moreover have "update_approval (f db a) db = Inr (replace_approval (f db a) db)"
    using assms(4) by (simp add: update_approval_def replace_approval_def a_def)
  ultimately show ?thesis using assms(1)
    by (simp add: with_session_def change_latest_def bind_def db_flush_def db_commit_def no_faults_def lift_sum_def)
qed

subsection \<open>What an endpoint does\<close>

lemma log_audit_only_state:
  assumes "log_audit_event D t ev descr u m db = (x, db')"
  shows "x = Inr () \<and> audit_only db db' \<and> keeps db_wf db db'"
proof -
  have "\<exists>y d. log_audit_event D t ev descr u m db = (Inr y, d)" by (rule returnsD [OF log_audit_returns])
  with assms have "x = Inr ()" by auto
  with stepsD [OF log_audit_only assms] stepsD [OF log_audit_wf assms] show ?thesis by simp
qed

lemma queue_endpoint_cases:
  assumes "jwt_laws A" "db_wf db" "queue_endpoint S A D token i f ev descr m db = (r, db')"
  shows "((\<exists>e. r = Inl e) \<and> db' = db)
    \<or> (\<exists>u a. u \<in> set (db_users db) \<and> us_is_active u \<and> us_role u \<in> set SUPERVISOR_ROLES
         \<and> requests_of db i \<noteq> [] \<and> a = latest_request D db i
         \<and> update_approval (f (us_id u) db a) db = Inr (replace_approval (f (us_id u) db a) db)
         \<and> audit_only (replace_approval (f (us_id u) db a) db) db'
         \<and> keeps db_wf (replace_approval (f (us_id u) db a) db) db')"
proof -
  obtain g db1 where g: "require_role S A D SUPERVISOR_ROLES token db = (g, db1)" by fastforce
  note sound = require_role_sound_aux [OF assms(1) g]
  show ?thesis
  proof (cases g)
    case (Inl e)
    with g sound assms(3) show ?thesis by (auto simp: queue_endpoint_def bind_def)
  next
    case (Inr u)
    with sound have u: "db1 = db" "u \<in> set (db_users db)" "us_is_active u" "us_role u \<in> set SUPERVISOR_ROLES" by auto
    obtain c db2 where c: "with_session (change_latest D i (f (us_id u))) db = (c, db2)" by fastforce
    from change_latest_cases [OF c assms(2)] show ?thesis
    proof
      assume "(\<exists>e. c = Inl e) \<and> db2 = db"
      with c g Inr u(1) assms(3) show ?thesis by (auto simp: queue_endpoint_def bind_def)
    next
      assume "\<exists>a. c = Inr (item_of (f (us_id u) db a) (ticket_of db a)) \<and> requests_of db i \<noteq> [] \<and> a = latest_request D db i
            \<and> db2 = replace_approval (f (us_id u) db a) db \<and> update_approval (f (us_id u) db a) db = Inr db2"
      then obtain a where a: "c = Inr (item_of (f (us_id u) db a) (ticket_of db a))" "requests_of db i \<noteq> []"
        "a = latest_request D db i" "db2 = replace_approval (f (us_id u) db a) db"
        "update_approval (f (us_id u) db a) db = Inr db2" by blast
      obtain x db3 where l: "log_audit_event D i ev descr (Some (us_id u)) m db2 = (x, db3)" by fastforce
      from log_audit_only_state [OF l] l c g Inr a(1) u(1) assms(3) have "audit_only db2 db' \<and> keeps db_wf db2 db'"
        by (simp add: queue_endpoint_def bind_def)
      with a u show ?thesis by blast
    qed
  qed
qed

text \<open>When nothing fails.\<close>

lemma queue_endpoint_ok:
  assumes "no_faults D" "db_wf db" "require_role S A D SUPERVISOR_ROLES token db = (Inr u, db)"
    and "requests_of db i \<noteq> []" and "u \<in> set (db_users db)"
    and "\<And>db. d_new_id D db \<notin> al_id ` set ls" and "db_audit_logs db = ls" and "length ev \<le> 100"
    and "\<And>a. ap_ticket_id (f (us_id u) db a) = ap_ticket_id a \<and> ap_requested_by (f (us_id u) db a) = ap_requested_by a
            \<and> ap_approved_by (f (us_id u) db a) \<in> {ap_approved_by a, Some (us_id u)}"
  defines "a \<equiv> latest_request D db i"
  shows "\<exists>l. queue_endpoint S A D token i f ev descr m db = (Inr (item_of (f (us_id u) db a) (ticket_of db a)),
      (replace_approval (f (us_id u) db a) db)\<lparr>db_audit_logs := db_audit_logs db @ [l]\<rparr>)
    \<and> al_ticket_id l = i \<and> al_user_id l = Some (us_id u) \<and> al_event_type l = ev"
proof -
  let ?db1 = "replace_approval (f (us_id u) db a) db"
  have a: "a \<in> set (db_approvals db)" "ap_ticket_id a = i" using latest_request [OF assms(4)] by (simp_all add: a_def)
  then have "approval_fk db a" using assms(2) by (simp add: db_wf_def)
  then have fk: "approval_fk db (f (us_id u) db a)" and i: "i \<in> set (ticket_ids db)"
    using assms(5) assms(9) [of a] a(2) by (auto simp: approval_fk_def fk_opt_def user_ids_def)
  have c: "with_session (change_latest D i (f (us_id u))) db = (Inr (item_of (f (us_id u) db a) (ticket_of db a)), ?db1)"
    unfolding a_def by (rule change_latest_ok) (use assms fk in \<open>simp_all add: a_def\<close>)
  have "fk_opt (Some (us_id u)) (user_ids ?db1)" "i \<in> set (ticket_ids ?db1)"
    using assms(5) i by (simp_all add: fk_opt_def user_ids_def ticket_ids_def replace_approval_def)
  moreover have "d_new_id D ?db1 \<notin> al_id ` set (db_audit_logs ?db1)"
    using assms(6,7) by (simp add: replace_approval_def)
  ultimately have log: "log_audit_event D i ev descr (Some (us_id u)) m ?db1 =
     (Inr (), ?db1\<lparr>db_audit_logs := db_audit_logs ?db1 @
       [\<lparr>al_id = d_new_id D ?db1, al_ticket_id = i, al_user_id = Some (us_id u), al_event_type = ev,
         al_description = descr, al_event_metadata = Some (JObj (case m of None \<Rightarrow> [] | Some kvs \<Rightarrow> kvs)),
         al_created_at = d_db_now D ?db1\<rparr>]\<rparr>)"
    using assms(1,8) by (intro log_audit_appends)
  have "db_audit_logs ?db1 = db_audit_logs db" by (simp add: replace_approval_def)
  with log c assms(3) show ?thesis by (auto simp: queue_endpoint_def bind_def)
qed

subsection \<open>Decisions and edits\<close>

lemma item_of_sel [simp]:
  "qi_status (item_of a t) = ap_status a" "qi_reviewer_id (item_of a t) = ap_approved_by a"
  "qi_draft_response (item_of a t) = ap_draft_response a" "qi_ticket_id (item_of a t) = ap_ticket_id a"
  "qi_comments (item_of a t) = ap_comments a" "qi_matched_policy_rules (item_of a t) = ap_matched_policy_rules a"
  by (simp_all add: item_of_def)

text \<open>The database works, the ticket has a request, the caller is \<open>u\<close>, and the keys of new audit events are fresh.\<close>

definition supervisor_ready :: "settings \<Rightarrow> auth_libs \<Rightarrow> db_env \<Rightarrow> string \<Rightarrow> uuid \<Rightarrow> user_row \<Rightarrow> database \<Rightarrow> bool" where
  "supervisor_ready S A D token i u db \<longleftrightarrow> no_faults D \<and> db_wf db \<and> requests_of db i \<noteq> []
     \<and> require_role S A D SUPERVISOR_ROLES token db = (Inr u, db)
     \<and> (\<forall>db'. d_new_id D db' \<notin> al_id ` set (db_audit_logs db))"

text \<open>C12: a decision. Approving or rejecting changes exactly one row of the queue, the latest request of
  the ticket: it gets the status, the caller as reviewer, the comments and the current time, and
  keeps everything else, the draft included; one audit event of the caller is appended, no other
  table changes, and the answered item shows the decision. This holds whatever the status of the
  request was: a request that was already rejected can be approved, and an approved one rejected.\<close>

theorem supervisor_decision:
  assumes "jwt_laws A" and "supervisor_ready S A D token i u db"
    and "(endpoint, status, event) \<in> {(approve_ticket S A D, AS_APPROVED, ''supervisor_approved''),
                                      (reject_ticket S A D, AS_REJECTED, ''supervisor_rejected'')}"
  shows "\<exists>item a a' l. endpoint token i decision db = (Inr item,
       db\<lparr>db_approvals := map (\<lambda>b. if ap_id b = ap_id a then a' else b) (db_approvals db),
          db_audit_logs := db_audit_logs db @ [l]\<rparr>)
    \<and> a \<in> set (db_approvals db) \<and> ap_ticket_id a = i
    \<and> (\<forall>b \<in> set (db_approvals db). ap_ticket_id b = i \<longrightarrow> ap_requested_at b \<le> ap_requested_at a)
    \<and> a' = a\<lparr>ap_status := status, ap_approved_by := Some (us_id u), ap_comments := dr_comments decision,
             ap_decided_at := Some (d_now D db)\<rparr>
    \<and> al_ticket_id l = i \<and> al_user_id l = Some (us_id u) \<and> al_event_type l = event
    \<and> qi_status item = status \<and> qi_reviewer_id item = Some (us_id u) \<and> qi_draft_response item = ap_draft_response a"
proof -
  let ?a = "latest_request D db i"
  let ?f = "\<lambda>uid. decided D status uid (dr_comments decision)"
  have R: "no_faults D" "db_wf db" "requests_of db i \<noteq> []" "require_role S A D SUPERVISOR_ROLES token db = (Inr u, db)"
    "\<And>db'. d_new_id D db' \<notin> al_id ` set (db_audit_logs db)"
    using assms(2) by (simp_all add: supervisor_ready_def)
  have u: "u \<in> set (db_users db)" using require_role_sound_aux [OF assms(1) R(4)] by simp
  from assms(3) obtain descr m where ep: "endpoint token i decision = queue_endpoint S A D token i ?f event descr m"
    and ev: "length event \<le> 100" by (auto simp: endpoint_eqs)
  obtain l where "queue_endpoint S A D token i ?f event descr m db = (Inr (item_of (?f (us_id u) db ?a) (ticket_of db ?a)),
      (replace_approval (?f (us_id u) db ?a) db)\<lparr>db_audit_logs := db_audit_logs db @ [l]\<rparr>)"
    and l: "al_ticket_id l = i" "al_user_id l = Some (us_id u)" "al_event_type l = event"
    using queue_endpoint_ok [OF R(1,2,4,3) u R(5) refl ev, of ?f descr m] by (auto simp: decided_def)
  then have "endpoint token i decision db = (Inr (item_of (?f (us_id u) db ?a) (ticket_of db ?a)),
      db\<lparr>db_approvals := map (\<lambda>b. if ap_id b = ap_id ?a then ?f (us_id u) db ?a else b) (db_approvals db),
          db_audit_logs := db_audit_logs db @ [l]\<rparr>)"
    unfolding ep by (simp add: replace_approval_def decided_def)
  then show ?thesis using l latest_request [OF R(3), where D = D]
    by (intro exI [of _ "item_of (?f (us_id u) db ?a) (ticket_of db ?a)"] exI [of _ ?a]
        exI [of _ "?f (us_id u) db ?a"] exI [of _ l]) (simp add: decided_def)
qed

text \<open>C21: an edit replaces the draft of the ticket's latest request and nothing else: its status, reviewer,
  comments and times stay as they are. It is accepted whatever that status is, so the text of a
  response that was already approved can still be replaced, and it stays approved.\<close>

theorem draft_edit_changes_only_the_draft:
  assumes "jwt_laws A" and "supervisor_ready S A D token i u db"
  shows "\<exists>item a l. edit_draft S A D token i edit db = (Inr item,
       db\<lparr>db_approvals := map (\<lambda>b. if ap_id b = ap_id a then a\<lparr>ap_draft_response := ed_draft_response edit\<rparr> else b)
            (db_approvals db),
          db_audit_logs := db_audit_logs db @ [l]\<rparr>)
    \<and> a \<in> set (db_approvals db) \<and> ap_ticket_id a = i
    \<and> (\<forall>b \<in> set (db_approvals db). ap_ticket_id b = i \<longrightarrow> ap_requested_at b \<le> ap_requested_at a)
    \<and> al_event_type l = ''supervisor_edited'' \<and> al_user_id l = Some (us_id u)
    \<and> qi_status item = ap_status a \<and> qi_draft_response item = ed_draft_response edit"
proof -
  let ?a = "latest_request D db i"
  let ?f = "\<lambda>uid :: uuid. edited (ed_draft_response edit)"
  have R: "no_faults D" "db_wf db" "requests_of db i \<noteq> []" "require_role S A D SUPERVISOR_ROLES token db = (Inr u, db)"
    "\<And>db'. d_new_id D db' \<notin> al_id ` set (db_audit_logs db)"
    using assms(2) by (simp_all add: supervisor_ready_def)
  have u: "u \<in> set (db_users db)" using require_role_sound_aux [OF assms(1) R(4)] by simp
  obtain l where "edit_draft S A D token i edit db = (Inr (item_of (?f (us_id u) db ?a) (ticket_of db ?a)),
      (replace_approval (?f (us_id u) db ?a) db)\<lparr>db_audit_logs := db_audit_logs db @ [l]\<rparr>)"
    and l: "al_user_id l = Some (us_id u)" "al_event_type l = ''supervisor_edited''"
    using queue_endpoint_ok [OF R(1,2,4,3) u R(5) refl, of "''supervisor_edited''" ?f
        "''Supervisor edited the AI draft response.''" None]
    by (auto simp: endpoint_eqs edited_def)
  then show ?thesis using latest_request [OF R(3), where D = D]
    by (intro exI [of _ "item_of (?f (us_id u) db ?a) (ticket_of db ?a)"] exI [of _ ?a] exI [of _ l])
       (simp add: edited_def replace_approval_def)
qed

subsection \<open>Listing\<close>

lemma to_queue_items_map:
  "(\<And>a. a \<in> set as \<Longrightarrow> w a = (a, Some (t a))) \<Longrightarrow> to_queue_items (map w as) = Inr (map (\<lambda>a. item_of a (t a)) as)"
  by (induction as) simp_all

lemma list_queue_ok:
  assumes "db_wf db" "d_fault D DbSelect db = None" "require_role S A D SUPERVISOR_ROLES token db = (Inr u, db)"
  defines "items \<equiv> map (\<lambda>a. item_of a (ticket_of db a)) (order_asc D ap_requested_at ap_id (pending_rows db))"
  shows "list_queue S A D token db = (Inr \<lparr>qr_items = items, qr_total = length items\<rparr>, db)"
proof -
  have "to_queue_items (map (with_ticket db) (order_asc D ap_requested_at ap_id (pending_rows db))) = Inr items"
    unfolding items_def by (rule to_queue_items_map, rule with_ticket_eq [OF assms(1)]) (auto simp: pending_rows_def)
  with assms(2,3) show ?thesis
    by (simp add: list_queue_def bind_def list_pending_def with_session_def db_select_def pending_rows_def lift_sum_def)
qed

text \<open>C20: what a supervisor sees. For a supervisor or an administrator, the list is of exactly the pending
  requests, each once, with its ticket's customer and priority, its draft and its rules, oldest first;
  its total is their number, and listing changes nothing: it leaves no event in the audit log either, although
  the module documents that every route logs the action it performed.\<close>

theorem list_queue_shows_the_pending:
  assumes "db_wf db" and "d_fault D DbSelect db = None"
    and "require_role S A D SUPERVISOR_ROLES token db = (Inr u, db)"
  shows "\<exists>items. list_queue S A D token db = (Inr \<lparr>qr_items = items, qr_total = length items\<rparr>, db)
    \<and> mset (map (\<lambda>q. (qi_ticket_id q, qi_draft_response q, qi_matched_policy_rules q, qi_requested_at q)) items) =
        mset (map (\<lambda>a. (ap_ticket_id a, ap_draft_response a, ap_matched_policy_rules a, ap_requested_at a)) (pending_rows db))
    \<and> sorted (map qi_requested_at items)
    \<and> (\<forall>q \<in> set items. qi_status q = AS_PENDING \<and> (\<exists>t \<in> set (db_tickets db). tk_id t = qi_ticket_id q
         \<and> tk_customer_id t = qi_customer_id q \<and> tk_priority t = qi_priority q))"
proof -
  let ?rows = "order_asc D ap_requested_at ap_id (pending_rows db)"
  let ?items = "map (\<lambda>a. item_of a (ticket_of db a)) ?rows"
  have ticket: "ticket_of db a \<in> set (db_tickets db) \<and> tk_id (ticket_of db a) = ap_ticket_id a" if "a \<in> set (db_approvals db)" for a
    using with_ticket_wf [OF assms(1) that] by (metis option.sel with_ticket_eq [OF assms(1) that] prod.inject)
  have "mset (map (\<lambda>q. (qi_ticket_id q, qi_draft_response q, qi_matched_policy_rules q, qi_requested_at q)) ?items)
      = image_mset (\<lambda>a. (ap_ticket_id a, ap_draft_response a, ap_matched_policy_rules a, ap_requested_at a)) (mset ?rows)"
    by (simp add: item_of_def comp_def del: mset_order)
  moreover have "sorted (map qi_requested_at ?items)"
    using sorted_order_asc [of ap_requested_at D ap_id "pending_rows db"] by (simp add: item_of_def comp_def)
  moreover have "\<forall>q \<in> set ?items. qi_status q = AS_PENDING \<and> (\<exists>t \<in> set (db_tickets db). tk_id t = qi_ticket_id q
         \<and> tk_customer_id t = qi_customer_id q \<and> tk_priority t = qi_priority q)"
  proof
    fix q
    assume "q \<in> set ?items"
    then obtain a where a: "a \<in> set (pending_rows db)" and q: "q = item_of a (ticket_of db a)" by auto
    from a have "a \<in> set (db_approvals db)" "ap_status a = AS_PENDING" by (simp_all add: pending_rows_def)
    with ticket q show "qi_status q = AS_PENDING \<and> (\<exists>t \<in> set (db_tickets db). tk_id t = qi_ticket_id q
         \<and> tk_customer_id t = qi_customer_id q \<and> tk_priority t = qi_priority q)"
      by (intro conjI bexI [of _ "ticket_of db a"]) (simp_all add: item_of_def)
  qed
  ultimately show ?thesis using list_queue_ok [OF assms] by (intro exI [of _ ?items]) simp
qed

subsection \<open>All that supervisors can do\<close>

text \<open>One request to the supervisor routes, in whatever circumstances \<open>D\<close> and whatever it answers.\<close>

inductive supervisor_step :: "settings \<Rightarrow> auth_libs \<Rightarrow> database \<Rightarrow> database \<Rightarrow> bool" for S A where
  S_List: "list_queue S A D token db = (r, db') \<Longrightarrow> supervisor_step S A db db'"
| S_View: "get_queue_item S A D token i db = (q, db') \<Longrightarrow> supervisor_step S A db db'"
| S_Approve: "approve_ticket S A D token i decision db = (q, db') \<Longrightarrow> supervisor_step S A db db'"
| S_Reject: "reject_ticket S A D token i decision db = (q, db') \<Longrightarrow> supervisor_step S A db db'"
| S_Edit: "edit_draft S A D token i edit db = (q, db') \<Longrightarrow> supervisor_step S A db db'"

text \<open>A pending request has no decision, a decided one has a reviewer and a time.\<close>

definition decisions_ok :: "database \<Rightarrow> bool" where
  "decisions_ok db \<longleftrightarrow> (\<forall>a \<in> set (db_approvals db).
     (ap_status a = AS_PENDING \<longrightarrow> ap_approved_by a = None \<and> ap_decided_at a = None) \<and>
     (ap_status a \<noteq> AS_PENDING \<longrightarrow> ap_approved_by a \<noteq> None \<and> ap_decided_at a \<noteq> None))"

text \<open>Whoever decided a request is an active supervisor or administrator.\<close>

definition supervises :: "database \<Rightarrow> uuid \<Rightarrow> bool" where
  "supervises db i \<longleftrightarrow> (\<exists>u \<in> set (db_users db). us_id u = i \<and> us_is_active u \<and> us_role u \<in> set SUPERVISOR_ROLES)"

definition reviewers_ok :: "database \<Rightarrow> bool" where
  "reviewers_ok db \<longleftrightarrow> (\<forall>a \<in> set (db_approvals db). \<forall>i. ap_approved_by a = Some i \<longrightarrow> supervises db i)"

text \<open>What of a request no supervisor changes.\<close>

definition fixed_part :: "approval_row \<Rightarrow> uuid \<times> uuid \<times> datetime \<times> string \<times> string list \<times> string option" where
  "fixed_part a = (ap_id a, ap_ticket_id a, ap_requested_at a, ap_selected_agent a, ap_matched_policy_rules a,
     ap_retrieved_context a)"

definition not_reopened :: "approval_row \<Rightarrow> approval_row \<Rightarrow> bool" where
  "not_reopened a b \<longleftrightarrow> (ap_status b = AS_PENDING \<longrightarrow> ap_status a = AS_PENDING)"

definition queue_rel :: "database \<Rightarrow> database \<Rightarrow> bool" where
  "queue_rel db db' \<longleftrightarrow>
     db_customers db' = db_customers db \<and> db_users db' = db_users db \<and> db_tickets db' = db_tickets db
     \<and> db_articles db' = db_articles db \<and> db_agent_runs db' = db_agent_runs db
     \<and> (\<exists>ls. db_audit_logs db' = db_audit_logs db @ ls)
     \<and> map fixed_part (db_approvals db') = map fixed_part (db_approvals db)
     \<and> list_all2 not_reopened (db_approvals db) (db_approvals db')"

lemma not_reopened_refl [simp]: "list_all2 not_reopened as as"
  by (rule list.rel_refl) (simp add: not_reopened_def)

lemma not_reopened_trans:
  "list_all2 not_reopened as bs \<Longrightarrow> list_all2 not_reopened bs cs \<Longrightarrow> list_all2 not_reopened as cs"
  by (rule list_all2_trans [of not_reopened not_reopened]) (simp_all add: not_reopened_def)

lemma queue_rel_refl: "queue_rel db db"
  by (simp add: queue_rel_def)

lemma queue_rel_trans: "queue_rel a b \<Longrightarrow> queue_rel b c \<Longrightarrow> queue_rel a c"
  unfolding queue_rel_def using not_reopened_trans by fastforce

lemma audit_queue_rel: "audit_only db db' \<Longrightarrow> queue_rel db db'"
  by (auto simp: audit_only_def queue_rel_def)

lemma replace_queue_rel:
  assumes "distinct (map ap_id (db_approvals db))" "a \<in> set (db_approvals db)"
    and "fixed_part a' = fixed_part a" "not_reopened a a'"
  shows "queue_rel db (replace_approval a' db)"
proof -
  have id: "ap_id a' = ap_id a" using assms(3) by (simp add: fixed_part_def)
  have same: "b = a" if "b \<in> set (db_approvals db)" "ap_id b = ap_id a" for b
    using assms(1,2) that by (meson distinct_map inj_onD)
  have "map fixed_part (db_approvals (replace_approval a' db)) = map fixed_part (db_approvals db)"
    using same assms(3) id by (auto simp: replace_approval_def)
  moreover have "list_all2 not_reopened (db_approvals db) (db_approvals (replace_approval a' db))"
    using same assms(4) id
    by (auto simp: replace_approval_def list_all2_map2 not_reopened_def intro!: list.rel_refl_strong)
  ultimately show ?thesis by (simp add: queue_rel_def replace_approval_def)
qed

lemma replace_decisions_ok:
  assumes "decisions_ok db" "decisions_ok (db\<lparr>db_approvals := [a']\<rparr>)"
  shows "decisions_ok (replace_approval a' db)"
  using assms by (auto simp: decisions_ok_def replace_approval_def)

lemma replace_reviewers_ok:
  assumes "reviewers_ok db" "a \<in> set (db_approvals db)" "ap_approved_by a' \<in> {ap_approved_by a, Some i}" "supervises db i"
  shows "reviewers_ok (replace_approval a' db)"
  using assms by (auto simp: reviewers_ok_def supervises_def replace_approval_def)

lemma audit_reviewers_ok: "audit_only db db' \<Longrightarrow> reviewers_ok db \<Longrightarrow> reviewers_ok db'"
  by (auto simp: audit_only_def reviewers_ok_def supervises_def)

lemma audit_decisions_ok: "audit_only db db' \<Longrightarrow> decisions_ok db \<Longrightarrow> decisions_ok db'"
  by (auto simp: audit_only_def decisions_ok_def)

text \<open>The invariant of the queue, carried through every step.\<close>

definition queue_inv :: "database \<Rightarrow> bool" where
  "queue_inv db \<longleftrightarrow> db_wf db \<and> decisions_ok db \<and> reviewers_ok db"

lemma endpoint_step:
  assumes "jwt_laws A" "queue_inv db" "queue_endpoint S A D token i f ev descr m db = (r, db')"
    and "\<And>u a. fixed_part (f u db a) = fixed_part a \<and> not_reopened a (f u db a)"
    and "\<And>u a. decisions_ok (db\<lparr>db_approvals := [a]\<rparr>) \<Longrightarrow> decisions_ok (db\<lparr>db_approvals := [f u db a]\<rparr>)"
    and "\<And>u a. ap_approved_by (f u db a) \<in> {ap_approved_by a, Some u}"
  shows "queue_inv db' \<and> queue_rel db db'"
proof -
  have inv: "db_wf db" "decisions_ok db" "reviewers_ok db" using assms(2) by (simp_all add: queue_inv_def)
  from queue_endpoint_cases [OF assms(1) inv(1) assms(3)] show ?thesis
  proof
    assume "(\<exists>e. r = Inl e) \<and> db' = db"
    with assms(2) show ?thesis by (simp add: queue_rel_refl)
  next
    assume "\<exists>u a. u \<in> set (db_users db) \<and> us_is_active u \<and> us_role u \<in> set SUPERVISOR_ROLES
         \<and> requests_of db i \<noteq> [] \<and> a = latest_request D db i
         \<and> update_approval (f (us_id u) db a) db = Inr (replace_approval (f (us_id u) db a) db)
         \<and> audit_only (replace_approval (f (us_id u) db a) db) db'
         \<and> keeps db_wf (replace_approval (f (us_id u) db a) db) db'"
    then obtain a and u :: user_row where a: "a = latest_request D db i" "requests_of db i \<noteq> []"
      and u: "supervises db (us_id u)"
      and up: "update_approval (f (us_id u) db a) db = Inr (replace_approval (f (us_id u) db a) db)"
      and audit: "audit_only (replace_approval (f (us_id u) db a) db) db'"
      and wf: "keeps db_wf (replace_approval (f (us_id u) db a) db) db'"
      unfolding supervises_def by blast
    let ?a' = "f (us_id u) db a"
    have mem: "a \<in> set (db_approvals db)" using latest_request(1) [OF a(2)] a(1) by simp
    have "length (ap_selected_agent ?a') \<le> 50"
      using inv(1) mem assms(4) [of "us_id u" a] by (simp add: db_wf_def fixed_part_def)
    then have "db_wf db'" using update_approval_wf [OF inv(1) up] wf by (simp add: keeps_def)
    moreover have "decisions_ok (db\<lparr>db_approvals := [a]\<rparr>)" using inv(2) mem by (simp add: decisions_ok_def)
    then have "decisions_ok (db\<lparr>db_approvals := [?a']\<rparr>)" by (rule assms(5))
    then have "decisions_ok db'" by (rule audit_decisions_ok [OF audit replace_decisions_ok [OF inv(2)]])
    moreover have "reviewers_ok db'"
      by (rule audit_reviewers_ok [OF audit replace_reviewers_ok [OF inv(3) mem assms(6) u]])
    moreover have "queue_rel db (replace_approval ?a' db)"
      using inv(1) assms(4) [of "us_id u" a] by (intro replace_queue_rel [OF _ mem]) (simp_all add: db_wf_def)
    then have "queue_rel db db'" using audit_queue_rel [OF audit] by (rule queue_rel_trans)
    ultimately show ?thesis by (simp add: queue_inv_def)
  qed
qed

lemma read_only_step:
  assumes "jwt_laws A" "require_role S A D SUPERVISOR_ROLES token db = (g, db1)"
  shows "db1 = db"
  using require_role_sound_aux [OF assms] by simp

lemma list_queue_state: "jwt_laws A \<Longrightarrow> list_queue S A D token db = (r, db') \<Longrightarrow> db' = db"
proof -
  assume "jwt_laws A" and r: "list_queue S A D token db = (r, db')"
  obtain g db1 where g: "require_role S A D SUPERVISOR_ROLES token db = (g, db1)" by fastforce
  with read_only_step [OF \<open>jwt_laws A\<close> g] r show ?thesis
    by (cases g) (auto simp: list_queue_def bind_def list_pending_def with_session_def db_select_def lift_sum_def
        split: option.splits sum.splits prod.splits)
qed

lemma get_queue_item_state:
  assumes "jwt_laws A" "get_queue_item S A D token i db = (r, db')"
  shows "db' = db \<or> (audit_only db db' \<and> keeps db_wf db db')"
proof -
  obtain g db1 where g: "require_role S A D SUPERVISOR_ROLES token db = (g, db1)" by fastforce
  obtain c db2 where c: "with_session (bind (get_or_404 D i) (\<lambda>r. lift_sum (to_queue_item r))) db = (c, db2)" by fastforce
  have db2: "db2 = db"
    using c by (auto simp: with_session_def bind_def get_or_404_def get_by_ticket_id_def db_select_def lift_sum_def
        split: option.splits sum.splits prod.splits list.splits)
  show ?thesis
  proof (cases g)
    case (Inl e)
    with g read_only_step [OF assms(1) g] assms(2) show ?thesis by (simp add: get_queue_item_def bind_def)
  next
    case (Inr u)
    obtain x db3 where l: "log_audit_event D i ''supervisor_viewed'' ''Supervisor viewed the AI draft response.''
                 (Some (us_id u)) None db = (x, db3)" by fastforce
    from log_audit_only_state [OF l] l c db2 g Inr read_only_step [OF assms(1) g] assms(2) show ?thesis
      by (cases c) (auto simp: get_queue_item_def bind_def)
  qed
qed

lemma supervisor_step_inv:
  assumes "jwt_laws A" "supervisor_step S A db db'" "queue_inv db"
  shows "queue_inv db' \<and> queue_rel db db'"
  using assms(2,3)
proof (induction rule: supervisor_step.induct)
  case (S_List D token db r db')
  then show ?case using list_queue_state [OF assms(1)] by (metis queue_rel_refl)
next
  case (S_View D token i db q db')
  then show ?case using get_queue_item_state [OF assms(1)] audit_decisions_ok audit_reviewers_ok audit_queue_rel queue_rel_refl
    by (metis keeps_def queue_inv_def)
next
  case (S_Approve D token i decision db q db')
  then show ?case unfolding endpoint_eqs
    by (elim endpoint_step [OF assms(1) _, rotated])
       (simp_all add: decided_def fixed_part_def not_reopened_def decisions_ok_def)
next
  case (S_Reject D token i decision db q db')
  then show ?case unfolding endpoint_eqs
    by (elim endpoint_step [OF assms(1) _, rotated])
       (simp_all add: decided_def fixed_part_def not_reopened_def decisions_ok_def)
next
  case (S_Edit D token i edit db q db')
  then show ?case unfolding endpoint_eqs
    by (elim endpoint_step [OF assms(1) _, rotated])
       (simp_all add: edited_def fixed_part_def not_reopened_def decisions_ok_def)
qed

end
