(* ===== verification/Api_Witnesses.thy ===== *)
theory Api_Witnesses
  imports Supervisor_Queue Witnesses
begin

section \<open>Witnesses for the API\<close>

text \<open>
  Concrete libraries for \<open>auth_libs\<close>: passwords stored as they are, and tokens that are the JSON text
  of the claims with the key and the algorithm. They satisfy \<open>jwt_laws\<close>.
\<close>

definition sample_decode :: "int \<Rightarrow> string \<Rightarrow> string \<Rightarrow> string list \<Rightarrow> exc + (string \<times> json) list" where
  "sample_decode now token key algs =
     (case json_loads token of
        Inr (JList [JObj claims, JStr k, JStr alg]) \<Rightarrow>
          if k = key \<and> alg \<in> set algs
          then (case map_of claims ''exp'' of
                  Some (JInt ts) \<Rightarrow> if ts < now then Inl (JWTError ''Signature has expired.'') else Inr claims
                | _ \<Rightarrow> Inr claims)
          else Inl (JWTError ''Signature verification failed.'')
      | _ \<Rightarrow> Inl (JWTError ''Not enough segments''))"

definition sample_auth :: auth_libs where
  "sample_auth = \<lparr>pw_hash = (\<lambda>p. p), pw_verify = (\<lambda>p h. Inr (p = h)),
     jose_encode = (\<lambda>claims key alg. let t = JList [JObj claims, JStr key, JStr alg] in
        if wf_json t then Inr (json_dumps t) else Inl (OtherExc ''not serialisable'')),
     jose_decode = sample_decode, pyd_datetime = (\<lambda>v. v \<noteq> JNull)\<rparr>"

lemma sample_decode_error: "sample_decode now token key algs = Inl e \<Longrightarrow> is_jwt_error e"
  by (auto simp: sample_decode_def is_jwt_error_def split: sum.splits json.splits list.splits if_splits option.splits)

lemma sample_decode_token:
  assumes "wf_json (JList [JObj claims, JStr key, JStr alg])" "map_of claims ''exp'' = Some (JInt ts)"
  shows "sample_decode now (json_dumps (JList [JObj claims, JStr key, JStr alg])) key [alg] =
    (if ts < now then Inl (JWTError ''Signature has expired.'') else Inr claims)"
  unfolding sample_decode_def loads_dumps [OF assms(1)] by (simp add: assms(2))

lemma sample_jwt_laws [simp]: "jwt_laws sample_auth"
  unfolding jwt_laws_def
proof (intro conjI allI impI)
  show "is_jwt_error e" if "jose_decode sample_auth now token key algs = Inl e" for now token key algs e
    using that by (intro sample_decode_error) (simp add: sample_auth_def)
next
  fix claims key alg token ts
  assume enc: "jose_encode sample_auth claims key alg = Inr token" and exp: "map_of claims ''exp'' = Some (JInt ts)"
  show "pyd_datetime sample_auth (JInt ts)" by (simp add: sample_auth_def)
  fix now
  have wf: "wf_json (JList [JObj claims, JStr key, JStr alg])"
    and tok: "token = json_dumps (JList [JObj claims, JStr key, JStr alg])"
    using enc by (simp_all add: sample_auth_def Let_def del: json_dumps.simps wf_json.simps split: if_splits)
  have "jose_decode sample_auth now token key [alg] =
      (if ts < now then Inl (JWTError ''Signature has expired.'') else Inr claims)"
    using sample_decode_token [OF wf exp] unfolding tok by (simp only: sample_auth_def auth_libs.simps)
  then show "if ts < now then \<exists>e. jose_decode sample_auth now token key [alg] = Inl e
      else jose_decode sample_auth now token key [alg] = Inr claims" by simp
qed

subsection \<open>A supervisor's token\<close>

definition sue :: user_row where "sue = sample_user SUPERVISOR"

lemma sample_epoch [simp]: "epoch_us sample_time = 1782909000000000"
  by (simp add: sample_time_def day_ordinal_def days_before_month_def is_leap_def)

lemma sample_token:
  "\<exists>token. create_access_token default_settings sample_auth sample_time i SUPERVISOR delta = Inr token"
  if "delta \<in> {None, Some 0}"
  using that by (auto simp: create_access_token_def Let_def token_lifetime_def default_settings_def sample_auth_def)

lemma sample_clock [simp]: "d_now sample_db_env db = sample_time" "d_fault sample_db_env op db = None"
  by (simp_all add: sample_db_env_def)

lemma sample_users [simp]: "db_users sample_db = [sample_user SUPERVISOR]" "db_users sample_queue_db = [sample_user SUPERVISOR]"
  by (simp_all add: sample_queue_db_def sample_db_def)

lemma sample_guard:
  assumes "create_access_token default_settings sample_auth sample_time 2 SUPERVISOR None = Inr token"
    and "db_wf db" "db_users db = [sample_user SUPERVISOR]"
  shows "require_role default_settings sample_auth sample_db_env SUPERVISOR_ROLES token db = (Inr (sample_user SUPERVISOR), db)"
proof -
  have "\<not> (epoch_us sample_time + token_lifetime default_settings None) div 1000000 < timegm sample_time"
    by (simp add: timegm_def token_lifetime_def default_settings_def)
  then have dec: "decode_access_token default_settings sample_auth (d_now sample_db_env db) token = Inr
      \<lparr>tp_sub = uuid_str 2, tp_role = SUPERVISOR,
       tp_exp = JInt ((epoch_us sample_time + token_lifetime default_settings None) div 1000000)\<rparr>"
    using created_token [OF sample_jwt_laws assms(1), of sample_time] by simp
  have "with_session (get_user sample_db_env 2) db = (Inr (Some (sample_user SUPERVISOR)), db)"
    using get_user_found [OF assms(2), of "sample_user SUPERVISOR" sample_db_env] assms(3) by (simp add: sample_user_def)
  from require_role_of [OF dec _ this, of SUPERVISOR_ROLES] show ?thesis
    by (simp add: SUPERVISOR_ROLES_def) (simp add: sample_user_def)
qed

theorem token_lifetime_exact_witness:
  "\<exists>token. create_access_token default_settings sample_auth sample_time 2 SUPERVISOR (Some 0) = Inr token
    \<and> (\<exists>p. decode_access_token default_settings sample_auth sample_time token = Inr p \<and> uuid_parse (tp_sub p) = Some 2
         \<and> tp_role p = SUPERVISOR)"
proof -
  obtain token where t: "create_access_token default_settings sample_auth sample_time 2 SUPERVISOR (Some 0) = Inr token"
    using sample_token [of "Some 0" 2] by auto
  have "timegm sample_time \<le> (epoch_us sample_time + 30 * 60000000) div 1000000" by (simp add: timegm_def)
  with token_lifetime_exact [OF sample_jwt_laws t refl, of sample_time] t show ?thesis
    by (simp add: default_settings_def)
qed

lemma sample_login:
  obtains t :: auth_token where "login default_settings sample_auth sample_db_env ''sue@example.com'' ''x'' sample_db = (Inr t, sample_db)"
    "create_access_token default_settings sample_auth sample_time 2 SUPERVISOR None = Inr (at_access_token t)"
proof -
  obtain token where t: "create_access_token default_settings sample_auth sample_time 2 SUPERVISOR None = Inr token"
    using sample_token [of None 2] by auto
  have "pw_verify sample_auth ''x'' ''x'' = Inr True" by (simp add: sample_auth_def)
  with t have "login default_settings sample_auth sample_db_env ''sue@example.com'' ''x'' sample_db
      = (Inr \<lparr>at_access_token = token, at_token_type = ''bearer''\<rparr>, sample_db)"
    by (simp add: login_def bind_def with_session_def user_by_email_def db_select_def verify_password_def sample_user_def)
  with t show thesis by (intro that [of "\<lparr>at_access_token = token, at_token_type = ''bearer''\<rparr>"]) simp_all
qed

theorem login_token_authorizes_witness:
  "\<exists>t u. login default_settings sample_auth sample_db_env ''sue@example.com'' ''x'' sample_db = (Inr t, sample_db)
    \<and> u \<in> set (db_users sample_db) \<and> us_email u = ''sue@example.com''
    \<and> require_role default_settings sample_auth sample_db_env [ADMIN] (at_access_token t) sample_db
        = (if us_role u \<in> {ADMIN} then Inr u else Inl forbidden_exception, sample_db)"
proof -
  obtain t where t: "login default_settings sample_auth sample_db_env ''sue@example.com'' ''x'' sample_db = (Inr t, sample_db)"
    using sample_login by blast
  have "\<not> (epoch_us sample_time + 30 * 60000000) div 1000000 < timegm sample_time" by (simp add: timegm_def)
  with login_token_authorizes [OF sample_jwt_laws sample_wf t, of sample_db_env "[ADMIN]"] t show ?thesis
    by (auto simp: default_settings_def)
qed

theorem require_role_sound_witness:
  "\<exists>e. require_role default_settings sample_auth sample_db_env [ADMIN] ''not a token'' sample_db = (Inl e, sample_db)
    \<and> (e = credentials_exception \<or> e = forbidden_exception)"
proof -
  obtain r db' where r: "require_role default_settings sample_auth sample_db_env [ADMIN] ''not a token'' sample_db = (r, db')"
    by fastforce
  have "sample_user SUPERVISOR = u \<Longrightarrow> us_role u \<notin> {ADMIN}" for u by (auto simp: sample_user_def)
  with require_role_sound [OF sample_jwt_laws r] r show ?thesis by (cases r) auto
qed

theorem login_refusal_is_uniform_witness:
  "login default_settings sample_auth sample_db_env ''nobody@example.com'' ''x'' sample_db = (Inl incorrect_login, sample_db)"
proof -
  have "\<exists>b. pw_verify sample_auth ''x'' h = Inr b" for h by (simp add: sample_auth_def)
  moreover have "create_access_token default_settings sample_auth now i r None \<noteq> Inl incorrect_login" for now i r
    by (auto simp: create_access_token_def Let_def overflow_error_def incorrect_login_def sample_auth_def)
  ultimately show ?thesis
    using login_refusal_is_uniform [of sample_db sample_db_env sample_auth "''x''" default_settings "''nobody@example.com''"]
    by (simp add: sample_user_def)
qed

text \<open>A token that is signed but has no subject.\<close>

definition odd_claims :: json where
  "odd_claims = JList [JObj [(''exp'', JInt 9999999999)], JStr ''CHANGE_ME'', JStr ''HS256'']"

lemma strip_array: "py_strip (json_dumps (JList (v # vs))) = json_dumps (JList (v # vs))"
proof -
  have "py_strip (CHR ''['' # m @ '']'') = CHR ''['' # m @ '']''" for m
    by (simp add: py_strip_def lstrip_def rstrip_def is_space_def)
  then show ?thesis by simp
qed

theorem rate_limit_key_outcome_witness:
  "resolve_rate_limit_key default_settings sample_auth sample_time
     \<lparr>rq_authorization = ''Bearer '' @ json_dumps odd_claims, rq_remote_address = ''10.0.0.1''\<rparr> = Inl validation_error
   \<and> (\<exists>token. resolve_rate_limit_key default_settings sample_auth sample_time
        \<lparr>rq_authorization = ''Bearer '' @ token, rq_remote_address = ''10.0.0.1''\<rparr> = Inr (''user:'' @ uuid_str 2))"
proof
  note key = rate_limit_key_outcome [OF sample_jwt_laws, where S = default_settings and now = sample_time]
  let ?rq = "\<lparr>rq_authorization = ''Bearer '' @ json_dumps odd_claims, rq_remote_address = ''10.0.0.1''\<rparr>"
  have strip: "py_strip (drop (length BEARER_PREFIX) (rq_authorization ?rq)) = json_dumps odd_claims"
    using bearer_header [of "json_dumps odd_claims"] strip_array by (simp add: odd_claims_def del: json_dumps.simps)
  have bearer: "startswith BEARER_PREFIX (py_lower (rq_authorization ?rq))"
    using bearer_header [of "json_dumps odd_claims"] by (simp only: http_request.simps)
  have dec: "jose_decode sample_auth (timegm sample_time) (json_dumps odd_claims)
      (jwt_secret_key default_settings) [jwt_algorithm default_settings] = Inr [(''exp'', JInt 9999999999)]"
    using sample_decode_token [of "[(''exp'', JInt 9999999999)]" "''CHANGE_ME''" "''HS256''" 9999999999 "timegm sample_time"]
    by (simp add: odd_claims_def sample_auth_def timegm_def default_settings_def del: json_dumps.simps)
  have "token_payload_of sample_auth [(''exp'', JInt 9999999999)] = Inl validation_error"
    by (simp add: token_payload_of_def)
  then show "resolve_rate_limit_key default_settings sample_auth sample_time ?rq = Inl validation_error"
    unfolding conjunct1 [OF key] Let_def strip dec using bearer by (simp only: simp_thms if_False sum.case)
  obtain token where t: "create_access_token default_settings sample_auth sample_time 2 SUPERVISOR None = Inr token"
    using sample_token [of None 2] by auto
  then have "py_strip token = token"
    using strip_array by (auto simp: create_access_token_def sample_auth_def Let_def simp del: json_dumps.simps wf_json.simps split: if_splits)
  moreover have "timegm sample_time \<le> (epoch_us sample_time + token_lifetime default_settings None) div 1000000"
    by (simp add: timegm_def token_lifetime_def default_settings_def)
  ultimately show "\<exists>token. resolve_rate_limit_key default_settings sample_auth sample_time
        \<lparr>rq_authorization = ''Bearer '' @ token, rq_remote_address = ''10.0.0.1''\<rparr> = Inr (''user:'' @ uuid_str 2)"
    using conjunct2 [OF key, THEN mp, OF t] by (intro exI [of _ token]) (simp only: simp_thms if_True)
qed

subsection \<open>The queue\<close>

lemma queue_wf [simp]: "db_wf sample_queue_db"
  by (simp add: db_wf_def sample_queue_db_def sample_db_def sample_rows sample_approval_def ticket_ok_def id_lists
      fk_opt_def approval_fk_def)

lemma queue_ready:
  obtains token where "supervisor_ready default_settings sample_auth sample_db_env token 3 (sample_user SUPERVISOR) sample_queue_db"
proof -
  obtain token where t: "create_access_token default_settings sample_auth sample_time 2 SUPERVISOR None = Inr token"
    using sample_token [of None 2] by auto
  have "requests_of sample_queue_db 3 \<noteq> []" "db_audit_logs sample_queue_db = []"
    by (simp_all add: requests_of_def sample_queue_db_def sample_approval_def sample_db_def)
  with sample_guard [OF t] show thesis by (intro that [of token]) (simp add: supervisor_ready_def)
qed

theorem supervisor_decision_witness:
  "\<exists>token item db'. reject_ticket default_settings sample_auth sample_db_env token 3 \<lparr>dr_comments = Some ''no''\<rparr> sample_queue_db
      = (Inr item, db') \<and> qi_status item = AS_REJECTED \<and> qi_reviewer_id item = Some 2"
proof -
  obtain token where t: "supervisor_ready default_settings sample_auth sample_db_env token 3 (sample_user SUPERVISOR) sample_queue_db"
    by (rule queue_ready)
  have "us_id (sample_user SUPERVISOR) = 2" by (simp add: sample_user_def)
  with supervisor_decision [OF sample_jwt_laws t, of "reject_ticket default_settings sample_auth sample_db_env"
      AS_REJECTED "''supervisor_rejected''" "\<lparr>dr_comments = Some ''no''\<rparr>"]
  show ?thesis by auto
qed

theorem draft_edit_changes_only_the_draft_witness:
  "\<exists>token item db'. edit_draft default_settings sample_auth sample_db_env token 3 \<lparr>ed_draft_response = ''better''\<rparr> sample_queue_db
      = (Inr item, db') \<and> qi_draft_response item = ''better''"
proof -
  obtain token where t: "supervisor_ready default_settings sample_auth sample_db_env token 3 (sample_user SUPERVISOR) sample_queue_db"
    by (rule queue_ready)
  from draft_edit_changes_only_the_draft [OF sample_jwt_laws t, of "\<lparr>ed_draft_response = ''better''\<rparr>"]
  show ?thesis by auto
qed

theorem list_queue_shows_the_pending_witness:
  "\<exists>token items. list_queue default_settings sample_auth sample_db_env token sample_queue_db
     = (Inr \<lparr>qr_items = items, qr_total = length items\<rparr>, sample_queue_db)
    \<and> length items = 2 \<and> sorted (map qi_requested_at items)"
proof -
  obtain token where t: "create_access_token default_settings sample_auth sample_time 2 SUPERVISOR None = Inr token"
    using sample_token [of None 2] by auto
  obtain items where i: "list_queue default_settings sample_auth sample_db_env token sample_queue_db
     = (Inr \<lparr>qr_items = items, qr_total = length items\<rparr>, sample_queue_db)" "sorted (map qi_requested_at items)"
    and m: "mset (map (\<lambda>q. (qi_ticket_id q, qi_draft_response q, qi_matched_policy_rules q, qi_requested_at q)) items) =
        mset (map (\<lambda>a. (ap_ticket_id a, ap_draft_response a, ap_matched_policy_rules a, ap_requested_at a)) (pending_rows sample_queue_db))"
    using list_queue_shows_the_pending [OF queue_wf _ sample_guard [OF t queue_wf]] by auto
  from arg_cong [OF m, of size] have "length items = length (pending_rows sample_queue_db)" by simp
  also have "\<dots> = 2" by (simp add: pending_rows_def sample_queue_db_def sample_approval_def)
  finally show ?thesis using i by blast
qed

text \<open>A queue with one pending request, which a supervisor rejects.\<close>

definition pending_db :: database where
  "pending_db = sample_db\<lparr>db_approvals := [sample_approval 12 9 AS_PENDING]\<rparr>"

lemma pending_facts [simp]:
  "db_wf pending_db" "decisions_ok pending_db" "reviewers_ok pending_db" "db_users pending_db = [sample_user SUPERVISOR]"
  "requests_of pending_db 3 \<noteq> []" "db_audit_logs pending_db = []" "db_approvals pending_db \<noteq> []"
  by (simp_all add: db_wf_def pending_db_def sample_db_def sample_rows sample_approval_def ticket_ok_def id_lists
      fk_opt_def approval_fk_def decisions_ok_def reviewers_ok_def requests_of_def)

end
