(* ===== verification/Ticket_Lifecycle.thy ===== *)
theory Ticket_Lifecycle
  imports Ticket_Outcomes Api_Witnesses
begin

section \<open>A ticket from its creation to its decision\<close>

text \<open>
  The routes together: \<^verbatim>\<open>POST /tickets\<close> with its dependency \<open>get_current_active_user\<close>, which runs before
  the body of \<open>create_ticket_endpoint\<close>, then the supervisor's list and decision on the database that
  the creation leaves. Each request has circumstances \<open>D\<close> of its own.
\<close>

definition post_tickets ::
    "'r env \<Rightarrow> auth_libs \<Rightarrow> string \<Rightarrow> ticket_create_request \<Rightarrow> string option \<Rightarrow> (nat \<times> ticket_create_response, 'r world) comp" where
  "post_tickets E A token payload idempotency_key =
     bind (on_db (get_current_active_user (e_settings E) A (e_db E) token))
       (\<lambda>user. create_ticket_endpoint E payload idempotency_key)"

lemma post_tickets_unauthorised:
  assumes "get_current_active_user (e_settings E) A (e_db E) token (w_db w) = (Inl e, w_db w)"
  shows "post_tickets E A token q key w = (Inl e, w)"
  using assms by (simp add: post_tickets_def on_db_def bind_def)

lemma post_tickets_authorised:
  assumes "get_current_active_user (e_settings E) A (e_db E) token (w_db w) = (Inr u, w_db w)"
  shows "post_tickets E A token q key w = create_ticket_endpoint E q key w"
  using assms by (simp add: post_tickets_def on_db_def bind_def)

lemma creation_keeps_wf:
  assumes "redis_laws (e_redis E)" "kickoff_law E T" "db_wf (w_db w)" "create_ticket_endpoint E q key w = (r, w')"
  shows "db_wf (w_db w')"
proof -
  obtain x v where "create_ticket E q key w = (x, v)" by fastforce
  with endpoint_state [OF this] assms(4) have "create_ticket E q key w = (x, w')" by auto
  from stepsD [OF steps_create_ticket [OF assms(1,2) row_closed_wf] this] assms(3) show ?thesis
    by (simp add: world_rel_def keeps_def)
qed

text \<open>The only request of a ticket, as the supervisor endpoints find it.\<close>

lemma only_request:
  assumes "requests_of db i = [a]"
  shows "latest_request D db i = a"
  using assms by (simp add: latest_request_def order_desc_def order_asc_def)

lemma pending_listed:
  assumes "db_wf db" "d_fault D DbSelect db = None" "require_role S A D SUPERVISOR_ROLES token db = (Inr u, db)"
    and "a \<in> set (db_approvals db)" "ap_status a = AS_PENDING"
  shows "\<exists>items. list_queue S A D token db = (Inr \<lparr>qr_items = items, qr_total = length items\<rparr>, db)
    \<and> item_of a (ticket_of db a) \<in> set items"
  using list_queue_ok [OF assms(1-3)] assms(4,5) by (auto simp: pending_rows_def)

lemma find_snoc: "find P xs = None \<Longrightarrow> P t \<Longrightarrow> find P (xs @ [t]) = Some t"
  by (induction xs) (auto split: if_splits)

lemma new_ticket_found:
  assumes "distinct (ticket_ids db)" "db_tickets db = ts @ [t]" "ap_ticket_id a = tk_id t"
  shows "ticket_of db a = t"
proof -
  have "\<forall>x \<in> set ts. tk_id x \<noteq> tk_id t" using assms(1,2) by (auto simp: ticket_ids_def image_iff)
  then have "find (\<lambda>x. tk_id x = tk_id t) ts = None" by (simp add: find_None_iff)
  from find_snoc [OF this] show ?thesis by (simp add: ticket_of_def assms(2,3))
qed

text \<open>A ticket with a single request: the approval reaches it, keeps its draft, and leaves none pending.\<close>

lemma only_request_approved:
  assumes "db_wf db" "no_faults D" "require_role S A D SUPERVISOR_ROLES token db = (Inr u, db)" "u \<in> set (db_users db)"
    and "\<forall>db'. d_new_id D db' \<notin> al_id ` set (db_audit_logs db)" "requests_of db i = [a]"
  shows "\<exists>item db'. approve_ticket S A D token i decision db = (Inr item, db')
    \<and> qi_status item = AS_APPROVED \<and> qi_draft_response item = ap_draft_response a
    \<and> (\<forall>x \<in> set (db_approvals db'). ap_ticket_id x = i \<longrightarrow> ap_status x = AS_APPROVED)"
proof -
  let ?f = "\<lambda>uid. decided D AS_APPROVED uid (dr_comments decision)"
  have "requests_of db i \<noteq> []" using assms(6) by simp
  from queue_endpoint_ok [OF assms(2,1,3) this assms(4) _ refl, of "''supervisor_approved''" ?f
      "''Supervisor approved the AI draft response.''"
      "Some [(''comments'', case dr_comments decision of None \<Rightarrow> JNull | Some c \<Rightarrow> JStr c)]"] assms(5)
  obtain l where l: "approve_ticket S A D token i decision db =
      (Inr (item_of (?f (us_id u) db a) (ticket_of db a)),
       (replace_approval (?f (us_id u) db a) db)\<lparr>db_audit_logs := db_audit_logs db @ [l]\<rparr>)"
    unfolding endpoint_eqs only_request [OF assms(6)] by (auto simp: decided_def)
  have "x \<in> set (requests_of db i)" if "x \<in> set (db_approvals db)" "ap_ticket_id x = i" for x
    using that by (simp add: requests_of_def)
  then have "x = a" if "x \<in> set (db_approvals db)" "ap_ticket_id x = i" for x
    using that assms(6) by auto
  then show ?thesis unfolding l by (auto simp: replace_approval_def decided_def)
qed

text \<open>A ticket that is new has no request yet, and its pending request is listed with it.\<close>

lemma new_ticket_unreviewed:
  assumes "db_wf db" "distinct (ticket_ids db')" "db_tickets db' = db_tickets db @ [t]"
  shows "\<forall>a \<in> set (db_approvals db). ap_ticket_id a \<noteq> tk_id t"
proof -
  have "tk_id t \<notin> set (ticket_ids db)" using assms(2,3) by (auto simp: ticket_ids_def)
  then show ?thesis using assms(1) by (auto simp: db_wf_def approval_fk_def)
qed

lemma review_listed:
  assumes "db_wf db" "no_faults D" "require_role S A D SUPERVISOR_ROLES token db = (Inr u, db)"
    and "db_tickets db = ts @ [t]" "a \<in> set (db_approvals db)" "ap_status a = AS_PENDING" "ap_ticket_id a = tk_id t"
  shows "\<exists>items. list_queue S A D token db = (Inr \<lparr>qr_items = items, qr_total = length items\<rparr>, db)
    \<and> (\<exists>i \<in> set items. qi_ticket_id i = tk_id t \<and> qi_customer_id i = tk_customer_id t \<and> qi_priority i = tk_priority t
         \<and> qi_draft_response i = ap_draft_response a \<and> qi_matched_policy_rules i = ap_matched_policy_rules a)"
proof -
  have "d_fault D DbSelect db = None" "distinct (ticket_ids db)" using assms(1,2) by (simp_all add: no_faults_def db_wf_def)
  with pending_listed [OF assms(1) _ assms(3,5,6)] new_ticket_found [OF _ assms(4,7)] obtain items where
    "list_queue S A D token db = (Inr \<lparr>qr_items = items, qr_total = length items\<rparr>, db)" "item_of a t \<in> set items" by auto
  with assms(7) show ?thesis by (intro exI [of _ items] conjI bexI [of _ "item_of a t"]) (auto simp: item_of_def)
qed

text \<open>C2: the life of a ticket. When nothing fails, a request of a signed-in user for an existing customer that
  is not a repetition (it has no \<open>Idempotency-Key\<close>, or one that no earlier request has claimed, \<open>key_ready\<close>)
  is answered 201, the ticket is stored as new with what the request says, and the answer has the policy's
  decision on the subject and the description. If the answer asks for a human review, the list that any
  supervisor then gets contains the ticket, with its customer and priority and exactly the draft and
  the rules that the answer showed; and the supervisor's approval finds it, keeps that draft, and
  leaves no request of the ticket pending. If it does not, no request of the ticket is in the queue.\<close>

theorem ticket_reaches_the_supervisor:
  assumes "redis_laws (e_redis E)" and "clients_ok E" and "kickoff_law E T" and "jwt_laws A"
    and "creation_ready (e_db E) q (w_db w)" and "key_ready E key w" and "db_wf (w_db w)"
    and "get_current_active_user (e_settings E) A (e_db E) token (w_db w) = (Inr caller, w_db w)"
  shows "\<exists>response w'. post_tickets E A token q key w = (Inr (201, response), w')
    \<and> db_wf (w_db w') \<and> db_users (w_db w') = db_users (w_db w)
    \<and> (\<exists>t. db_tickets (w_db w') = db_tickets (w_db w) @ [t] \<and> tk_id t = tr_ticket_id response \<and> tk_status t = TS_NEW
         \<and> tk_customer_id t = tq_customer_id q \<and> tk_subject t = tq_subject q \<and> tk_description t = tq_description q
         \<and> tk_priority t = tq_priority q)
    \<and> (\<exists>v p. evaluate_policy (tq_subject q @ [nl, nl] @ tq_description q) PLACEHOLDER_CONFIDENCE_SCORE v = Inr p
         \<and> tr_requires_human_review response = requires_human_review p \<and> tr_matched_policy_rules response = matched_rules p)
    \<and> (if tr_requires_human_review response
       then \<forall>D S stoken u. no_faults D \<and> require_role S A D SUPERVISOR_ROLES stoken (w_db w') = (Inr u, w_db w') \<longrightarrow>
          (\<exists>items. list_queue S A D stoken (w_db w') = (Inr \<lparr>qr_items = items, qr_total = length items\<rparr>, w_db w')
             \<and> (\<exists>i \<in> set items. qi_ticket_id i = tr_ticket_id response \<and> qi_customer_id i = tq_customer_id q
                  \<and> qi_priority i = tq_priority q \<and> qi_draft_response i = tr_draft_response response
                  \<and> qi_matched_policy_rules i = tr_matched_policy_rules response))
          \<and> ((\<forall>db. d_new_id D db \<notin> al_id ` set (db_audit_logs (w_db w'))) \<longrightarrow>
             (\<exists>i db. approve_ticket S A D stoken (tr_ticket_id response) decision (w_db w') = (Inr i, db)
                \<and> qi_status i = AS_APPROVED \<and> qi_draft_response i = tr_draft_response response
                \<and> (\<forall>a \<in> set (db_approvals db). ap_ticket_id a = tr_ticket_id response \<longrightarrow> ap_status a = AS_APPROVED)))
       else \<forall>a \<in> set (db_approvals (w_db w')). ap_ticket_id a \<noteq> tr_ticket_id response)"
proof -
  obtain response w' t where cr: "create_ticket_endpoint E q key w = (Inr (201, response), w')"
    and users: "db_users (w_db w') = db_users (w_db w)"
    and pol: "\<exists>v p. evaluate_policy (tq_subject q @ [nl, nl] @ tq_description q) PLACEHOLDER_CONFIDENCE_SCORE v = Inr p
         \<and> tr_requires_human_review response = requires_human_review p \<and> tr_matched_policy_rules response = matched_rules p"
    and t: "db_tickets (w_db w') = db_tickets (w_db w) @ [t]" "tk_id t = tr_ticket_id response"
      "tk_customer_id t = tq_customer_id q" "tk_priority t = tq_priority q"
      "tk_status t = TS_NEW" "tk_subject t = tq_subject q" "tk_description t = tq_description q"
    and queue: "if tr_requires_human_review response
       then \<exists>a. db_approvals (w_db w') = db_approvals (w_db w) @ [a] \<and> ap_status a = AS_PENDING
          \<and> ap_ticket_id a = tr_ticket_id response \<and> ap_draft_response a = tr_draft_response response
          \<and> ap_matched_policy_rules a = tr_matched_policy_rules response
       else db_approvals (w_db w') = db_approvals (w_db w)"
    using creation_outcome [OF assms(1,2,3,5,6)] by blast
  let ?db = "w_db w'"
  have stored: "\<exists>t. db_tickets ?db = db_tickets (w_db w) @ [t] \<and> tk_id t = tr_ticket_id response \<and> tk_status t = TS_NEW
         \<and> tk_customer_id t = tq_customer_id q \<and> tk_subject t = tq_subject q \<and> tk_description t = tq_description q
         \<and> tk_priority t = tq_priority q" using t by blast
  have post: "post_tickets E A token q key w = (Inr (201, response), w')"
    using post_tickets_authorised [OF assms(8)] cr by simp
  have wf: "db_wf ?db" by (rule creation_keeps_wf [OF assms(1,3,7) cr])
  then have "distinct (ticket_ids ?db)" by (simp add: db_wf_def)
  from new_ticket_unreviewed [OF assms(7) this t(1)] t(2)
  have old: "\<forall>a \<in> set (db_approvals (w_db w)). ap_ticket_id a \<noteq> tr_ticket_id response" by simp
  show ?thesis
  proof (cases "tr_requires_human_review response")
    case False
    with post wf users pol stored queue old show ?thesis by (intro exI [of _ response] exI [of _ w']) auto
  next
    case True
    then obtain a where a: "db_approvals ?db = db_approvals (w_db w) @ [a]" "ap_status a = AS_PENDING"
      "ap_ticket_id a = tr_ticket_id response" "ap_draft_response a = tr_draft_response response"
      "ap_matched_policy_rules a = tr_matched_policy_rules response" using queue by auto
    have reqs: "requests_of ?db (tr_ticket_id response) = [a]"
      using a old by (auto simp: requests_of_def filter_empty_conv)
    note listed = review_listed [OF wf _ _ t(1), of _ _ _ _ _ a, unfolded a t, simplified a, OF _ _ _ refl refl]
    have approved: "\<exists>i db. approve_ticket S A D stoken (tr_ticket_id response) decision ?db = (Inr i, db)
         \<and> qi_status i = AS_APPROVED \<and> qi_draft_response i = tr_draft_response response
         \<and> (\<forall>a \<in> set (db_approvals db). ap_ticket_id a = tr_ticket_id response \<longrightarrow> ap_status a = AS_APPROVED)"
      if D: "no_faults D" "require_role S A D SUPERVISOR_ROLES stoken ?db = (Inr u, ?db)"
        "\<forall>db. d_new_id D db \<notin> al_id ` set (db_audit_logs ?db)" for D S stoken u
      using only_request_approved [OF wf D(1,2) _ D(3) reqs] require_role_sound_aux [OF assms(4) D(2)] a(4) by simp
    from post wf users pol stored True listed approved show ?thesis by (intro exI [of _ response] exI [of _ w']) simp
  qed
qed

definition lawsuit_request :: ticket_create_request where
  "lawsuit_request = (sample_request 1)\<lparr>tq_subject := ''A lawsuit''\<rparr>"

lemma lawsuit_ready [simp]: "creation_ready sample_db_env lawsuit_request sample_db"
  using sample_creation_ready
  by (simp add: creation_ready_def lawsuit_request_def valid_request_def sample_request_def)

lemma lawsuit_escalates: "requires_human_review (policy_of (tq_subject lawsuit_request @ t) c u)"
proof -
  have "contains ''lawsuit'' (py_lower ''A lawsuit'')" by code_simp
  then have "requires_human_review (policy_of ''A lawsuit'' c u)"
    unfolding requires_review_iff by (auto simp: ESCALATION_KEYWORDS_def)
  from requires_review_context [OF this, of "[]" t] show ?thesis by (simp add: lawsuit_request_def)
qed

theorem ticket_reaches_the_supervisor_witness:
  "\<exists>token response w' items. post_tickets (live_env ''technical'' (Inr (OtherOutput ''ok''))) sample_auth token lawsuit_request (Some ''k'') live_world
      = (Inr (201, response), w') \<and> tr_requires_human_review response
    \<and> list_queue default_settings sample_auth sample_db_env token (w_db w') = (Inr \<lparr>qr_items = items, qr_total = length items\<rparr>, w_db w')
    \<and> tr_ticket_id response \<in> qi_ticket_id ` set items"
proof -
  let ?E = "live_env ''technical'' (Inr (OtherOutput ''ok''))"
  obtain token where t: "create_access_token default_settings sample_auth sample_time 2 SUPERVISOR None = Inr token"
    using sample_token [of None] by auto
  from sample_guard [OF t sample_wf sample_users(1)] have "require_role default_settings sample_auth sample_db_env SUPERVISOR_ROLES token sample_db
      = (Inr (sample_user SUPERVISOR), sample_db)" .
  then have "get_current_active_user default_settings sample_auth sample_db_env token sample_db = (Inr (sample_user SUPERVISOR), sample_db)"
    by (auto simp: require_role_def bind_def split: prod.splits sum.splits if_splits)
  then have me: "get_current_active_user (e_settings ?E) sample_auth (e_db ?E) token (w_db live_world) = (Inr (sample_user SUPERVISOR), w_db live_world)"
    by simp
  have "key_ready ?E (Some ''k'') live_world" by (simp add: key_ready_def claim_or_get_existing_def)
  moreover have "creation_ready (e_db ?E) lawsuit_request (w_db live_world)" "db_wf (w_db live_world)" "redis_laws (e_redis ?E)" by simp_all
  ultimately have ready: "redis_laws (e_redis ?E)" "creation_ready (e_db ?E) lawsuit_request (w_db live_world)"
    "key_ready ?E (Some ''k'') live_world" "db_wf (w_db live_world)" by blast+
  note T = ticket_reaches_the_supervisor [OF ready(1) base_clients_ok base_kickoff_law sample_jwt_laws ready(2-4) me, of "\<lparr>dr_comments = None\<rparr>"]
  from T show ?thesis
  proof (elim exE conjE, goal_cases)
    case (1 response w' t v p)
    have review: "tr_requires_human_review response"
      using 1(8) 1(6) [symmetric] lawsuit_escalates unfolding evaluate_policy_eq by (simp del: append.simps)
    from 1(3) have "db_users (w_db w') = [sample_user SUPERVISOR]" by simp
    note guard = sample_guard [OF t 1(2) this]
    have "\<exists>items. list_queue default_settings sample_auth sample_db_env token (w_db w') = (Inr \<lparr>qr_items = items, qr_total = length items\<rparr>, w_db w')
       \<and> tr_ticket_id response \<in> qi_ticket_id ` set items"
      using 1(4) [unfolded if_P [OF review]] guard sample_no_faults by (metis imageI)
    with 1(1) review show ?case by blast
  qed
qed

end
