(* ===== verification/Api_Invariant.thy ===== *)
theory Api_Invariant
  imports Ticket_Lifecycle
begin

section \<open>The whole API\<close>

text \<open>
  Every route of the application as a step on the state: the creation of tickets, the routes of the
  supervisors, login, and the routes that only read. Each request has an environment of its own, so
  that any statement may fail, the models may answer anything and the clock and the new keys may be
  anything. The Redis server may change between the requests in any way.
\<close>

inductive api_step :: "auth_libs \<Rightarrow> 'r world \<Rightarrow> 'r world \<Rightarrow> bool" for A where
  A_Ticket: "redis_laws (e_redis E) \<Longrightarrow> kickoff_law E T \<Longrightarrow> post_tickets E A token q key w = (r, w') \<Longrightarrow> api_step A w w'"
| A_Supervisor: "supervisor_step S A (w_db w) db' \<Longrightarrow> api_step A w (w\<lparr>w_db := db'\<rparr>)"
| A_Login: "login S A D username password (w_db w) = (t, db') \<Longrightarrow> api_step A w (w\<lparr>w_db := db'\<rparr>)"
| A_Me: "read_current_user S A D token (w_db w) = (u, db') \<Longrightarrow> api_step A w (w\<lparr>w_db := db'\<rparr>)"
| A_Customers: "list_customers S A D token (w_db w) = (cs, db') \<Longrightarrow> api_step A w (w\<lparr>w_db := db'\<rparr>)"
| A_Redis: "api_step A w (w\<lparr>w_redis := redis\<rparr>)"

subsection \<open>What the requests may do to the tables\<close>

text \<open>Rows are added to the tickets, the requests and the audit log. An old request keeps its fixed part
  and its place, and is not reopened.\<close>

definition extends :: "approval_row list \<Rightarrow> approval_row list \<Rightarrow> bool" where
  "extends as as' \<longleftrightarrow> (\<exists>bs cs. as' = bs @ cs \<and> map fixed_part bs = map fixed_part as \<and> list_all2 not_reopened as bs)"

definition api_rel :: "database \<Rightarrow> database \<Rightarrow> bool" where
  "api_rel db db' \<longleftrightarrow>
     db_customers db' = db_customers db \<and> db_users db' = db_users db \<and> db_articles db' = db_articles db
     \<and> db_agent_runs db' = db_agent_runs db
     \<and> (\<exists>ts. db_tickets db' = db_tickets db @ ts) \<and> (\<exists>ls. db_audit_logs db' = db_audit_logs db @ ls)
     \<and> extends (db_approvals db) (db_approvals db')"

lemma extends_refl [simp]: "extends as as"
  unfolding extends_def by (rule exI [of _ as], rule exI [of _ "[]"]) simp

lemma extends_append [simp]: "extends as (as @ cs)"
  unfolding extends_def by (rule exI [of _ as], rule exI [of _ cs]) simp

lemma extends_trans:
  assumes "extends as bs" and "extends bs cs"
  shows "extends as cs"
proof -
  obtain b1 b2 where b: "bs = b1 @ b2" "map fixed_part b1 = map fixed_part as" "list_all2 not_reopened as b1"
    using assms(1) by (auto simp: extends_def)
  obtain c1 c2 where c: "cs = c1 @ c2" "map fixed_part c1 = map fixed_part bs" "list_all2 not_reopened bs c1"
    using assms(2) by (auto simp: extends_def)
  let ?k = "length b1"
  have "map fixed_part (take ?k c1) = map fixed_part as" using b(1,2) c(2) by (metis append_eq_conv_conj take_map map_append length_map)
  moreover have "list_all2 not_reopened b1 (take ?k c1)"
    using list_all2_takeI [OF c(3), of ?k] b(1) by simp
  then have "list_all2 not_reopened as (take ?k c1)" by (rule not_reopened_trans [OF b(3)])
  moreover have "cs = take ?k c1 @ (drop ?k c1 @ c2)" using c(1) by simp
  ultimately show ?thesis unfolding extends_def by blast
qed

lemma api_rel_refl: "api_rel db db"
  by (simp add: api_rel_def)

lemma api_rel_trans: "api_rel a b \<Longrightarrow> api_rel b c \<Longrightarrow> api_rel a c"
  unfolding api_rel_def using extends_trans by fastforce

lemma queue_rel_api: "queue_rel db db' \<Longrightarrow> api_rel db db'"
  unfolding queue_rel_def api_rel_def extends_def by (metis append_Nil2)

text \<open>The rows that a ticket request adds respect the relation and the invariant.\<close>

lemma row_closed_api: "row_closed api_rel"
proof -
  have "reflp api_rel" "transp api_rel"
    using api_rel_refl api_rel_trans by (auto intro: reflpI transpI)
  then show ?thesis unfolding row_closed_def
    by (auto simp: insert_defs api_rel_def split: if_splits)
qed

lemma row_closed_queue: "row_closed (keeps queue_inv)"
proof -
  have rows: "decisions_ok (db\<lparr>db_tickets := ts\<rparr>) = decisions_ok db" "reviewers_ok (db\<lparr>db_tickets := ts\<rparr>) = reviewers_ok db"
    "decisions_ok (db\<lparr>db_audit_logs := ls\<rparr>) = decisions_ok db" "reviewers_ok (db\<lparr>db_audit_logs := ls\<rparr>) = reviewers_ok db"
    for db ts ls by (simp_all add: decisions_ok_def reviewers_ok_def supervises_def)
  have new: "decisions_ok (db\<lparr>db_approvals := db_approvals db @ [a]\<rparr>) = decisions_ok db"
    "reviewers_ok (db\<lparr>db_approvals := db_approvals db @ [a]\<rparr>) = reviewers_ok db" if "undecided a" for db a
    using that by (auto simp: undecided_def decisions_ok_def reviewers_ok_def supervises_def)
  have "keeps queue_inv db db'" if "insert_ticket t db = Inr db'" for t db db'
    using insert_ticket_wf [OF _ that] that rows by (auto simp: keeps_def queue_inv_def insert_ticket_def split: if_splits)
  moreover have "keeps queue_inv db db'" if "undecided a" "insert_approval a db = Inr db'" for a db db'
    using insert_approval_wf [OF _ that(2)] that(2) new [OF that(1)] by (auto simp: keeps_def queue_inv_def insert_approval_def split: if_splits)
  moreover have "keeps queue_inv db db'" if "insert_audit l db = Inr db'" for l db db'
    using insert_audit_wf [OF _ that] that rows by (auto simp: keeps_def queue_inv_def insert_audit_def split: if_splits)
  ultimately show ?thesis unfolding row_closed_def by simp
qed

subsection \<open>One request\<close>

lemma active_user_state:
  assumes "jwt_laws A" and "get_current_active_user S A D token db = (r, db')"
  shows "db' = db"
proof -
  have "snd (require_role S A D allowed token db) = db'" for allowed
    using assms(2) by (auto simp: require_role_def bind_def raise_def ret_def split: sum.splits)
  then show ?thesis using require_role_sound_aux [OF assms(1), of S D "[]" token db] by (metis prod.collapse)
qed

lemma list_customers_state:
  assumes "jwt_laws A" and "list_customers S A D token db = (r, db')"
  shows "db' = db"
proof -
  obtain g db1 where g: "get_current_active_user S A D token db = (g, db1)" by fastforce
  with active_user_state [OF assms(1) g] assms(2) show ?thesis
    by (cases g) (auto simp: list_customers_def bind_def ret_def Let_def customer_list_all_def with_session_def db_select_def
        split: option.splits sum.splits prod.splits)
qed

lemma read_current_user_state:
  assumes "jwt_laws A" and "read_current_user S A D token db = (r, db')"
  shows "db' = db"
  using assms(2) active_user_state [OF assms(1)] by (auto simp: read_current_user_def bind_def ret_def split: sum.splits prod.splits)

lemma post_tickets_state:
  assumes "jwt_laws A" and "redis_laws (e_redis E)" and "kickoff_law E T" and "row_closed Q"
    and "post_tickets E A token q key w = (r, w')"
  shows "Q (w_db w) (w_db w')"
proof -
  have refl: "Q (w_db w) (w_db w)" using assms(4) by (simp add: row_closed_def reflpD)
  obtain g db1 where g: "get_current_active_user (e_settings E) A (e_db E) token (w_db w) = (g, db1)" by fastforce
  then have g: "get_current_active_user (e_settings E) A (e_db E) token (w_db w) = (g, w_db w)"
    using active_user_state [OF assms(1) g] by simp
  show ?thesis
  proof (cases g)
    case (Inl e)
    then show ?thesis using post_tickets_unauthorised [OF g [unfolded Inl], of q key] assms(5) refl by simp
  next
    case (Inr u)
    obtain x v where c: "create_ticket E q key w = (x, v)" by fastforce
    then have "w' = v \<or> w' = w"
      using post_tickets_authorised [OF g [unfolded Inr], of q key] endpoint_state [OF c] assms(5) by auto
    then show ?thesis
      using stepsD [OF steps_create_ticket [OF assms(2,3,4)] c] refl by (auto simp: world_rel_def)
  qed
qed

lemma api_step_inv:
  assumes "jwt_laws A" "api_step A w w'" "queue_inv (w_db w)"
  shows "queue_inv (w_db w') \<and> api_rel (w_db w) (w_db w')"
  using assms(2,3)
proof cases
  case (A_Ticket E T token q key r)
  from post_tickets_state [OF assms(1) A_Ticket(1,2) row_closed_queue A_Ticket(3)]
    post_tickets_state [OF assms(1) A_Ticket(1,2) row_closed_api A_Ticket(3)] assms(3)
  show ?thesis by (simp add: keeps_def)
next
  case (A_Supervisor S db')
  from supervisor_step_inv [OF assms(1) A_Supervisor(2) assms(3)] queue_rel_api A_Supervisor(1) show ?thesis by simp
next
  case (A_Login S D username password t db')
  then show ?thesis using login_cases [OF A_Login(2)] assms(3) api_rel_refl by simp
next
  case (A_Me S D token u db')
  then show ?thesis using read_current_user_state [OF assms(1) A_Me(2)] assms(3) api_rel_refl by simp
next
  case (A_Customers S D token cs db')
  then show ?thesis using list_customers_state [OF assms(1) A_Customers(2)] assms(3) api_rel_refl by simp
next
  case (A_Redis redis)
  then show ?thesis using assms(3) api_rel_refl by simp
qed

subsection \<open>Any number of requests\<close>

text \<open>C3: what the API can do to the tables, with any number of requests to any of its routes, in any order, by
  anyone, whatever fails in between and whatever the language model answers. The constraints of the
  schema hold throughout; a pending request has no reviewer, and a decided one has a time and a
  reviewer who is an active supervisor or administrator; no request that was decided is ever pending
  again, and no request is lost or moved to another ticket. Tickets and audit events are only added,
  and the customers, the users, the articles and the agent runs are never written.\<close>

theorem api_keeps_the_tables:
  assumes "jwt_laws A" and "(api_step A)\<^sup>*\<^sup>* w w'" and "db_wf (w_db w)" and "decisions_ok (w_db w)" and "reviewers_ok (w_db w)"
  shows "db_wf (w_db w') \<and> decisions_ok (w_db w') \<and> reviewers_ok (w_db w')
    \<and> (\<exists>bs cs. db_approvals (w_db w') = bs @ cs \<and> list_all2 not_reopened (db_approvals (w_db w)) bs
         \<and> map fixed_part bs = map fixed_part (db_approvals (w_db w)))
    \<and> (\<exists>ts. db_tickets (w_db w') = db_tickets (w_db w) @ ts)
    \<and> (\<exists>ls. db_audit_logs (w_db w') = db_audit_logs (w_db w) @ ls)
    \<and> db_customers (w_db w') = db_customers (w_db w) \<and> db_users (w_db w') = db_users (w_db w)
    \<and> db_articles (w_db w') = db_articles (w_db w) \<and> db_agent_runs (w_db w') = db_agent_runs (w_db w)"
proof -
  from assms(2) have "queue_inv (w_db w') \<and> api_rel (w_db w) (w_db w')"
  proof (induction rule: rtranclp_induct)
    case base
    from assms(3-5) show ?case by (simp add: queue_inv_def api_rel_refl)
  next
    case (step y z)
    with api_step_inv [OF assms(1) step(2)] show ?case using api_rel_trans by blast
  qed
  then show ?thesis unfolding queue_inv_def api_rel_def extends_def by blast
qed

text \<open>A supervisor rejects the pending request, and a ticket is posted after that.\<close>

theorem api_keeps_the_tables_witness:
  "\<exists>token item db1 r w2. reject_ticket default_settings sample_auth sample_db_env token 3 \<lparr>dr_comments = None\<rparr> pending_db = (Inr item, db1)
     \<and> qi_status item = AS_REJECTED
     \<and> post_tickets (live_env ''technical'' (Inr (OtherOutput ''ok''))) sample_auth token lawsuit_request None (live_world\<lparr>w_db := db1\<rparr>) = (r, w2)
     \<and> decisions_ok (w_db w2) \<and> reviewers_ok (w_db w2) \<and> db_users (w_db w2) = db_users pending_db
     \<and> (\<exists>bs cs. db_approvals (w_db w2) = bs @ cs \<and> map fixed_part bs = map fixed_part (db_approvals pending_db))"
proof -
  let ?E = "live_env ''technical'' (Inr (OtherOutput ''ok''))"
  obtain token where t: "create_access_token default_settings sample_auth sample_time 2 SUPERVISOR None = Inr token"
    using sample_token [of None 2] by auto
  have "\<exists>item db'. reject_ticket default_settings sample_auth sample_db_env token 3 \<lparr>dr_comments = None\<rparr> pending_db = (Inr item, db')
      \<and> qi_status item = AS_REJECTED"
    unfolding endpoint_eqs
    using queue_endpoint_ok [OF sample_no_faults pending_facts(1) sample_guard [OF t pending_facts(1,4)] pending_facts(5) _ _ pending_facts(6),
        of "''supervisor_rejected''" "\<lambda>uid. decided sample_db_env AS_REJECTED uid None"]
    by (fastforce simp: decided_def)
  then obtain item db1 where reject: "reject_ticket default_settings sample_auth sample_db_env token 3 \<lparr>dr_comments = None\<rparr> pending_db = (Inr item, db1)"
    and item: "qi_status item = AS_REJECTED" by blast
  obtain r w2 where post: "post_tickets ?E sample_auth token lawsuit_request None (live_world\<lparr>w_db := db1\<rparr>) = (r, w2)" by fastforce
  let ?w = "live_world\<lparr>w_db := pending_db\<rparr>"
  have "supervisor_step default_settings sample_auth (w_db ?w) db1" using reject by (auto intro: S_Reject)
  then have "api_step sample_auth ?w (?w\<lparr>w_db := db1\<rparr>)" by (rule A_Supervisor)
  moreover have "api_step sample_auth (?w\<lparr>w_db := db1\<rparr>) w2"
    by (rule A_Ticket [of ?E UNIV]) (use post in simp_all)
  ultimately have "(api_step sample_auth)\<^sup>*\<^sup>* ?w w2" by (meson converse_rtranclp_into_rtranclp r_into_rtranclp)
  from api_keeps_the_tables [OF sample_jwt_laws this] show ?thesis using reject item post
    by (intro exI [of _ token] exI [of _ item] exI [of _ db1] exI [of _ r] exI [of _ w2]) auto
qed

end
