(* ===== verification/Idempotency_Protocol.thy ===== *)
theory Idempotency_Protocol
  imports Ticket_Outcomes
begin

section \<open>Concurrent requests with one idempotency key\<close>

text \<open>
  \<^verbatim>\<open>create_ticket\<close> of \<^verbatim>\<open>backend/services/ticket.py\<close> is a coroutine: requests with the same key run
  concurrently, on one worker or on several, and interleave at every Redis command. Here each
  request \<open>c\<close> is in a \<open>phase\<close>, and \<open>proto\<close> is one step of one of them: the \<open>SET NX\<close> and the \<open>GET\<close> of
  a claim are separate steps, and so are the completion and the release. \<open>P_Other\<close> is any command
  on another key. The rules say \<open>unexpired\<close> where the record of the key must not time out (its
  time to live is a day by default); every command may still fail, and a failed write may have
  reached the server or not. \<open>create_ticket_follows_protocol\<close> ties the steps to the code: a run of
  \<open>create_ticket\<close> is a sequence of steps of its request, from \<open>Idle\<close> to the phase of its answer.
\<close>

datatype phase = Idle | Checking | Executing | Refused exc
  | Completed ticket_create_response | Replayed ticket_create_response

definition unexpired :: "'r redis_client \<Rightarrow> string \<Rightarrow> 'r \<Rightarrow> 'r \<Rightarrow> bool" where
  "unexpired R k r r' \<longleftrightarrow> (\<forall>raw. rc_view R r (idem_key k) = Some raw \<longrightarrow> rc_view R r' (idem_key k) = Some raw)"

text \<open>What a request does with the record that it found in the place of its claim.\<close>

definition after_get :: "string \<Rightarrow> string option \<Rightarrow> phase" where
  "after_get k found =
     (case found of None \<Rightarrow> Refused (TicketCreationInProgress k)
      | Some raw \<Rightarrow> (case json_loads raw of
          Inl _ \<Rightarrow> Refused (TicketCreationInProgress k)
        | Inr v \<Rightarrow> if v = JNull then Executing
            else (case existing_answer k v of Inl e \<Rightarrow> Refused e | Inr response \<Rightarrow> Replayed response)))"

abbreviation sentinel_text :: string where "sentinel_text \<equiv> json_dumps IN_PROGRESS_SENTINEL"

abbreviation response_text :: "ticket_create_response \<Rightarrow> string" where
  "response_text response \<equiv> json_dumps (JObj (response_fields response))"

inductive proto :: "'r redis_client \<Rightarrow> int \<Rightarrow> string \<Rightarrow> 'r \<times> ('c \<Rightarrow> phase) \<Rightarrow> 'r \<times> ('c \<Rightarrow> phase) \<Rightarrow> bool"
  for R ttl k where
  P_Claim: "ph c = Idle \<Longrightarrow> rc_view R r (idem_key k) = None
     \<Longrightarrow> rc_set_nx R (idem_key k) sentinel_text ttl r = (Inr True, r')
     \<Longrightarrow> proto R ttl k (r, ph) (r', ph(c := Executing))"
| P_Taken: "ph c = Idle \<Longrightarrow> unexpired R k r r'
     \<Longrightarrow> rc_set_nx R (idem_key k) sentinel_text ttl r = (Inr False, r')
     \<Longrightarrow> proto R ttl k (r, ph) (r', ph(c := Checking))"
| P_Claim_Error: "ph c = Idle \<Longrightarrow> unexpired R k r r'
     \<Longrightarrow> rc_set_nx R (idem_key k) sentinel_text ttl r = (Inl e, r')
     \<Longrightarrow> proto R ttl k (r, ph) (r', ph(c := Refused (IdempotencyBackendUnavailable (exc_str e))))"
| P_Check: "ph c = Checking \<Longrightarrow> unexpired R k r r'
     \<Longrightarrow> rc_get R (idem_key k) r = (Inr found, r')
     \<Longrightarrow> proto R ttl k (r, ph) (r', ph(c := after_get k found))"
| P_Check_Error: "ph c = Checking \<Longrightarrow> unexpired R k r r'
     \<Longrightarrow> rc_get R (idem_key k) r = (Inl e, r')
     \<Longrightarrow> proto R ttl k (r, ph) (r', ph(c := Refused (IdempotencyBackendUnavailable (exc_str e))))"
| P_Complete: "ph c = Executing \<Longrightarrow> valid_datetime (tr_created_at response)
     \<Longrightarrow> rc_set R (idem_key k) (response_text response) ttl r = (Inr (), r')
     \<Longrightarrow> proto R ttl k (r, ph) (r', ph(c := Completed response))"
| P_Complete_Error: "ph c = Executing \<Longrightarrow> valid_datetime (tr_created_at response)
     \<Longrightarrow> rc_set R (idem_key k) (response_text response) ttl r = (Inl e, r')
     \<Longrightarrow> proto R ttl k (r, ph) (r', ph(c := Refused (IdempotencyBackendUnavailable (exc_str e))))"
| P_Release: "ph c = Executing \<Longrightarrow> rc_delete R (idem_key k) r = (a, r')
     \<Longrightarrow> proto R ttl k (r, ph) (r', ph(c := Refused e))"
| P_Other: "rc_view R r' (idem_key k) = rc_view R r (idem_key k) \<Longrightarrow> proto R ttl k (r, ph) (r', ph)"

text \<open>A request with a key is its \<open>SET NX\<close>; then, if that answered true, the execution followed by completion
  or release; if it answered false, its \<open>GET\<close> and what \<open>after_get\<close> says of the record found.\<close>

lemma create_ticket_commands:
  assumes "redis_laws (e_redis E)"
  shows "create_ticket E q (Some k) w =
    (case rc_set_nx (e_redis E) (idem_key k) sentinel_text (idem_ttl E) (w_redis w) of
       (Inl e, r1) \<Rightarrow> (Inl (IdempotencyBackendUnavailable (exc_str e)), w\<lparr>w_redis := r1\<rparr>)
     | (Inr True, r1) \<Rightarrow> claimed_body E q k (w\<lparr>w_redis := r1\<rparr>)
     | (Inr False, r1) \<Rightarrow>
         (case rc_get (e_redis E) (idem_key k) r1 of
            (Inl e, r2) \<Rightarrow> (Inl (IdempotencyBackendUnavailable (exc_str e)), w\<lparr>w_redis := r2\<rparr>)
          | (Inr found, r2) \<Rightarrow>
              (case after_get k found of
                 Refused e \<Rightarrow> (Inl e, w\<lparr>w_redis := r2\<rparr>)
               | Replayed response \<Rightarrow> (Inr response, w\<lparr>w_redis := r2\<rparr>)
               | _ \<Rightarrow> claimed_body E q k (w\<lparr>w_redis := r2\<rparr>))))"
proof -
  let ?R = "e_redis E"
  obtain b r1 where nx: "rc_set_nx ?R (idem_key k) sentinel_text (idem_ttl E) (w_redis w) = (b, r1)" by fastforce
  obtain g r2 where g: "rc_get ?R (idem_key k) r1 = (g, r2)" by fastforce
  note claim = claim_or_get_existing_def
  note found = create_ticket_existing [of E k w _ r2 q] create_ticket_claimed [of E k w r2 q]
  from rc_set_nx_cases [OF assms nx] show ?thesis
  proof cases
    case (1 m)
    then show ?thesis using nx create_ticket_unclaimed [of E k w _ r1 q] by (simp add: claim)
  next
    case 2
    then show ?thesis using nx create_ticket_claimed [of E k w r1 q] by (simp add: claim)
  next
    case 3
    from rc_get_cases [OF assms g] show ?thesis
    proof cases
      case (1 m)
      then show ?thesis using 3 nx g create_ticket_unclaimed [of E k w _ r2 q] by (simp add: claim)
    next
      case 2
      show ?thesis
      proof (cases "rc_view ?R r2 (idem_key k)")
        case None
        then show ?thesis using 2 3(1) nx g found by (simp add: claim after_get_def)
      next
        case (Some raw)
        show ?thesis
        proof (cases "json_loads raw")
          case (Inl e)
          then show ?thesis using Some 2 3(1) nx g found by (simp add: claim after_get_def)
        next
          case (Inr v)
          then show ?thesis using Some 2 3(1) nx g found
            by (cases v; simp add: claim after_get_def split: sum.splits)
        qed
      qed
    qed
  qed
qed

text \<open>The phase in which a request ends, from what \<open>create_ticket\<close> gives.\<close>

fun end_phase :: "exc + ticket_create_response \<Rightarrow> phase" where
  "end_phase (Inl e) = Refused e"
| "end_phase (Inr response) = (if tr_idempotent_replay response then Replayed response else Completed response)"

lemma unexpired_get: "no_expiry R \<Longrightarrow> rc_get R k' r = (a, r') \<Longrightarrow> unexpired R k r r'"
  unfolding unexpired_def no_expiry_def by (metis snd_conv)

lemma unexpired_set_nx:
  assumes "no_expiry R" "rc_set_nx R (idem_key k) v ttl r = (a, r')"
  shows "unexpired R k r r'" and "a = Inr True \<Longrightarrow> rc_view R r (idem_key k) = None"
proof -
  have "rc_view R r (idem_key k) \<noteq> None \<Longrightarrow> rc_view R r' (idem_key k) = rc_view R r (idem_key k) \<and> a \<noteq> Inr True"
    using assms unfolding no_expiry_def by (metis fst_conv snd_conv)
  then show "unexpired R k r r'" and "a = Inr True \<Longrightarrow> rc_view R r (idem_key k) = None"
    by (auto simp: unexpired_def intro: ccontr)
qed

lemma idem_key_foreign: "p \<in> set workflow_ns \<Longrightarrow> \<not> in_ns p (idem_key k)"
  using in_ns_unique [of p IDEMPOTENCY_KEY_PREFIX "idem_key k", OF _ _ _ idem_key_ns]
  by (auto simp: workflow_ns_def CLS_CACHE_KEY_PREFIX_def KB_CACHE_KEY_PREFIX_def CHECKPOINT_KEY_PREFIX_def
      IDEMPOTENCY_KEY_PREFIX_def)

lemma execution_keeps_record:
  assumes "redis_laws (e_redis E)" "kickoff_law E T" "no_expiry (e_redis E)" "execute_ticket E q w = (x, w1)"
  shows "rc_view (e_redis E) (w_redis w1) (idem_key k) = rc_view (e_redis E) (w_redis w) (idem_key k)"
proof -
  have "row_closed (\<lambda>_ _. True)" by (simp add: row_closed_def reflp_def transp_def)
  from stepsD [OF steps_execute_ticket [OF assms(1,2) this] assms(4)]
  have "only_ns workflow_ns (e_redis E) (w_redis w) (w_redis w1)" by (simp add: world_rel_def)
  with assms(3) idem_key_foreign show ?thesis unfolding only_ns_def by blast
qed

lemma executed_response:
  assumes "\<And>db. valid_datetime (d_db_now (e_db E) db)" "execute_ticket E q w = (Inr response, w1)"
  shows "valid_datetime (tr_created_at response) \<and> \<not> tr_idempotent_replay response"
proof -
  obtain t db1 s where ins: "with_session (insert_ticket_session (e_db E) q) (w_db w) = (Inr t, db1)"
    and "response = response_of_state q t s"
    using assms(2) by (auto simp: execute_ticket_def bind_def on_db_def split: prod.splits sum.splits)
  moreover have "t = new_ticket (e_db E) q (w_db w)" using insert_session_cases [OF ins] by auto
  ultimately show ?thesis using assms(1) by (simp add: response_of_state_def new_ticket_def)
qed

text \<open>The execution and what follows it: commands on other keys, then one completion or release.\<close>

lemma executing_follows:
  assumes R: "redis_laws (e_redis E)" and law: "kickoff_law E T" and stay: "no_expiry (e_redis E)"
    and clock: "\<And>db. valid_datetime (d_db_now (e_db E) db)" and body: "claimed_body E q k w = (res, w')"
    and ph: "ph c = Executing"
  shows "(proto (e_redis E) (idem_ttl E) k)\<^sup>*\<^sup>* (w_redis w, ph) (w_redis w', ph(c := end_phase res))"
proof -
  let ?P = "proto (e_redis E) (idem_ttl E) k"
  obtain x w1 where ex: "execute_ticket E q w = (x, w1)" by fastforce
  have other: "?P (w_redis w, ph) (w_redis w1, ph)"
    using execution_keeps_record [OF R law stay ex] by (rule P_Other)
  have "?P (w_redis w1, ph) (w_redis w', ph(c := end_phase res))"
  proof (cases x)
    case (Inl e)
    obtain a r2 where del: "rc_delete (e_redis E) (idem_key k) (w_redis w1) = (a, r2)" by fastforce
    have "idem_release (e_redis E) k (w_redis w1) = (Inr (), r2)"
      using rc_delete_cases [OF R del] by cases (simp_all add: idem_release_def del)
    with body ex Inl have "res = Inl e" "w_redis w' = r2"
      by (auto simp: claimed_body_def bind_def catch_def on_redis_def)
    with P_Release [where ph = ph and c = c and e = e and ttl = "idem_ttl E", OF ph del] show ?thesis by simp
  next
    case (Inr response)
    with executed_response [OF clock] ex have ok: "valid_datetime (tr_created_at response)" "\<not> tr_idempotent_replay response"
      by auto
    obtain a r2 where set: "rc_set (e_redis E) (idem_key k) (response_text response) (idem_ttl E) (w_redis w1) = (a, r2)"
      by fastforce
    from rc_set_cases [OF R set] show ?thesis
    proof cases
      case (1 m)
      with body ex Inr set have "res = Inl (IdempotencyBackendUnavailable m)" "w_redis w' = r2"
        by (auto simp: claimed_body_def bind_def catch_def on_redis_def idem_complete_def)
      with P_Complete_Error [where ph = ph and c = c, OF ph ok(1) set [unfolded 1(1)]] show ?thesis by simp
    next
      case 2
      with body ex Inr set have "res = Inr response" "w_redis w' = r2"
        by (auto simp: claimed_body_def bind_def catch_def on_redis_def idem_complete_def)
      with P_Complete [where ph = ph and c = c, OF ph ok(1) set [unfolded 2(1)]] ok(2) show ?thesis by simp
    qed
  qed
  with other show ?thesis by (meson converse_rtranclp_into_rtranclp r_into_rtranclp)
qed

lemma after_get_cases:
  obtains e where "after_get k found = Refused e"
  | response where "after_get k found = Replayed response" "tr_idempotent_replay response"
  | "after_get k found = Executing"
proof -
  have "(\<exists>e. after_get k found = Refused e) \<or> (\<exists>response. after_get k found = Replayed response \<and> tr_idempotent_replay response)
      \<or> after_get k found = Executing"
    unfolding after_get_def using existing_is_replay [of k] by (simp split: option.split sum.split)
  then show thesis using that by blast
qed

text \<open>C31: the protocol is what the code does. On a Redis that keeps its laws and on which keys do not expire
  (\<open>no_expiry\<close>), with a database whose clock gives real dates, every run of \<open>create_ticket\<close> with a key is a sequence of \<open>proto\<close> steps of one request, starting
  idle in the Redis state that the run starts in, and ending in the Redis state that it leaves and in the
  phase of its result: completed for a ticket of its own, replayed for a replay, refused with the very
  exception it raises. And a run that changes a table passes through the phase that a claim gives.\<close>

theorem create_ticket_follows_protocol:
  assumes "redis_laws (e_redis E)" and "no_expiry (e_redis E)" and "kickoff_law E T"
    and "\<And>db. valid_datetime (d_db_now (e_db E) db)"
    and "create_ticket E q (Some k) w = (res, w')" and "ph c = Idle"
  shows "(proto (e_redis E) (idem_ttl E) k)\<^sup>*\<^sup>* (w_redis w, ph) (w_redis w', ph(c := end_phase res))
    \<and> (w_db w' \<noteq> w_db w \<longrightarrow>
        (\<exists>r. (proto (e_redis E) (idem_ttl E) k)\<^sup>*\<^sup>* (w_redis w, ph) (r, ph(c := Executing))
           \<and> (proto (e_redis E) (idem_ttl E) k)\<^sup>*\<^sup>* (r, ph(c := Executing)) (w_redis w', ph(c := end_phase res))))"
proof -
  let ?R = "e_redis E" and ?P = "proto (e_redis E) (idem_ttl E) k"
  note run = create_ticket_commands [OF assms(1), of q k w, unfolded assms(5)]
  note step = r_into_rtranclp [where r = ?P]
  have exec: ?thesis if claimed: "?P\<^sup>*\<^sup>* (w_redis w, ph) (r, ph(c := Executing))"
    and body: "claimed_body E q k (w\<lparr>w_redis := r\<rparr>) = (res, w')" for r
  proof -
    have "?P\<^sup>*\<^sup>* (r, ph(c := Executing)) (w_redis w', ph(c := end_phase res))"
      using executing_follows [OF assms(1,3,2,4) body, of "ph(c := Executing)" c] by simp
    with claimed show ?thesis by (blast intro: rtranclp_trans)
  qed
  obtain b r1 where nx: "rc_set_nx ?R (idem_key k) sentinel_text (idem_ttl E) (w_redis w) = (b, r1)" by fastforce
  note live = unexpired_set_nx [OF assms(2) nx]
  from rc_set_nx_cases [OF assms(1) nx] show ?thesis
  proof cases
    case (1 m)
    with run nx have "res = Inl (IdempotencyBackendUnavailable m)" "w' = w\<lparr>w_redis := r1\<rparr>" by simp_all
    with step [OF P_Claim_Error [where ph = ph and c = c, OF assms(6) live(1) nx [unfolded 1(1)]]] show ?thesis by simp
  next
    case 2
    show ?thesis
      by (rule exec [OF step [OF P_Claim [where ph = ph and c = c, OF assms(6) live(2) [OF 2(1)] nx [unfolded 2(1)]]]])
         (use run nx 2(1) in simp)
  next
    case 3
    have taken: "?P (w_redis w, ph) (r1, ph(c := Checking))"
      using P_Taken [where ph = ph and c = c, OF assms(6) live(1) nx [unfolded 3(1)]] .
    obtain g r2 where g: "rc_get ?R (idem_key k) r1 = (g, r2)" by fastforce
    note live2 = unexpired_get [OF assms(2) g, of k]
    have check: "?P\<^sup>*\<^sup>* (w_redis w, ph) (r2, ph(c := p))" if "?P (r1, ph(c := Checking)) (r2, ph(c := Checking, c := p))" for p
      using taken that by (simp add: rtranclp.rtrancl_into_rtrancl [OF step])
    have waits: "(ph(c := Checking)) c = Checking" by simp
    show ?thesis
    proof (cases g)
      case (Inl e)
      with run nx g 3(1) have "res = Inl (IdempotencyBackendUnavailable (exc_str e))" "w' = w\<lparr>w_redis := r2\<rparr>" by simp_all
      with check [OF P_Check_Error [where ph = "ph(c := Checking)" and c = c, OF waits live2 g [unfolded Inl]]] show ?thesis by simp
    next
      case (Inr found)
      note checked = check [OF P_Check [where ph = "ph(c := Checking)" and c = c, OF waits live2 g [unfolded Inr]]]
      show ?thesis
      proof (cases rule: after_get_cases [of k found])
        case (1 e)
        with run nx g 3(1) Inr have "res = Inl e" "w' = w\<lparr>w_redis := r2\<rparr>" by simp_all
        with checked 1 show ?thesis by simp
      next
        case (2 response)
        with run nx g 3(1) Inr have "res = Inr response" "w' = w\<lparr>w_redis := r2\<rparr>" by simp_all
        with checked 2 show ?thesis by simp
      next
        case 3
        show ?thesis
          by (rule exec [OF checked [unfolded 3]]) (use run nx g \<open>b = Inr False\<close> Inr 3 in simp)
      qed
    qed
  qed
qed

subsection \<open>The abstract machine\<close>

text \<open>
  The same without Redis: the slot of the key is free, claimed, or holds the response of a completed
  request. A request that stops without completing may leave any slot behind.
\<close>

inductive once :: "json slot \<times> ('c \<Rightarrow> phase) \<Rightarrow> json slot \<times> ('c \<Rightarrow> phase) \<Rightarrow> bool" where
  O_Claim: "ph c = Idle \<Longrightarrow> once (Free, ph) (Busy, ph(c := Executing))"
| O_Taken: "ph c = Idle \<Longrightarrow> once (s, ph) (s, ph(c := Checking))"
| O_Refuse: "ph c \<in> {Idle, Checking} \<Longrightarrow> s' = s \<or> s = Free \<Longrightarrow> s' \<in> {s, Busy}
     \<Longrightarrow> once (s, ph) (s', ph(c := Refused e))"
| O_Replay: "ph c = Checking \<Longrightarrow> valid_datetime (tr_created_at response) \<Longrightarrow> once (Done (JObj (response_fields response)), ph)
     (Done (JObj (response_fields response)), ph(c := Replayed (response\<lparr>tr_idempotent_replay := True\<rparr>)))"
| O_Complete: "ph c = Executing \<Longrightarrow> valid_datetime (tr_created_at response)
     \<Longrightarrow> once (s, ph) (Done (JObj (response_fields response)), ph(c := Completed response))"
| O_Stop: "ph c = Executing \<Longrightarrow> once (s, ph) (s', ph(c := Refused e))"
| O_Other: "once (s, ph) (s, ph)"

text \<open>What the record of the key may hold.\<close>

definition record_ok :: "'r redis_client \<Rightarrow> string \<Rightarrow> 'r \<Rightarrow> bool" where
  "record_ok R k r \<longleftrightarrow> rc_view R r (idem_key k) \<in> {None, Some sentinel_text} \<union>
     {Some (response_text v) | v. valid_datetime (tr_created_at v)}"

lemma record_cases:
  assumes "record_ok R k r"
  obtains "rc_view R r (idem_key k) = None" "idem_slot R r k = Free"
    | "rc_view R r (idem_key k) = Some sentinel_text" "idem_slot R r k = Busy"
    | v where "rc_view R r (idem_key k) = Some (response_text v)" "valid_datetime (tr_created_at v)"
        "idem_slot R r k = Done (JObj (response_fields v))"
  using assms slot_done [OF response_storable] slot_busy
  unfolding record_ok_def idem_slot_def by (auto simp: slot_of_raw_def [of None])

lemma record_sub:
  "record_ok R k r \<Longrightarrow> rc_view R r' \<subseteq>\<^sub>m rc_view R r \<Longrightarrow> record_ok R k r'"
  unfolding record_ok_def by (cases "rc_view R r' (idem_key k)") (auto dest: map_le_SomeD)

lemma record_upd:
  assumes "rc_view R r' \<subseteq>\<^sub>m (rc_view R r)(idem_key k \<mapsto> raw)"
  shows "rc_view R r' (idem_key k) \<in> {None, Some raw}"
  using map_le_SomeD [OF assms, of "idem_key k"] by (cases "rc_view R r' (idem_key k)") auto

lemma unexpired_same:
  assumes "unexpired R k r r'" "rc_view R r' \<subseteq>\<^sub>m rc_view R r"
  shows "rc_view R r' (idem_key k) = rc_view R r (idem_key k)"
  using assms map_le_SomeD [OF assms(2)]
  by (cases "rc_view R r (idem_key k)"; cases "rc_view R r' (idem_key k)") (auto simp: unexpired_def)

lemma same_slot: "rc_view R r' (idem_key k) = rc_view R r (idem_key k) \<Longrightarrow>
    idem_slot R r' k = idem_slot R r k \<and> (record_ok R k r' \<longleftrightarrow> record_ok R k r)"
  by (simp add: idem_slot_def record_ok_def)

lemma response_text_ok: "valid_datetime (tr_created_at v) \<Longrightarrow> rc_view R r (idem_key k) = Some (response_text v)
    \<Longrightarrow> record_ok R k r \<and> idem_slot R r k = Done (JObj (response_fields v))"
  unfolding record_ok_def idem_slot_def using slot_done [OF response_storable] by auto

lemma sentinel_ok: "rc_view R r (idem_key k) = Some sentinel_text \<Longrightarrow> record_ok R k r \<and> idem_slot R r k = Busy"
  by (simp add: record_ok_def idem_slot_def)

lemma no_record_ok: "rc_view R r (idem_key k) = None \<Longrightarrow> record_ok R k r \<and> idem_slot R r k = Free"
  by (simp add: record_ok_def idem_slot_def slot_of_raw_def)

lemma after_get_record:
  assumes "record_ok R k r"
  shows "case idem_slot R r k of
      Done v \<Rightarrow> \<exists>response. v = JObj (response_fields response) \<and> valid_datetime (tr_created_at response) \<and>
        after_get k (rc_view R r (idem_key k)) = Replayed (response\<lparr>tr_idempotent_replay := True\<rparr>)
    | _ \<Rightarrow> after_get k (rc_view R r (idem_key k)) = Refused (TicketCreationInProgress k)"
  using assms
proof (cases rule: record_cases)
  case (3 v)
  have "wf_json (JObj (response_fields v))" using response_storable [of v] by (simp add: idem_storable_def)
  then have "json_loads (response_text v) = Inr (JObj (response_fields v))" by (rule loads_dumps)
  with 3 show ?thesis by (auto simp: after_get_def existing_response)
qed (simp_all add: after_get_def)

text \<open>The steps whose effect on the record is not determined: a claim that failed may have been written, a
  check finds what is there, and a completion that failed may have been written.\<close>

lemma claim_error_refines:
  assumes "redis_laws R" "rc_set_nx R (idem_key k) sentinel_text ttl r = (Inl e, r')"
    and "unexpired R k r r'" "ph c = Idle" "record_ok R k r"
  shows "once (idem_slot R r k, ph) (idem_slot R r' k, ph(c := Refused x)) \<and> record_ok R k r'"
proof (cases "rc_view R r' (idem_key k) = rc_view R r (idem_key k)")
  case True
  from same_slot [OF this] assms(4,5) show ?thesis by (auto intro!: O_Refuse)
next
  case False
  then have none: "rc_view R r (idem_key k) = None"
    using assms(3) by (cases "rc_view R r (idem_key k)") (auto simp: unexpired_def)
  from rc_set_nx_cases [OF assms(1,2)]
  have "rc_view R r' \<subseteq>\<^sub>m rc_view R r \<or> rc_view R r' \<subseteq>\<^sub>m (rc_view R r)(idem_key k \<mapsto> sentinel_text)" by auto
  with False none have "rc_view R r' (idem_key k) = Some sentinel_text"
    using record_upd [of R r' r k sentinel_text] map_le_SomeD [of "rc_view R r'" "rc_view R r" "idem_key k"]
    by (cases "rc_view R r' (idem_key k)") auto
  then show ?thesis using sentinel_ok [of R r' k] no_record_ok [OF none] assms(4) by (auto intro!: O_Refuse)
qed

lemma check_refines:
  assumes "redis_laws R" "rc_get R (idem_key k) r = (Inr found, r')"
    and "unexpired R k r r'" "ph c = Checking" "record_ok R k r"
  shows "once (idem_slot R r k, ph) (idem_slot R r' k, ph(c := after_get k found)) \<and> record_ok R k r'"
proof -
  from rc_get_cases [OF assms(1,2)] have found: "found = rc_view R r' (idem_key k)" "rc_view R r' \<subseteq>\<^sub>m rc_view R r" by auto
  note same = same_slot [OF unexpired_same [OF assms(3) found(2)]]
  with assms(5) have ok: "record_ok R k r'" by simp
  show ?thesis
  proof (cases "\<exists>v. idem_slot R r' k = Done v")
    case True
    then obtain response where "idem_slot R r' k = Done (JObj (response_fields response))"
      and "valid_datetime (tr_created_at response)" and "after_get k found = Replayed (response\<lparr>tr_idempotent_replay := True\<rparr>)"
      using after_get_record [OF ok] found(1) by auto
    then show ?thesis using same assms(4) ok by (auto intro!: O_Replay)
  next
    case False
    then have "after_get k found = Refused (TicketCreationInProgress k)"
      using after_get_record [OF ok] found(1) by (auto split: slot.splits)
    then show ?thesis using same assms(4) ok by (auto intro!: O_Refuse)
  qed
qed

lemma complete_error_record:
  assumes "redis_laws R" "rc_set R (idem_key k) (response_text response) ttl r = (Inl e, r')"
    and "valid_datetime (tr_created_at response)" "record_ok R k r"
  shows "record_ok R k r'"
proof -
  from rc_set_cases [OF assms(1,2)]
  have "rc_view R r' \<subseteq>\<^sub>m rc_view R r \<or> rc_view R r' \<subseteq>\<^sub>m (rc_view R r)(idem_key k \<mapsto> response_text response)" by auto
  then have "rc_view R r' \<subseteq>\<^sub>m rc_view R r \<or> rc_view R r' (idem_key k) = None
      \<or> rc_view R r' (idem_key k) = Some (response_text response)"
    using record_upd [of R r' r k "response_text response"] by blast
  then show ?thesis
    using record_sub [OF assms(4), of r'] response_text_ok [OF assms(3), of R r' k] no_record_ok [of R r' k] by argo
qed

lemma proto_refines:
  assumes R: "redis_laws R" and "proto R ttl k st st'" and "record_ok R k (fst st)"
  shows "once (idem_slot R (fst st) k, snd st) (idem_slot R (fst st') k, snd st') \<and> record_ok R k (fst st')"
proof -
  obtain r ph r' ph' where st: "st = (r, ph)" "st' = (r', ph')" by (cases st; cases st')
  with assms(3) have ok: "record_ok R k r" by simp
  from assms(2) have "once (idem_slot R r k, ph) (idem_slot R r' k, ph') \<and> record_ok R k r'"
    unfolding st
  proof cases
    case (P_Claim c)
    from rc_set_nx_cases [OF R P_Claim(4)] have "rc_view R r' (idem_key k) = Some sentinel_text" by auto
    then show ?thesis unfolding P_Claim(1)
      using sentinel_ok [of R r' k] no_record_ok [OF P_Claim(3)] O_Claim [of ph c, OF P_Claim(2)] by simp
  next
    case (P_Taken c)
    from rc_set_nx_cases [OF R P_Taken(4)] have "rc_view R r' \<subseteq>\<^sub>m rc_view R r" by auto
    from same_slot [OF unexpired_same [OF P_Taken(3) this]] ok show ?thesis
      unfolding P_Taken(1) using O_Taken [of ph c] P_Taken(2) by simp
  next
    case (P_Claim_Error c e)
    show ?thesis unfolding P_Claim_Error(1)
      by (rule claim_error_refines [where ph = ph and c = c, OF R P_Claim_Error(4,3,2) ok])
  next
    case (P_Check c found)
    show ?thesis unfolding P_Check(1)
      by (rule check_refines [where ph = ph and c = c, OF R P_Check(4,3,2) ok])
  next
    case (P_Check_Error c e)
    from rc_get_cases [OF R P_Check_Error(4)] have "rc_view R r' \<subseteq>\<^sub>m rc_view R r" by auto
    from same_slot [OF unexpired_same [OF P_Check_Error(3) this]] P_Check_Error(2) ok show ?thesis
      unfolding P_Check_Error(1) by (auto intro!: O_Refuse)
  next
    case (P_Complete c response)
    from rc_set_cases [OF R P_Complete(4)] have view: "rc_view R r' (idem_key k) = Some (response_text response)" by auto
    from response_text_ok [OF P_Complete(3) view] O_Complete [of ph c, OF P_Complete(2,3)] show ?thesis
      unfolding P_Complete(1) by simp
  next
    case (P_Complete_Error c response e)
    then show ?thesis using complete_error_record [OF R P_Complete_Error(4,3) ok] by (auto intro!: O_Stop)
  next
    case (P_Release c a e)
    from rc_delete_cases [OF R P_Release(3)] have "rc_view R r' \<subseteq>\<^sub>m rc_view R r"
      by cases (auto intro: map_le_trans [OF _ upd_None_map_le])
    then show ?thesis using record_sub [OF ok] P_Release(1,2) by (auto intro!: O_Stop)
  next
    case P_Other
    then show ?thesis using same_slot [OF P_Other(2)] ok by (auto intro: O_Other)
  qed
  with st show ?thesis by simp
qed

text \<open>C32: the protocol on Redis refines the abstract machine, step by step, with the slot of the key as the
  abstraction of the Redis state; and the record of the key stays one that this service wrote.\<close>

theorem proto_refines_once:
  assumes "redis_laws R" and "proto R ttl k st st'" and "record_ok R k (fst st)"
  shows "once (idem_slot R (fst st) k, snd st) (idem_slot R (fst st') k, snd st') \<and> record_ok R k (fst st')"
  using assms by (rule proto_refines)

subsection \<open>Exclusion and agreement\<close>

definition once_inv :: "json slot \<times> ('c \<Rightarrow> phase) \<Rightarrow> bool" where
  "once_inv = (\<lambda>(s, ph).
     (\<forall>c. ph c = Executing \<longrightarrow> s = Busy) \<and> (\<forall>c d. ph c = Executing \<longrightarrow> ph d = Executing \<longrightarrow> c = d)
     \<and> (\<forall>c response. ph c = Completed response \<longrightarrow>
          valid_datetime (tr_created_at response) \<and> s = Done (JObj (response_fields response)))
     \<and> (\<forall>c d u v. ph c = Completed u \<longrightarrow> ph d = Completed v \<longrightarrow> c = d)
     \<and> (\<forall>c u. ph c = Replayed u \<longrightarrow>
          (\<exists>response. valid_datetime (tr_created_at response) \<and> u = response\<lparr>tr_idempotent_replay := True\<rparr>
             \<and> s = Done (JObj (response_fields response)))))"

lemma once_inv_step: "once st st' \<Longrightarrow> once_inv st \<Longrightarrow> once_inv st'"
proof (induction rule: once.induct)
  case (O_Claim ph c)
  then show ?case by (auto simp: once_inv_def)
next
  case (O_Taken ph c s)
  then show ?case by (auto simp: once_inv_def)
next
  case (O_Refuse ph c s' s e)
  then show ?case by (auto simp: once_inv_def)
next
  case (O_Replay ph c response)
  then show ?case by (auto simp: once_inv_def)
next
  case (O_Complete ph c s response)
  then show ?case by (auto simp: once_inv_def)
next
  case (O_Stop ph c s s' e)
  then show ?case by (auto simp: once_inv_def)
next
  case (O_Other s ph)
  then show ?case .
qed

lemma once_inv_reach: "once\<^sup>*\<^sup>* st st' \<Longrightarrow> once_inv st \<Longrightarrow> once_inv st'"
  by (induction rule: rtranclp_induct) (auto intro: once_inv_step)

lemma response_fields_inj:
  assumes "valid_datetime (tr_created_at a)" "valid_datetime (tr_created_at b)"
    and "response_fields a = response_fields b"
  shows "a = b"
proof -
  have "Inr a = response_of_fields (response_fields b)" by (metis assms(1,3) response_roundtrip(1))
  also have "\<dots> = Inr b" by (rule response_roundtrip(1) [OF assms(2)])
  finally show ?thesis by simp
qed

lemma proto_reach_once:
  assumes "redis_laws R" and "(proto R ttl k)\<^sup>*\<^sup>* st st'" and "record_ok R k (fst st)"
  shows "once\<^sup>*\<^sup>* (idem_slot R (fst st) k, snd st) (idem_slot R (fst st') k, snd st') \<and> record_ok R k (fst st')"
  using assms(2)
proof (induction rule: rtranclp_induct)
  case base
  then show ?case using assms(3) by simp
next
  case (step st1 st2)
  from proto_refines [OF assms(1) step(2)] step(3) show ?case by (meson rtranclp.rtrancl_into_rtrancl)
qed

text \<open>C1: concurrent requests with one key. However their commands interleave, fail or are lost, while the
  record of the key does not expire: at most one request executes at a time; at most one completes,
  and none executes after that; and all the requests that are answered with a ticket are answered
  with the same one, the replays identically and the original but for the replay flag.\<close>

theorem concurrent_requests_agree:
  assumes "redis_laws R" and "record_ok R k r0" and "(proto R ttl k)\<^sup>*\<^sup>* (r0, \<lambda>c. Idle) (r, ph)"
  shows "(\<forall>c d. ph c = Executing \<longrightarrow> ph d = Executing \<longrightarrow> c = d)
    \<and> (\<forall>c d u v. ph c = Completed u \<longrightarrow> ph d = Completed v \<longrightarrow> c = d)
    \<and> (\<forall>c d u. ph c = Completed u \<longrightarrow> ph d \<noteq> Executing)
    \<and> (\<forall>c d u v. ph c = Completed u \<longrightarrow> ph d = Replayed v \<longrightarrow> v = u\<lparr>tr_idempotent_replay := True\<rparr>)
    \<and> (\<forall>c d u v. ph c = Replayed u \<longrightarrow> ph d = Replayed v \<longrightarrow> u = v)"
proof -
  have "once_inv (idem_slot R r0 k, \<lambda>c. Idle)" by (simp add: once_inv_def)
  moreover have "once\<^sup>*\<^sup>* (idem_slot R r0 k, \<lambda>c. Idle) (idem_slot R r k, ph)"
    using proto_reach_once [OF assms(1,3)] assms(2) by simp
  ultimately have inv: "once_inv (idem_slot R r k, ph)" by (metis once_inv_reach)
  have comp: "valid_datetime (tr_created_at u) \<and> idem_slot R r k = Done (JObj (response_fields u))"
    if "ph c = Completed u" for c u using inv that by (simp add: once_inv_def)
  have repl: "\<exists>x. valid_datetime (tr_created_at x) \<and> v = x\<lparr>tr_idempotent_replay := True\<rparr>
      \<and> idem_slot R r k = Done (JObj (response_fields x))"
    if "ph c = Replayed v" for c v using inv that by (simp add: once_inv_def)
  have same: "x = y" if "valid_datetime (tr_created_at x)" "valid_datetime (tr_created_at y)"
      "idem_slot R r k = Done (JObj (response_fields x))" "idem_slot R r k = Done (JObj (response_fields y))" for x y
    using response_fields_inj [OF that(1,2)] that(3,4) by simp
  have excl: "c = d" if "ph c = Executing" "ph d = Executing" for c d using inv that by (simp add: once_inv_def)
  have busy: "idem_slot R r k = Busy" if "ph d = Executing" for d using inv that by (auto simp: once_inv_def)
  have one: "c = d" if "ph c = Completed u" "ph d = Completed v" for c d u v
    using inv that by (auto simp: once_inv_def)
  have none: "ph d \<noteq> Executing" if "ph c = Completed u" for c d u
    using comp [OF that] busy [of d] by auto
  have orig: "v = u\<lparr>tr_idempotent_replay := True\<rparr>" if "ph c = Completed u" "ph d = Replayed v" for c d u v
    using comp [OF that(1)] repl [OF that(2)] same by blast
  have both: "u = v" if "ph c = Replayed u" "ph d = Replayed v" for c d u v
    using repl [OF that(1)] repl [OF that(2)] same by blast
  show ?thesis by (intro conjI allI impI) (erule (1) excl one orig both | erule none)+
qed

text \<open>Two requests: the first claims, the second finds the key taken, the first completes, the second
  reads the response.\<close>

lemma two_requests:
  "(proto live_redis ttl k)\<^sup>*\<^sup>* (Map.empty, \<lambda>c. Idle)
     ([idem_key k \<mapsto> response_text sample_response],
      (\<lambda>c. Idle)(True := Completed sample_response, False := Replayed (sample_response\<lparr>tr_idempotent_replay := True\<rparr>)))"
proof -
  let ?busy = "[idem_key k \<mapsto> sentinel_text]" and ?done = "[idem_key k \<mapsto> response_text sample_response]"
  have 1: "proto live_redis ttl k (Map.empty, \<lambda>c. Idle) (?busy, (\<lambda>c. Idle)(True := Executing))"
    by (rule P_Claim) simp_all
  have 2: "proto live_redis ttl k (?busy, (\<lambda>c. Idle)(True := Executing))
      (?busy, ((\<lambda>c. Idle)(True := Executing))(False := Checking))"
    by (rule P_Taken) (simp_all add: unexpired_def)
  have 3: "proto live_redis ttl k (?busy, (\<lambda>c. Idle)(True := Executing, False := Checking))
      (?done, ((\<lambda>c. Idle)(True := Executing, False := Checking))(True := Completed sample_response))"
    by (rule P_Complete) simp_all
  have "after_get k (Some (response_text sample_response)) = Replayed (sample_response\<lparr>tr_idempotent_replay := True\<rparr>)"
  proof -
    have "wf_json (JObj (response_fields sample_response))"
      using response_storable [of sample_response] by (simp add: idem_storable_def)
    then show ?thesis by (simp add: after_get_def loads_dumps existing_response del: json_dumps.simps)
  qed
  then have 4: "proto live_redis ttl k (?done, (\<lambda>c. Idle)(True := Executing, False := Checking, True := Completed sample_response))
      (?done, ((\<lambda>c. Idle)(True := Executing, False := Checking, True := Completed sample_response))
         (False := Replayed (sample_response\<lparr>tr_idempotent_replay := True\<rparr>)))"
    using P_Check [where c = False and R = live_redis and k = k and r = ?done and r' = ?done and ttl = ttl
        and found = "Some (response_text sample_response)"
        and ph = "(\<lambda>c. Idle)(True := Executing, False := Checking, True := Completed sample_response)"]
    by (simp add: unexpired_def del: json_dumps.simps)
  have upd: "((\<lambda>c. Idle)(True := Executing, False := Checking, True := Completed sample_response))
         (False := Replayed (sample_response\<lparr>tr_idempotent_replay := True\<rparr>))
      = (\<lambda>c. Idle)(True := Completed sample_response, False := Replayed (sample_response\<lparr>tr_idempotent_replay := True\<rparr>))"
    by (rule ext) simp
  show ?thesis using 1 2 3 4 unfolding upd by (meson rtranclp.rtrancl_into_rtrancl rtranclp.rtrancl_refl)
qed

theorem concurrent_requests_agree_witness:
  "\<exists>r ph. (proto live_redis 86400 ''k'')\<^sup>*\<^sup>* (Map.empty, \<lambda>c. Idle) (r, ph) \<and> ph True = Completed sample_response
    \<and> ph False = Replayed (sample_response\<lparr>tr_idempotent_replay := True\<rparr>)
    \<and> (\<forall>c d u. ph c = Completed u \<longrightarrow> ph d \<noteq> Executing)"
proof -
  let ?ph = "(\<lambda>c. Idle)(True := Completed sample_response, False := Replayed (sample_response\<lparr>tr_idempotent_replay := True\<rparr>))"
  have ok: "record_ok live_redis ''k'' Map.empty" by (simp add: record_ok_def)
  have "\<forall>c d u. ?ph c = Completed u \<longrightarrow> ?ph d \<noteq> Executing"
    using concurrent_requests_agree [OF live_redis_laws ok two_requests [where ttl = 86400]] by (elim conjE)
  moreover have "?ph True = Completed sample_response"
    "?ph False = Replayed (sample_response\<lparr>tr_idempotent_replay := True\<rparr>)" by simp_all
  ultimately show ?thesis using two_requests [of 86400 "''k''"] by (intro exI conjI)
qed

text \<open>A request that executes and completes, and one that finds its key claimed.\<close>

theorem create_ticket_follows_protocol_witness:
  "(\<exists>w' response. create_ticket (live_env ''billing'' (Inr (OtherOutput ''ok''))) (sample_request 1) (Some ''k'') live_world
      = (Inr response, w')
    \<and> (proto live_redis (idem_ttl (live_env ''billing'' (Inr (OtherOutput ''ok'')))) ''k'')\<^sup>*\<^sup>*
        (Map.empty, \<lambda>c :: bool. Idle) (w_redis w', (\<lambda>c. Idle)(True := Completed response)))
   \<and> (proto live_redis (idem_ttl (live_env ''billing'' (Inr (OtherOutput ''ok'')))) ''k'')\<^sup>*\<^sup>*
        ([idem_key ''k'' \<mapsto> sentinel_text], \<lambda>c :: bool. Idle)
        ([idem_key ''k'' \<mapsto> sentinel_text], (\<lambda>c. Idle)(True := Refused (TicketCreationInProgress ''k'')))"
proof
  let ?E = "live_env ''billing'' (Inr (OtherOutput ''ok''))" and ?q = "sample_request 1"
  have env: "redis_laws (e_redis ?E)" "no_expiry (e_redis ?E)" "\<And>db. valid_datetime (d_db_now (e_db ?E) db)"
    by (simp_all add: sample_db_env_def sample_time_def)
  note T = create_ticket_follows_protocol [OF env(1,2) base_kickoff_law env(3), where ph = "\<lambda>c. Idle" and c = True, OF _ refl,
      THEN conjunct1]
  obtain c r w2 where ex: "execute_ticket ?E ?q (live_world\<lparr>w_redis := [idem_key ''k'' \<mapsto> sentinel_text]\<rparr>) =
      (Inr (response_of_state ?q (new_ticket sample_db_env ?q sample_db)
        (final_state ?q (d_new_id sample_db_env sample_db) c r)), w2)"
    using execute_ticket_answers [of ?E UNIV ?q "live_world\<lparr>w_redis := [idem_key ''k'' \<mapsto> sentinel_text]\<rparr>"] by auto
  let ?resp = "response_of_state ?q (new_ticket sample_db_env ?q sample_db) (final_state ?q (d_new_id sample_db_env sample_db) c r)"
  have claim: "claim_key ?E ''k'' (w_redis live_world) = (Inr None, [idem_key ''k'' \<mapsto> sentinel_text])"
    by (simp add: claim_or_get_existing_def)
  obtain w3 where first: "create_ticket ?E ?q (Some ''k'') live_world = (Inr ?resp, w3)"
    using ex by (simp add: create_ticket_claimed [OF claim] claimed_body_def bind_def catch_def on_redis_def idem_complete_def)
  have "end_phase (Inr ?resp) = Completed ?resp" by (simp add: response_of_state_def)
  with T [OF first] first show "\<exists>w' response. create_ticket ?E ?q (Some ''k'') live_world = (Inr response, w')
    \<and> (proto live_redis (idem_ttl ?E) ''k'')\<^sup>*\<^sup>* (Map.empty, \<lambda>c :: bool. Idle) (w_redis w', (\<lambda>c. Idle)(True := Completed response))"
    by auto
  let ?w = "live_world\<lparr>w_redis := [idem_key ''k'' \<mapsto> sentinel_text]\<rparr>"
  have "create_ticket ?E ?q (Some ''k'') ?w = (Inl (TicketCreationInProgress ''k''), ?w)"
    using create_ticket_commands [of ?E ?q "''k''" ?w] by (simp add: after_get_def)
  from T [OF this] show "(proto live_redis (idem_ttl ?E) ''k'')\<^sup>*\<^sup>* ([idem_key ''k'' \<mapsto> sentinel_text], \<lambda>c :: bool. Idle)
        ([idem_key ''k'' \<mapsto> sentinel_text], (\<lambda>c. Idle)(True := Refused (TicketCreationInProgress ''k'')))" by simp
qed

theorem proto_refines_once_witness:
  "once (Free, \<lambda>c :: bool. Idle) (idem_slot live_redis [idem_key ''k'' \<mapsto> sentinel_text] ''k'', (\<lambda>c. Idle)(True := Executing))"
proof -
  have step: "proto live_redis 60 ''k'' (Map.empty, \<lambda>c. Idle)
      ([idem_key ''k'' \<mapsto> sentinel_text], (\<lambda>c. Idle)(True := Executing))"
    by (rule P_Claim) simp_all
  have "record_ok live_redis ''k'' (fst (Map.empty, \<lambda>c :: bool. Idle))" by (simp add: record_ok_def)
  from proto_refines_once [OF live_redis_laws step this] show ?thesis
    using no_record_ok [of live_redis Map.empty "''k''"] by simp
qed

end
