(* ===== verification/Float_Arith.thy ===== *)
theory Float_Arith
  imports PyFloat Json
begin

section \<open>Arithmetic of floats\<close>

text \<open>
  The arithmetic of the load test's figures: addition, quotient and product rounded to
  binary64, the built-in functions \<open>sum\<close>, \<open>min\<close> and \<open>max\<close>, and the formats \<open>%.0f\<close>, \<open>%.1f\<close>, \<open>%.2f\<close>.
  The project asks for Python 3.12, whose \<open>sum\<close> of floats carries a compensation (Neumaier).
  The sign of a zero is not kept. The lemmas show that rounding is monotone, and so the order of
  the figures.
\<close>

subsection \<open>The operations\<close>

definition round64 :: "rat \<Rightarrow> py_float" where
  "round64 x = (if 0 \<le> x then binary64 x
     else case binary64 (- x) of Fin y \<Rightarrow> Fin (- y) | PosInf \<Rightarrow> NegInf | r \<Rightarrow> r)"

fun float_neg :: "py_float \<Rightarrow> py_float" where
  "float_neg (Fin a) = Fin (- a)"
| "float_neg PosInf = NegInf"
| "float_neg NegInf = PosInf"
| "float_neg NaN = NaN"

fun float_abs :: "py_float \<Rightarrow> py_float" where
  "float_abs (Fin a) = Fin \<bar>a\<bar>"
| "float_abs NaN = NaN"
| "float_abs _ = PosInf"

fun float_add :: "py_float \<Rightarrow> py_float \<Rightarrow> py_float" where
  "float_add (Fin a) (Fin b) = round64 (a + b)"
| "float_add NaN _ = NaN"
| "float_add _ NaN = NaN"
| "float_add (Fin _) y = y"
| "float_add x (Fin _) = x"
| "float_add x y = (if x = y then x else NaN)"

definition float_sub :: "py_float \<Rightarrow> py_float \<Rightarrow> py_float" where
  "float_sub x y = float_add x (float_neg y)"

definition float_ge :: "py_float \<Rightarrow> py_float \<Rightarrow> bool" where
  "float_ge x y \<longleftrightarrow> x \<noteq> NaN \<and> y \<noteq> NaN \<and> \<not> float_less x y"

text \<open>The product with a positive integer, and the quotient by a positive one.\<close>

fun float_scale :: "py_float \<Rightarrow> nat \<Rightarrow> py_float" where
  "float_scale (Fin a) k = round64 (a * of_nat k)"
| "float_scale x _ = x"

fun float_over :: "py_float \<Rightarrow> nat \<Rightarrow> py_float" where
  "float_over (Fin a) k = round64 (a / of_nat k)"
| "float_over x _ = x"

text \<open>The quotient of a number of requests by a positive float.\<close>

fun nat_over :: "nat \<Rightarrow> py_float \<Rightarrow> py_float" where
  "nat_over k (Fin a) = round64 (of_nat k / a)"
| "nat_over k NaN = NaN"
| "nat_over k _ = Fin 0"

text \<open>One step of \<open>sum\<close>: the sum so far and its compensation; \<open>py_sum\<close> of at least one float.\<close>

definition sum_step :: "py_float \<times> py_float \<Rightarrow> py_float \<Rightarrow> py_float \<times> py_float" where
  "sum_step s x =
     (let hi = fst s; t = float_add hi x
      in (t, float_add (snd s)
           (if float_ge (float_abs hi) (float_abs x) then float_add (float_sub hi t) x
            else float_add (float_sub x t) hi)))"

definition py_sum :: "py_float list \<Rightarrow> py_float" where
  "py_sum xs =
     (let (hi, c) = foldl sum_step (hd xs, Fin 0) (tl xs)
      in case c of Fin y \<Rightarrow> (if y = 0 then hi else float_add hi c) | _ \<Rightarrow> hi)"

text \<open>\<open>min\<close> and \<open>max\<close> of at least one float keep the first of equal items.\<close>

definition py_min :: "py_float list \<Rightarrow> py_float" where
  "py_min xs = foldl (\<lambda>m x. if float_less x m then x else m) (hd xs) (tl xs)"

definition py_max :: "py_float list \<Rightarrow> py_float" where
  "py_max xs = foldl (\<lambda>m x. if float_less m x then x else m) (hd xs) (tl xs)"

text \<open>\<open>"%.<d>f" % x\<close>: the exact value rounded to \<open>d\<close> decimals, ties to even.\<close>

definition zero_fill :: "nat \<Rightarrow> string \<Rightarrow> string" where
  "zero_fill d s = replicate (d - length s) (CHR ''0'') @ s"

definition fixed_abs :: "nat \<Rightarrow> rat \<Rightarrow> string" where
  "fixed_abs d x =
     (let n = nat (round_half_even (x * 10 ^ d))
      in nat_str (n div 10 ^ d) @ (if d = 0 then '''' else ''.'' @ zero_fill d (nat_str (n mod 10 ^ d))))"

fun format_fixed :: "nat \<Rightarrow> py_float \<Rightarrow> string" where
  "format_fixed d (Fin x) = (if x < 0 then CHR ''-'' # fixed_abs d (- x) else fixed_abs d x)"
| "format_fixed d PosInf = ''inf''"
| "format_fixed d NegInf = ''-inf''"
| "format_fixed d NaN = ''nan''"

subsection \<open>Rounding is monotone\<close>

lemma round_half_even_range: "\<lfloor>x\<rfloor> \<le> round_half_even x \<and> round_half_even x \<le> \<lfloor>x\<rfloor> + 1"
  by (simp add: round_half_even_def Let_def)

lemma round_half_even_mono:
  assumes "x \<le> y"
  shows "round_half_even x \<le> round_half_even y"
proof (cases "\<lfloor>x\<rfloor> = \<lfloor>y\<rfloor>")
  case True
  with assms have "x - of_int \<lfloor>y\<rfloor> \<le> y - of_int \<lfloor>y\<rfloor>" by simp
  with True show ?thesis by (auto simp: round_half_even_def Let_def)
next
  case False
  with floor_mono [OF assms] have "\<lfloor>x\<rfloor> + 1 \<le> \<lfloor>y\<rfloor>" by linarith
  with round_half_even_range [of x] round_half_even_range [of y] show ?thesis by linarith
qed

lemma floor_log2_mono:
  assumes "0 < x" and "x \<le> y"
  shows "floor_log2 x \<le> floor_log2 y"
proof -
  have "0 < y" using assms by linarith
  from floor_log2_bounds [OF assms(1)] floor_log2_bounds [OF this] assms(2)
  have "pow2 (floor_log2 x) < pow2 (floor_log2 y + 1)" by linarith
  then have "\<not> floor_log2 y + 1 \<le> floor_log2 x" using pow2_mono [of "floor_log2 y + 1" "floor_log2 x"] by linarith
  then show ?thesis by linarith
qed

definition scaled :: "rat \<Rightarrow> rat" where
  "scaled x = (let e = max (floor_log2 x - 52) (-1074) in of_int (round_half_even (x * pow2 (- e))) * pow2 e)"

lemma binary64_scaled: "0 < x \<Longrightarrow> binary64 x = (if pow2 1024 \<le> scaled x then PosInf else Fin (scaled x))"
  by (simp add: binary64_def scaled_def Let_def)

lemma scaled_nonneg: "0 < x \<Longrightarrow> 0 \<le> scaled x"
  using round_half_even_ge [of 0 "x * pow2 e" for e] by (simp add: scaled_def Let_def less_imp_le)

lemma scaled_mono:
  assumes "0 < x" and "x \<le> y"
  shows "scaled x \<le> scaled y"
proof -
  define e f where "e = max (floor_log2 x - 52) (-1074)" and "f = max (floor_log2 y - 52) (-1074)"
  have y: "0 < y" using assms by linarith
  have sx: "scaled x = of_int (round_half_even (x * pow2 (- e))) * pow2 e"
    and sy: "scaled y = of_int (round_half_even (y * pow2 (- f))) * pow2 f"
    by (simp_all add: scaled_def Let_def e_def f_def)
  show ?thesis
  proof (cases "e = f")
    case True
    have "x * pow2 (- e) \<le> y * pow2 (- e)" using assms(2) by (simp add: mult_right_mono less_imp_le)
    from round_half_even_mono [OF this] show ?thesis
      unfolding sx sy True [symmetric] by (intro mult_right_mono) (simp_all add: less_imp_le)
  next
    case False
    with floor_log2_mono [OF assms] have f: "f = floor_log2 y - 52" "floor_log2 x < floor_log2 y" "e \<le> floor_log2 y"
      unfolding e_def f_def by linarith+
    have "x < pow2 (floor_log2 y)"
      using floor_log2_bounds [OF assms(1)] pow2_mono [of "floor_log2 x + 1" "floor_log2 y"] f(2) by linarith
    then have "scaled x \<le> pow2 (floor_log2 y)" unfolding sx using f(3) by (rule scaled_upper)
    also have "\<dots> \<le> scaled y" unfolding sy using floor_log2_bounds [OF y] f(1) by (intro scaled_bounds) simp_all
    finally show ?thesis .
  qed
qed

lemma binary64_mono:
  assumes "0 \<le> x" and "x \<le> y"
  shows "\<not> float_less (binary64 y) (binary64 x)"
proof (cases "x = 0")
  case True
  then show ?thesis using assms(2) scaled_nonneg [of y] binary64_scaled [of y]
    by (cases "y = 0") (simp_all add: binary64_def)
next
  case False
  with assms have "0 < x" "0 < y" by simp_all
  with scaled_mono [OF this(1) assms(2)] show ?thesis by (simp add: binary64_scaled)
qed

lemma float_scale_mono:
  assumes "\<not> float_less y x" and "x = Fin a" and "y = Fin b" and "0 \<le> a"
  shows "\<not> float_less (float_scale y k) (float_scale x k)"
proof -
  have "a * of_nat k \<le> b * of_nat k" using assms by (simp add: mult_right_mono)
  then show ?thesis using assms binary64_mono [of "a * of_nat k" "b * of_nat k"] by (simp add: round64_def)
qed

subsection \<open>The least and the greatest\<close>

lemma py_min_list: "map Fin xs \<noteq> [] \<Longrightarrow> py_min (map Fin xs) = Fin (Min (set xs))"
proof -
  assume "map Fin xs \<noteq> []"
  then obtain y ys where xs: "xs = y # ys" by (cases xs) auto
  have "foldl (\<lambda>m x. if float_less x m then x else m) (Fin y) (map Fin ys) = Fin (fold min ys y)"
    by (induction ys arbitrary: y) (auto simp: min_def)
  then show ?thesis unfolding Min.set_eq_fold xs by (simp add: py_min_def)
qed

lemma py_max_list: "map Fin xs \<noteq> [] \<Longrightarrow> py_max (map Fin xs) = Fin (Max (set xs))"
proof -
  assume "map Fin xs \<noteq> []"
  then obtain y ys where xs: "xs = y # ys" by (cases xs) auto
  have "foldl (\<lambda>m x. if float_less m x then x else m) (Fin y) (map Fin ys) = Fin (fold max ys y)"
    by (induction ys arbitrary: y) (auto simp: max_def)
  then show ?thesis unfolding Max.set_eq_fold xs by (simp add: py_max_def)
qed

end
