(* ===== verification/Seed_Data.thy ===== *)
theory Seed_Data
  imports Database
begin

section \<open>The seed data\<close>

text \<open>
  The data of \<^verbatim>\<open>backend/scripts/seed.py\<close>: the \<open>TypedDict\<close>s as records, the four tables as lists in the
  order of the source. Adjacent string literals of the source are joined with \<open>@\<close>.
\<close>

record user_seed =
  us_seed_full_name :: string
  us_seed_email :: string
  us_seed_password :: string
  us_seed_role :: user_role

record customer_seed =
  cu_seed_name :: string
  cu_seed_email :: string
  cu_seed_company :: string
  cu_seed_tier :: customer_tier

record ticket_seed =
  tk_seed_customer_index :: int
  tk_seed_subject :: string
  tk_seed_description :: string
  tk_seed_priority :: ticket_priority
  tk_seed_status :: ticket_status
  tk_seed_assigned_to :: "string option"
  tk_seed_ai_summary :: "string option"

record knowledge_article_seed =
  ka_seed_category :: string
  ka_seed_title :: string
  ka_seed_content :: string

definition ADMIN_EMAIL :: string where "ADMIN_EMAIL = ''admin@supportops.ai''"

definition USERS :: "user_seed list" where
  "USERS =
    [\<lparr>us_seed_full_name = ''Admin'',
      us_seed_email = ADMIN_EMAIL,
      us_seed_password = ''AdminPass123!'',
      us_seed_role = ADMIN\<rparr>,
     \<lparr>us_seed_full_name = ''Supervisor'',
      us_seed_email = ''supervisor@supportops.ai'',
      us_seed_password = ''SupervisorPass123!'',
      us_seed_role = SUPERVISOR\<rparr>,
     \<lparr>us_seed_full_name = ''Agent One'',
      us_seed_email = ''agent1@supportops.ai'',
      us_seed_password = ''AgentOnePass123!'',
      us_seed_role = AGENT\<rparr>,
     \<lparr>us_seed_full_name = ''Agent Two'',
      us_seed_email = ''agent2@supportops.ai'',
      us_seed_password = ''AgentTwoPass123!'',
      us_seed_role = AGENT\<rparr>]"

definition CUSTOMERS :: "customer_seed list" where
  "CUSTOMERS =
    [\<lparr>cu_seed_name = ''Jane Doe'',
      cu_seed_email = ''jane.doe@acme.example.com'',
      cu_seed_company = ''Acme Corporation'',
      cu_seed_tier = ENTERPRISE\<rparr>,
     \<lparr>cu_seed_name = ''John Smith'',
      cu_seed_email = ''john.smith@globex.example.com'',
      cu_seed_company = ''Globex Corporation'',
      cu_seed_tier = PREMIUM\<rparr>,
     \<lparr>cu_seed_name = ''Bruce Wayne'',
      cu_seed_email = ''bruce.wayne@wayne.example.com'',
      cu_seed_company = ''Wayne Enterprises'',
      cu_seed_tier = ENTERPRISE\<rparr>,
     \<lparr>cu_seed_name = ''Tony Stark'',
      cu_seed_email = ''tony.stark@stark.example.com'',
      cu_seed_company = ''Stark Industries'',
      cu_seed_tier = ENTERPRISE\<rparr>,
     \<lparr>cu_seed_name = ''Alice Johnson'',
      cu_seed_email = ''alice.johnson@umbrella.example.com'',
      cu_seed_company = ''Umbrella Corporation'',
      cu_seed_tier = STANDARD\<rparr>]"

definition TICKETS :: "ticket_seed list" where
  "TICKETS =
    [\<lparr>tk_seed_customer_index = 0,
      tk_seed_subject = ''Cannot log into account'',
      tk_seed_description = ''Customer reports repeated 'invalid credentials' errors despite '' @
        ''resetting their password twice today.'',
      tk_seed_priority = HIGH,
      tk_seed_status = TS_NEW,
      tk_seed_assigned_to = None,
      tk_seed_ai_summary = None\<rparr>,
     \<lparr>tk_seed_customer_index = 0,
      tk_seed_subject = ''Billing discrepancy on invoice #4521'',
      tk_seed_description = ''Customer was charged twice for the March subscription renewal '' @
        ''and is requesting a refund.'',
      tk_seed_priority = MEDIUM,
      tk_seed_status = TS_TRIAGED,
      tk_seed_assigned_to = None,
      tk_seed_ai_summary = None\<rparr>,
     \<lparr>tk_seed_customer_index = 0,
      tk_seed_subject = ''Feature request: bulk CSV export'',
      tk_seed_description = ''Customer wants to export all tickets and customer records as a '' @
        ''single CSV file for internal reporting.'',
      tk_seed_priority = LOW,
      tk_seed_status = TS_CLOSED,
      tk_seed_assigned_to = Some ''agent1@supportops.ai'',
      tk_seed_ai_summary = Some (''Confirmed bulk export is on the public roadmap; customer '' @
        ''notified and ticket closed as acknowledged.'')\<rparr>,
     \<lparr>tk_seed_customer_index = 1,
      tk_seed_subject = ''API returning intermittent 500 errors'',
      tk_seed_description = ''Customer's integration receives sporadic 500 Internal Server '' @
        ''Error responses from the /v1/tickets endpoint, roughly 1 in 20 '' @
        ''requests.'',
      tk_seed_priority = URGENT,
      tk_seed_status = TS_ASSIGNED,
      tk_seed_assigned_to = Some ''agent1@supportops.ai'',
      tk_seed_ai_summary = None\<rparr>,
     \<lparr>tk_seed_customer_index = 1,
      tk_seed_subject = ''Password reset email not received'',
      tk_seed_description = ''Customer requested a password reset three times but has not '' @
        ''received the email; spam folder confirmed empty.'',
      tk_seed_priority = MEDIUM,
      tk_seed_status = TS_DRAFTED,
      tk_seed_assigned_to = Some ''agent2@supportops.ai'',
      tk_seed_ai_summary = None\<rparr>,
     \<lparr>tk_seed_customer_index = 1,
      tk_seed_subject = ''Upgrade subscription tier'',
      tk_seed_description = ''Customer wants to move from the Premium plan to Enterprise and '' @
        ''asked about migration steps.'',
      tk_seed_priority = LOW,
      tk_seed_status = TS_NEW,
      tk_seed_assigned_to = None,
      tk_seed_ai_summary = None\<rparr>,
     \<lparr>tk_seed_customer_index = 2,
      tk_seed_subject = ''Data export missing records'',
      tk_seed_description = ''Customer's nightly data export is missing roughly 200 records '' @
        ''compared to the in-app dashboard count.'',
      tk_seed_priority = HIGH,
      tk_seed_status = TS_APPROVAL_REQUIRED,
      tk_seed_assigned_to = Some ''agent1@supportops.ai'',
      tk_seed_ai_summary = None\<rparr>,
     \<lparr>tk_seed_customer_index = 2,
      tk_seed_subject = ''SSO integration broken after update'',
      tk_seed_description = ''Customer can no longer log in via their SAML identity provider '' @
        ''after last night's platform update.'',
      tk_seed_priority = URGENT,
      tk_seed_status = TS_TRIAGED,
      tk_seed_assigned_to = None,
      tk_seed_ai_summary = None\<rparr>,
     \<lparr>tk_seed_customer_index = 2,
      tk_seed_subject = ''Dashboard loading slowly'',
      tk_seed_description = ''Customer reports the analytics dashboard takes over 30 seconds '' @
        ''to load for accounts with large ticket volumes.'',
      tk_seed_priority = MEDIUM,
      tk_seed_status = TS_ASSIGNED,
      tk_seed_assigned_to = Some ''agent2@supportops.ai'',
      tk_seed_ai_summary = None\<rparr>,
     \<lparr>tk_seed_customer_index = 3,
      tk_seed_subject = ''Unable to add new team members'',
      tk_seed_description = ''Customer receives a generic 'something went wrong' error when '' @
        ''inviting new teammates from the admin panel.'',
      tk_seed_priority = MEDIUM,
      tk_seed_status = TS_APPROVED,
      tk_seed_assigned_to = Some ''agent1@supportops.ai'',
      tk_seed_ai_summary = Some (''Root cause identified as a seat-limit check bug; fix scheduled, '' @
        ''customer informed of timeline.'')\<rparr>,
     \<lparr>tk_seed_customer_index = 3,
      tk_seed_subject = ''Incorrect usage metrics displayed'',
      tk_seed_description = ''Customer's usage dashboard shows zero API calls despite active '' @
        ''daily traffic confirmed in server logs.'',
      tk_seed_priority = LOW,
      tk_seed_status = TS_SENT,
      tk_seed_assigned_to = Some ''agent2@supportops.ai'',
      tk_seed_ai_summary = Some (''Metrics pipeline delay explained to customer; dashboard '' @
        ''back-filled and confirmed correct.'')\<rparr>,
     \<lparr>tk_seed_customer_index = 3,
      tk_seed_subject = ''Critical outage affecting all users'',
      tk_seed_description = ''Customer's entire team is unable to access the platform; '' @
        ''status page shows no reported incident.'',
      tk_seed_priority = URGENT,
      tk_seed_status = TS_ASSIGNED,
      tk_seed_assigned_to = Some ''agent1@supportops.ai'',
      tk_seed_ai_summary = None\<rparr>,
     \<lparr>tk_seed_customer_index = 4,
      tk_seed_subject = ''Request for GDPR data deletion'',
      tk_seed_description = ''Customer is formally requesting deletion of all personal data '' @
        ''associated with their account under GDPR Article 17.'',
      tk_seed_priority = HIGH,
      tk_seed_status = TS_APPROVAL_REQUIRED,
      tk_seed_assigned_to = Some ''agent2@supportops.ai'',
      tk_seed_ai_summary = None\<rparr>,
     \<lparr>tk_seed_customer_index = 4,
      tk_seed_subject = ''Typo in confirmation email'',
      tk_seed_description = ''Customer flagged a typo ('recieved' instead of 'received') in '' @
        ''the automated ticket confirmation email template.'',
      tk_seed_priority = LOW,
      tk_seed_status = TS_CLOSED,
      tk_seed_assigned_to = Some ''agent1@supportops.ai'',
      tk_seed_ai_summary = Some ''Typo corrected in the email template; no further action needed.''\<rparr>,
     \<lparr>tk_seed_customer_index = 4,
      tk_seed_subject = ''Webhook delivery failures'',
      tk_seed_description = ''Customer's configured webhook endpoint has not received any '' @
        ''events in the last 48 hours despite ticket activity.'',
      tk_seed_priority = HIGH,
      tk_seed_status = TS_NEW,
      tk_seed_assigned_to = None,
      tk_seed_ai_summary = None\<rparr>]"

definition KNOWLEDGE_ARTICLES :: "knowledge_article_seed list" where
  "KNOWLEDGE_ARTICLES =
    [\<lparr>ka_seed_category = ''billing'',
      ka_seed_title = ''Refund Policy'',
      ka_seed_content = ''Refunds for duplicate or erroneous charges are issued to the original '' @
        ''payment method within 5-7 business days. Subscription refunds for '' @
        ''cancellations made within 14 days of renewal are prorated automatically.''\<rparr>,
     \<lparr>ka_seed_category = ''billing'',
      ka_seed_title = ''Understanding Your Invoice'',
      ka_seed_content = ''Each invoice lists the billing period, plan tier, prorated charges for '' @
        ''mid-cycle upgrades, and any applicable tax. Line items marked 'usage' '' @
        ''reflect metered API calls beyond the plan's included quota.''\<rparr>,
     \<lparr>ka_seed_category = ''billing'',
      ka_seed_title = ''Upgrading or Downgrading Your Plan'',
      ka_seed_content = ''Plan changes take effect immediately; upgrades are billed pro-rata for '' @
        ''the remainder of the current cycle, downgrades take effect at the next '' @
        ''renewal so no service is lost mid-cycle.''\<rparr>,
     \<lparr>ka_seed_category = ''technical'',
      ka_seed_title = ''Troubleshooting Login Failures'',
      ka_seed_content = ''Repeated 'invalid credentials' errors after a password reset usually '' @
        ''mean a cached session token; ask the customer to fully sign out, clear '' @
        ''cookies for the app domain, and sign back in with the new password.''\<rparr>,
     \<lparr>ka_seed_category = ''technical'',
      ka_seed_title = ''Diagnosing Intermittent API 500 Errors'',
      ka_seed_content = ''Sporadic 500s on a small percentage of requests are most often caused '' @
        ''by a transient upstream timeout; check the request ID against the API '' @
        ''status page and retry with exponential backoff before escalating.''\<rparr>,
     \<lparr>ka_seed_category = ''technical'',
      ka_seed_title = ''SSO / SAML Login Issues After a Platform Update'',
      ka_seed_content = ''After a platform update, SAML logins can fail if the identity '' @
        ''provider's cached metadata is stale; ask the customer's admin to '' @
        ''re-fetch the SP metadata URL and re-upload it to their IdP.''\<rparr>,
     \<lparr>ka_seed_category = ''account'',
      ka_seed_title = ''Adding and Removing Team Members'',
      ka_seed_content = ''New teammates are invited from Settings > Team > Invite. A generic '' @
        '''something went wrong' error when inviting usually means the '' @
        ''account has hit its seat limit -- check the plan's seat count first.''\<rparr>,
     \<lparr>ka_seed_category = ''account'',
      ka_seed_title = ''GDPR Data Deletion Requests'',
      ka_seed_content = ''A formal Article 17 deletion request must be routed to the privacy '' @
        ''team and requires supervisor approval before execution; acknowledge '' @
        ''receipt to the customer and confirm the 30-day completion window.''\<rparr>,
     \<lparr>ka_seed_category = ''account'',
      ka_seed_title = ''Resetting a Forgotten Password'',
      ka_seed_content = ''If a password-reset email never arrives, confirm the address on file '' @
        ''is correct and ask the customer to check spam; the reset link expires '' @
        ''after 1 hour, so a fresh request is needed if it was delayed.''\<rparr>,
     \<lparr>ka_seed_category = ''general'',
      ka_seed_title = ''Support Response Time Expectations'',
      ka_seed_content = ''Standard-tier tickets are addressed within 2 business days, Premium '' @
        ''within 1 business day, and Enterprise within 4 business hours; urgent '' @
        ''priority tickets are triaged immediately regardless of tier.''\<rparr>,
     \<lparr>ka_seed_category = ''general'',
      ka_seed_title = ''Requesting a New Feature'',
      ka_seed_content = ''Feature requests are logged to the product roadmap for review; there '' @
        ''is no guaranteed timeline, but customers can be told a request has '' @
        ''been recorded and to watch the changelog for updates.''\<rparr>]"

end
