(* ===== verification/Seed.thy ===== *)
theory Seed
  imports Seed_Data Auth
begin

section \<open>Seeding\<close>

text \<open>
  The logic of \<^verbatim>\<open>backend/scripts/seed.py\<close>. Adding objects to the session and flushing them is \<open>add_all\<close>:
  the rows are inserted one after the other, each with a fresh key, and either all of them are in the
  session afterwards or none. Python's list index and dict lookup raise when they find nothing.
\<close>

subsection \<open>Adding rows\<close>

fun insert_all :: "('s \<Rightarrow> database \<Rightarrow> 'r) \<Rightarrow> ('r \<Rightarrow> database \<Rightarrow> exc + database) \<Rightarrow> 's list \<Rightarrow> database \<Rightarrow> exc + ('r list \<times> database)" where
  "insert_all mk ins [] db = Inr ([], db)"
| "insert_all mk ins (s # ss) db =
     (case ins (mk s db) db of Inl e \<Rightarrow> Inl e
      | Inr db' \<Rightarrow> (case insert_all mk ins ss db' of Inl e \<Rightarrow> Inl e | Inr (rows, db'') \<Rightarrow> Inr (mk s db # rows, db'')))"

definition add_all ::
    "db_env \<Rightarrow> ('s \<Rightarrow> database \<Rightarrow> 'r) \<Rightarrow> ('r \<Rightarrow> database \<Rightarrow> exc + database) \<Rightarrow> 's list \<Rightarrow> 'r list session" where
  "add_all D mk ins specs ss =
     (case d_fault D DbFlush (ss_work ss) of Some e \<Rightarrow> (Inl e, ss)
      | None \<Rightarrow> (case insert_all mk ins specs (ss_work ss) of Inl e \<Rightarrow> (Inl e, ss)
                 | Inr (rows, db) \<Rightarrow> (Inr rows, ss\<lparr>ss_work := db\<rparr>)))"

text \<open>\<open>xs[i]\<close>, with Python's negative indices, and \<open>d[k]\<close>.\<close>

definition py_index :: "'a list \<Rightarrow> int \<Rightarrow> exc + 'a" where
  "py_index xs i =
     (if 0 \<le> i \<and> i < int (length xs) then Inr (xs ! nat i)
      else if i < 0 \<and> - int (length xs) \<le> i then Inr (xs ! nat (int (length xs) + i))
      else Inl (OtherExc ''list index out of range''))"

definition py_lookup :: "(string \<rightharpoonup> 'a) \<Rightarrow> string \<Rightarrow> exc + 'a" where
  "py_lookup d k = (case d k of None \<Rightarrow> Inl (KeyError k) | Some v \<Rightarrow> Inr v)"

subsection \<open>The steps of the script\<close>

definition already_seeded :: "db_env \<Rightarrow> bool session" where
  "already_seeded D = bind (user_by_email D ADMIN_EMAIL) (\<lambda>u. ret (u \<noteq> None))"

definition knowledge_articles_already_seeded :: "db_env \<Rightarrow> bool session" where
  "knowledge_articles_already_seeded D =
     bind (db_select D (\<lambda>db. take 1 (db_articles db))) (\<lambda>rows. ret (rows \<noteq> []))"

definition seed_user :: "auth_libs \<Rightarrow> db_env \<Rightarrow> user_seed \<Rightarrow> database \<Rightarrow> user_row" where
  "seed_user A D spec db =
     \<lparr>us_id = d_new_id D db, us_email = us_seed_email spec, us_password_hash = hash_password A (us_seed_password spec),
      us_full_name = us_seed_full_name spec, us_role = us_seed_role spec, us_is_active = True,
      us_created_at = d_db_now D db, us_updated_at = d_db_now D db\<rparr>"

definition seed_users :: "auth_libs \<Rightarrow> db_env \<Rightarrow> (string \<rightharpoonup> uuid) session" where
  "seed_users A D =
     bind (add_all D (seed_user A D) insert_user USERS)
       (\<lambda>rows. ret (map_of (rev (map (\<lambda>u. (us_email u, us_id u)) rows))))"

definition seed_customer :: "db_env \<Rightarrow> customer_seed \<Rightarrow> database \<Rightarrow> customer_row" where
  "seed_customer D spec db =
     \<lparr>cu_id = d_new_id D db, cu_name = cu_seed_name spec, cu_email = cu_seed_email spec,
      cu_company = Some (cu_seed_company spec), cu_tier = cu_seed_tier spec, cu_created_at = d_db_now D db\<rparr>"

definition seed_customers :: "db_env \<Rightarrow> customer_row list session" where
  "seed_customers D = add_all D (seed_customer D) insert_customer CUSTOMERS"

text \<open>The \<open>Ticket\<close> objects are built before any of them is flushed.\<close>

definition ticket_links :: "customer_row list \<Rightarrow> (string \<rightharpoonup> uuid) \<Rightarrow> ticket_seed \<Rightarrow> exc + (ticket_seed \<times> uuid \<times> uuid option)" where
  "ticket_links customers users spec =
     (case py_index customers (tk_seed_customer_index spec) of Inl e \<Rightarrow> Inl e
      | Inr c \<Rightarrow>
          (if tk_seed_assigned_to spec \<in> {None, Some []} then Inr (spec, cu_id c, None)
           else (case py_lookup users (the (tk_seed_assigned_to spec)) of Inl e \<Rightarrow> Inl e
                 | Inr u \<Rightarrow> Inr (spec, cu_id c, Some u))))"

fun all_ticket_links ::
    "customer_row list \<Rightarrow> (string \<rightharpoonup> uuid) \<Rightarrow> ticket_seed list \<Rightarrow> exc + (ticket_seed \<times> uuid \<times> uuid option) list" where
  "all_ticket_links customers users [] = Inr []"
| "all_ticket_links customers users (spec # specs) =
     (case ticket_links customers users spec of Inl e \<Rightarrow> Inl e
      | Inr l \<Rightarrow> (case all_ticket_links customers users specs of Inl e \<Rightarrow> Inl e | Inr ls \<Rightarrow> Inr (l # ls)))"

definition seed_ticket :: "db_env \<Rightarrow> ticket_seed \<times> uuid \<times> uuid option \<Rightarrow> database \<Rightarrow> ticket_row" where
  "seed_ticket D l db =
     (case l of (spec, customer, agent) \<Rightarrow>
        \<lparr>tk_id = d_new_id D db, tk_customer_id = customer, tk_assigned_agent_id = agent,
         tk_subject = tk_seed_subject spec, tk_description = tk_seed_description spec,
         tk_priority = tk_seed_priority spec, tk_status = tk_seed_status spec,
         tk_ai_summary = tk_seed_ai_summary spec, tk_created_at = d_db_now D db, tk_updated_at = d_db_now D db\<rparr>)"

definition seed_tickets :: "db_env \<Rightarrow> customer_row list \<Rightarrow> (string \<rightharpoonup> uuid) \<Rightarrow> unit session" where
  "seed_tickets D customers users =
     bind (lift_sum (all_ticket_links customers users TICKETS))
       (\<lambda>tickets. bind (add_all D (seed_ticket D) insert_ticket tickets) (\<lambda>_. ret ()))"

definition seed_article :: "db_env \<Rightarrow> knowledge_article_seed \<Rightarrow> database \<Rightarrow> article_row" where
  "seed_article D spec db =
     \<lparr>ka_id = d_new_id D db, ka_category = ka_seed_category spec, ka_title = ka_seed_title spec,
      ka_content = ka_seed_content spec, ka_created_at = d_db_now D db, ka_updated_at = d_db_now D db\<rparr>"

definition seed_knowledge_articles :: "db_env \<Rightarrow> unit session" where
  "seed_knowledge_articles D =
     bind (add_all D (seed_article D) insert_article KNOWLEDGE_ARTICLES) (\<lambda>_. ret ())"

text \<open>What a run writes once it has read whether the accounts, and whether the articles, are there.\<close>

definition seed_accounts :: "auth_libs \<Rightarrow> db_env \<Rightarrow> bool \<Rightarrow> unit session" where
  "seed_accounts A D seeded =
     (if seeded then ret ()
      else bind (seed_users A D) (\<lambda>users. bind (seed_customers D) (\<lambda>customers. seed_tickets D customers users)))"

definition seed_knowledge :: "db_env \<Rightarrow> bool \<Rightarrow> unit session" where
  "seed_knowledge D seeded = (if seeded then ret () else seed_knowledge_articles D)"

text \<open>\<open>sys.exit(1)\<close>.\<close>

definition system_exit :: exc where "system_exit = OtherExc ''SystemExit: 1''"

definition rolled_back :: "db_env \<Rightarrow> unit session \<Rightarrow> unit session" where
  "rolled_back D body = catch body (\<lambda>e. bind (db_rollback D) (\<lambda>_. raise e))"

definition seed :: "settings \<Rightarrow> auth_libs \<Rightarrow> db_env \<Rightarrow> string option \<Rightarrow> (unit, database) comp" where
  "seed S A D allow_seed_in_production =
     (if environment S = ''production'' \<and> allow_seed_in_production \<in> {None, Some []} then raise system_exit
      else with_session (rolled_back D
        (bind (already_seeded D) (\<lambda>seeded.
          bind (seed_accounts A D seeded) (\<lambda>_.
            bind (knowledge_articles_already_seeded D) (\<lambda>articles_seeded.
              bind (seed_knowledge D articles_seeded) (\<lambda>_. db_commit D)))))))"

end
