(* ===== verification/Seed_Facts.thy ===== *)
theory Seed_Facts
  imports Seed Knowledge_Tool
begin

section \<open>What seeding does\<close>

text \<open>
  The locale \<open>table\<close> with its four interpretations, the contents of the tables after a run, and the
  properties of \<^verbatim>\<open>seed()\<close>: all or nothing, repeatable, and what two concurrent runs can leave.
\<close>

subsection \<open>Filling a table\<close>

text \<open>
  The interface of a table that rows are added to: reading and replacing it, making a row from a
  specification, and inserting it. \<open>ready specs db\<close> says that the rows of \<open>specs\<close> can be inserted; it
  must give the next insertion and be kept by it. It is interpreted on the four tables that the
  script fills.
\<close>

locale table =
  fixes tbl :: "database \<Rightarrow> 'r list" and put :: "'r list \<Rightarrow> database \<Rightarrow> database"
    and mk :: "'s \<Rightarrow> database \<Rightarrow> 'r" and ins :: "'r \<Rightarrow> database \<Rightarrow> exc + database"
    and ready :: "'s list \<Rightarrow> database \<Rightarrow> bool"
  assumes put_put: "put rs (put rs' db) = put rs db"
    and tbl_put: "tbl (put rs db) = rs"
    and put_tbl: "put (tbl db) db = db"
    and insert_only: "ins r db = Inr db' \<Longrightarrow> db' = put (tbl db @ [r]) db"
    and insert_ready: "ready (s # ss) db \<Longrightarrow>
      ins (mk s db) db = Inr (put (tbl db @ [mk s db]) db) \<and> ready ss (put (tbl db @ [mk s db]) db)"
begin

lemma insert_all_ok:
  "ready specs db \<Longrightarrow> \<exists>rows. insert_all mk ins specs db = Inr (rows, put (tbl db @ rows) db)
     \<and> list_all2 (\<lambda>s r. \<exists>d. r = mk s d) specs rows"
proof (induction specs arbitrary: db)
  case Nil
  then show ?case by (simp add: put_tbl)
next
  case (Cons s ss)
  let ?db = "put (tbl db @ [mk s db]) db"
  note step = insert_ready [OF Cons.prems]
  from Cons.IH [OF conjunct2 [OF step]] obtain rows where
    "insert_all mk ins ss ?db = Inr (rows, put (tbl ?db @ rows) ?db)" "list_all2 (\<lambda>s r. \<exists>d. r = mk s d) ss rows"
    by blast
  with step show ?case by (intro exI [of _ "mk s db # rows"]) (auto simp: put_put tbl_put)
qed

lemma insert_all_only:
  "insert_all mk ins specs db = Inr (rows, db') \<Longrightarrow> db' = put (tbl db @ rows) db \<and> list_all2 (\<lambda>s r. \<exists>d. r = mk s d) specs rows"
proof (induction specs arbitrary: db rows db')
  case Nil
  then show ?case by (simp add: put_tbl)
next
  case (Cons s ss)
  then obtain db1 rs where "ins (mk s db) db = Inr db1" "insert_all mk ins ss db1 = Inr (rs, db')" "rows = mk s db # rs"
    by (auto split: sum.splits)
  with Cons.IH [of db1 rs db'] insert_only [of "mk s db" db db1] show ?case by (auto simp: put_put tbl_put)
qed

lemma add_all_only:
  assumes "add_all D mk ins specs ss = (Inr rows, ss')"
  shows "ss' = ss\<lparr>ss_work := put (tbl (ss_work ss) @ rows) (ss_work ss)\<rparr> \<and> list_all2 (\<lambda>s r. \<exists>d. r = mk s d) specs rows"
  using assms insert_all_only by (auto simp: add_all_def split: option.splits sum.splits)

lemma add_all_ok:
  assumes "no_faults D" "ready specs (ss_work ss)"
  shows "\<exists>rows. add_all D mk ins specs ss = (Inr rows, ss\<lparr>ss_work := put (tbl (ss_work ss) @ rows) (ss_work ss)\<rparr>)
     \<and> list_all2 (\<lambda>s r. \<exists>d. r = mk s d) specs rows"
proof -
  obtain rows where "insert_all mk ins specs (ss_work ss) = Inr (rows, put (tbl (ss_work ss) @ rows) (ss_work ss))"
    "list_all2 (\<lambda>s r. \<exists>d. r = mk s d) specs rows" using insert_all_ok [OF assms(2)] by blast
  with assms(1) show ?thesis by (intro exI [of _ rows]) (simp add: add_all_def no_faults_def)
qed

end

definition all_ids :: "database \<Rightarrow> uuid list" where
  "all_ids db = user_ids db @ customer_ids db @ ticket_ids db @ map ka_id (db_articles db)"

text \<open>New keys are fresh, as long as there are no more than \<open>n\<close> rows.\<close>

definition fresh_ids :: "db_env \<Rightarrow> nat \<Rightarrow> bool" where
  "fresh_ids D n \<longleftrightarrow> (\<forall>db. length (all_ids db) \<le> n \<longrightarrow> d_new_id D db \<notin> set (all_ids db))"

lemma fresh_idsD:
  assumes "fresh_ids D n" "length (all_ids db) + k \<le> n"
  shows "d_new_id D db \<notin> set (user_ids db)" "d_new_id D db \<notin> set (customer_ids db)"
    "d_new_id D db \<notin> set (ticket_ids db)" "d_new_id D db \<notin> ka_id ` set (db_articles db)"
  using assms by (auto simp: fresh_ids_def all_ids_def)

definition users_ready :: "db_env \<Rightarrow> nat \<Rightarrow> user_seed list \<Rightarrow> database \<Rightarrow> bool" where
  "users_ready D n specs db \<longleftrightarrow> fresh_ids D n \<and> length (all_ids db) + length specs \<le> n
     \<and> distinct (map us_seed_email specs) \<and> us_seed_email ` set specs \<inter> us_email ` set (db_users db) = {}
     \<and> (\<forall>s \<in> set specs. length (us_seed_email s) \<le> 255 \<and> length (us_seed_full_name s) \<le> 255)"

definition customers_ready :: "db_env \<Rightarrow> nat \<Rightarrow> customer_seed list \<Rightarrow> database \<Rightarrow> bool" where
  "customers_ready D n specs db \<longleftrightarrow> fresh_ids D n \<and> length (all_ids db) + length specs \<le> n
     \<and> (\<forall>s \<in> set specs. length (cu_seed_name s) \<le> 255 \<and> length (cu_seed_email s) \<le> 255 \<and> length (cu_seed_company s) \<le> 255)"

definition tickets_ready :: "db_env \<Rightarrow> nat \<Rightarrow> (ticket_seed \<times> uuid \<times> uuid option) list \<Rightarrow> database \<Rightarrow> bool" where
  "tickets_ready D n ls db \<longleftrightarrow> fresh_ids D n \<and> length (all_ids db) + length ls \<le> n
     \<and> (\<forall>(s, c, u) \<in> set ls. length (tk_seed_subject s) \<le> 255 \<and> c \<in> set (customer_ids db) \<and> fk_opt u (user_ids db))"

definition articles_ready :: "db_env \<Rightarrow> nat \<Rightarrow> knowledge_article_seed list \<Rightarrow> database \<Rightarrow> bool" where
  "articles_ready D n specs db \<longleftrightarrow> fresh_ids D n \<and> length (all_ids db) + length specs \<le> n
     \<and> (\<forall>s \<in> set specs. length (ka_seed_category s) \<le> 50 \<and> length (ka_seed_title s) \<le> 255)"

interpretation users: table db_users "\<lambda>rs. db_users_update (\<lambda>_. rs)" "seed_user A D" insert_user "users_ready D n"
  for A D n
proof unfold_locales
  fix s ss db
  assume r: "users_ready D n (s # ss) db"
  then have "d_new_id D db \<notin> set (user_ids db)"
    using fresh_idsD [of D n db "Suc (length ss)"] by (simp add: users_ready_def)
  with r show "insert_user (seed_user A D s db) db = Inr (db\<lparr>db_users := db_users db @ [seed_user A D s db]\<rparr>)
      \<and> users_ready D n ss (db\<lparr>db_users := db_users db @ [seed_user A D s db]\<rparr>)"
    by (auto simp: users_ready_def insert_user_def seed_user_def all_ids_def id_lists)
qed (auto simp: insert_user_def split: if_splits)

interpretation customers: table db_customers "\<lambda>rs. db_customers_update (\<lambda>_. rs)" "seed_customer D" insert_customer "customers_ready D n"
  for D n
proof unfold_locales
  fix s ss db
  assume r: "customers_ready D n (s # ss) db"
  then have "d_new_id D db \<notin> set (customer_ids db)"
    using fresh_idsD [of D n db "Suc (length ss)"] by (simp add: customers_ready_def)
  with r show "insert_customer (seed_customer D s db) db = Inr (db\<lparr>db_customers := db_customers db @ [seed_customer D s db]\<rparr>)
      \<and> customers_ready D n ss (db\<lparr>db_customers := db_customers db @ [seed_customer D s db]\<rparr>)"
    by (auto simp: customers_ready_def insert_customer_def seed_customer_def all_ids_def id_lists)
qed (auto simp: insert_customer_def split: if_splits)

interpretation tickets: table db_tickets "\<lambda>rs. db_tickets_update (\<lambda>_. rs)" "seed_ticket D" insert_ticket "tickets_ready D n"
  for D n
proof unfold_locales
  fix l ls db
  assume r: "tickets_ready D n (l # ls) db"
  then have "d_new_id D db \<notin> set (ticket_ids db)"
    using fresh_idsD [of D n db "Suc (length ls)"] by (simp add: tickets_ready_def)
  with r show "insert_ticket (seed_ticket D l db) db = Inr (db\<lparr>db_tickets := db_tickets db @ [seed_ticket D l db]\<rparr>)
      \<and> tickets_ready D n ls (db\<lparr>db_tickets := db_tickets db @ [seed_ticket D l db]\<rparr>)"
    by (auto simp: tickets_ready_def insert_ticket_def seed_ticket_def all_ids_def id_lists split: prod.splits)
qed (auto simp: insert_ticket_def split: if_splits)

interpretation articles: table db_articles "\<lambda>rs. db_articles_update (\<lambda>_. rs)" "seed_article D" insert_article "articles_ready D n"
  for D n
proof unfold_locales
  fix s ss db
  assume r: "articles_ready D n (s # ss) db"
  then have "d_new_id D db \<notin> ka_id ` set (db_articles db)"
    using fresh_idsD [of D n db "Suc (length ss)"] by (simp add: articles_ready_def)
  with r show "insert_article (seed_article D s db) db = Inr (db\<lparr>db_articles := db_articles db @ [seed_article D s db]\<rparr>)
      \<and> articles_ready D n ss (db\<lparr>db_articles := db_articles db @ [seed_article D s db]\<rparr>)"
    by (auto simp: articles_ready_def insert_article_def seed_article_def all_ids_def id_lists)
qed (auto simp: insert_article_def split: if_splits)

subsection \<open>The rows that the script writes\<close>

definition user_as :: "auth_libs \<Rightarrow> user_seed \<Rightarrow> user_row \<Rightarrow> bool" where
  "user_as A spec u \<longleftrightarrow> us_email u = us_seed_email spec \<and> us_full_name u = us_seed_full_name spec
     \<and> us_role u = us_seed_role spec \<and> us_is_active u \<and> us_password_hash u = hash_password A (us_seed_password spec)"

definition customer_as :: "customer_seed \<Rightarrow> customer_row \<Rightarrow> bool" where
  "customer_as spec c \<longleftrightarrow> cu_name c = cu_seed_name spec \<and> cu_email c = cu_seed_email spec
     \<and> cu_company c = Some (cu_seed_company spec) \<and> cu_tier c = cu_seed_tier spec"

text \<open>A ticket of the customer with the given index, assigned to the user with the given e-mail.\<close>

definition ticket_as :: "user_row list \<Rightarrow> customer_row list \<Rightarrow> ticket_seed \<Rightarrow> ticket_row \<Rightarrow> bool" where
  "ticket_as us cs spec t \<longleftrightarrow> tk_subject t = tk_seed_subject spec \<and> tk_description t = tk_seed_description spec
     \<and> tk_priority t = tk_seed_priority spec \<and> tk_status t = tk_seed_status spec \<and> tk_ai_summary t = tk_seed_ai_summary spec
     \<and> tk_customer_id t = cu_id (cs ! nat (tk_seed_customer_index spec))
     \<and> (case tk_seed_assigned_to spec of None \<Rightarrow> tk_assigned_agent_id t = None
        | Some email \<Rightarrow> \<exists>u \<in> set us. us_email u = email \<and> tk_assigned_agent_id t = Some (us_id u))"

definition article_as :: "knowledge_article_seed \<Rightarrow> article_row \<Rightarrow> bool" where
  "article_as spec a \<longleftrightarrow> ka_category a = ka_seed_category spec \<and> ka_title a = ka_seed_title spec
     \<and> ka_content a = ka_seed_content spec"

lemma made_users: "list_all2 (\<lambda>s u. \<exists>d. u = seed_user A D s d) specs us \<Longrightarrow> list_all2 (user_as A) specs us"
  by (erule list_all2_mono) (auto simp: user_as_def seed_user_def)

lemma made_customers: "list_all2 (\<lambda>s c. \<exists>d. c = seed_customer D s d) specs cs \<Longrightarrow> list_all2 customer_as specs cs"
  by (erule list_all2_mono) (auto simp: customer_as_def seed_customer_def)

lemma made_articles: "list_all2 (\<lambda>s a. \<exists>d. a = seed_article D s d) specs as \<Longrightarrow> list_all2 article_as specs as"
  by (erule list_all2_mono) (auto simp: article_as_def seed_article_def)

lemma users_facts:
  "distinct (map us_seed_email USERS)" "length USERS = 4"
  "s \<in> set USERS \<Longrightarrow> length (us_seed_email s) \<le> 255 \<and> length (us_seed_full_name s) \<le> 255"
  by (auto simp: USERS_def ADMIN_EMAIL_def)

lemma customers_facts:
  "length CUSTOMERS = 5"
  "s \<in> set CUSTOMERS \<Longrightarrow> length (cu_seed_name s) \<le> 255 \<and> length (cu_seed_email s) \<le> 255 \<and> length (cu_seed_company s) \<le> 255"
  by (auto simp: CUSTOMERS_def)

lemma tickets_facts:
  "length TICKETS = 15"
  "s \<in> set TICKETS \<Longrightarrow> length (tk_seed_subject s) \<le> 255 \<and> 0 \<le> tk_seed_customer_index s \<and> tk_seed_customer_index s < 5
     \<and> tk_seed_assigned_to s \<noteq> Some [] \<and> (\<forall>email. tk_seed_assigned_to s = Some email \<longrightarrow> email \<in> us_seed_email ` set USERS)"
proof -
  show "length TICKETS = 15" by (simp add: TICKETS_def)
  have len: "list_all (\<lambda>s. length (tk_seed_subject s) \<le> 255 \<and> 0 \<le> tk_seed_customer_index s \<and> tk_seed_customer_index s < 5) TICKETS"
    by (simp add: TICKETS_def)
  have agents: "list_all (\<lambda>s. tk_seed_assigned_to s \<in> {None, Some ''agent1@supportops.ai'', Some ''agent2@supportops.ai''}) TICKETS"
    by (simp add: TICKETS_def)
  have known: "''agent1@supportops.ai'' \<in> us_seed_email ` set USERS" "''agent2@supportops.ai'' \<in> us_seed_email ` set USERS"
    by (simp_all add: USERS_def)
  assume "s \<in> set TICKETS"
  with len agents have "length (tk_seed_subject s) \<le> 255 \<and> 0 \<le> tk_seed_customer_index s \<and> tk_seed_customer_index s < 5"
    and a: "tk_seed_assigned_to s \<in> {None, Some ''agent1@supportops.ai'', Some ''agent2@supportops.ai''}"
    by (auto simp only: list_all_iff)
  moreover from a have "tk_seed_assigned_to s \<noteq> Some []" by auto
  moreover from a known have "\<forall>email. tk_seed_assigned_to s = Some email \<longrightarrow> email \<in> us_seed_email ` set USERS"
    by (metis empty_iff insert_iff option.distinct(1) option.inject)
  ultimately show "length (tk_seed_subject s) \<le> 255 \<and> 0 \<le> tk_seed_customer_index s \<and> tk_seed_customer_index s < 5
     \<and> tk_seed_assigned_to s \<noteq> Some [] \<and> (\<forall>email. tk_seed_assigned_to s = Some email \<longrightarrow> email \<in> us_seed_email ` set USERS)"
    by blast
qed

lemma articles_facts:
  "length KNOWLEDGE_ARTICLES = 11"
  "s \<in> set KNOWLEDGE_ARTICLES \<Longrightarrow> length (ka_seed_category s) \<le> 50 \<and> length (ka_seed_title s) \<le> 255"
  "ka_seed_category ` set KNOWLEDGE_ARTICLES = {''billing'', ''technical'', ''account'', ''general''}"
  by (auto simp: KNOWLEDGE_ARTICLES_def)

lemma all_ticket_links_ok:
  assumes "\<And>s. s \<in> set specs \<Longrightarrow> 0 \<le> tk_seed_customer_index s \<and> tk_seed_customer_index s < int (length customers)
     \<and> tk_seed_assigned_to s \<noteq> Some [] \<and> (\<forall>email. tk_seed_assigned_to s = Some email \<longrightarrow> users email \<noteq> None)"
  shows "all_ticket_links customers users specs = Inr (map (\<lambda>s. (s, cu_id (customers ! nat (tk_seed_customer_index s)),
     Option.bind (tk_seed_assigned_to s) users)) specs)"
  using assms
proof (induction specs)
  case (Cons s ss)
  from Cons.prems [of s] have "ticket_links customers users s = Inr (s, cu_id (customers ! nat (tk_seed_customer_index s)),
      Option.bind (tk_seed_assigned_to s) users)"
    by (cases "tk_seed_assigned_to s") (auto simp: ticket_links_def py_index_def py_lookup_def)
  moreover have "all_ticket_links customers users ss = Inr (map (\<lambda>s. (s, cu_id (customers ! nat (tk_seed_customer_index s)),
      Option.bind (tk_seed_assigned_to s) users)) ss)"
    by (rule Cons.IH, rule Cons.prems) simp
  ultimately show ?case by simp
qed simp

definition user_keys :: "user_row list \<Rightarrow> (string \<rightharpoonup> uuid)" where
  "user_keys us = map_of (rev (map (\<lambda>u. (us_email u, us_id u)) us))"

lemma user_keys_Some: "user_keys us e = Some i \<Longrightarrow> \<exists>u \<in> set us. us_email u = e \<and> us_id u = i"
  using map_of_SomeD [of "rev (map (\<lambda>u. (us_email u, us_id u)) us)" e i] by (auto simp: user_keys_def)

lemma user_keys_None: "user_keys us e = None \<longleftrightarrow> e \<notin> us_email ` set us"
  by (auto simp: user_keys_def map_of_eq_None_iff image_iff)

lemma user_keys_found: "e \<in> us_email ` set us \<Longrightarrow> \<exists>u \<in> set us. us_email u = e \<and> user_keys us e = Some (us_id u)"
  using user_keys_None [of us e] user_keys_Some [of us e] by (cases "user_keys us e") auto

lemma emails_of: "list_all2 (user_as A) specs us \<Longrightarrow> us_email ` set us = us_seed_email ` set specs"
  by (induction rule: list_all2_induct) (auto simp: user_as_def)

text \<open>The tickets, given users and customers that are in the session.\<close>

lemma seed_tickets_ok:
  assumes D: "no_faults D" "fresh_ids D n" "length (all_ids (ss_work ss)) + 15 \<le> n"
    and cs: "length cs = 5" "set cs \<subseteq> set (db_customers (ss_work ss))"
    and us: "us_email ` set us = us_seed_email ` set USERS" "set us \<subseteq> set (db_users (ss_work ss))"
  shows "\<exists>ts. seed_tickets D cs (user_keys us) ss = (Inr (), ss\<lparr>ss_work := (ss_work ss)\<lparr>db_tickets := db_tickets (ss_work ss) @ ts\<rparr>\<rparr>)
     \<and> list_all2 (ticket_as us cs) TICKETS ts"
proof -
  let ?link = "\<lambda>s. (s, cu_id (cs ! nat (tk_seed_customer_index s)), Option.bind (tk_seed_assigned_to s) (user_keys us))"
  have found: "\<exists>u \<in> set us. us_email u = email \<and> user_keys us email = Some (us_id u)"
    if "s \<in> set TICKETS" "tk_seed_assigned_to s = Some email" for s email
    using tickets_facts(2) [OF that(1)] that(2) us(1) by (intro user_keys_found) simp
  then have known: "user_keys us email \<noteq> None" if "s \<in> set TICKETS" "tk_seed_assigned_to s = Some email" for s email
    using that by fastforce
  have links: "all_ticket_links cs (user_keys us) TICKETS = Inr (map ?link TICKETS)"
    using tickets_facts(2) known cs(1) by (intro all_ticket_links_ok) simp
  have "cu_id (cs ! nat (tk_seed_customer_index s)) \<in> set (customer_ids (ss_work ss))" if "s \<in> set TICKETS" for s
  proof -
    from tickets_facts(2) [OF that] cs(1) have "cs ! nat (tk_seed_customer_index s) \<in> set cs" by (intro nth_mem) (simp add: nat_less_iff)
    with cs(2) show ?thesis by (auto simp: customer_ids_def)
  qed
  moreover have "fk_opt (Option.bind (tk_seed_assigned_to s) (user_keys us)) (user_ids (ss_work ss))" for s
    using us(2) by (cases "tk_seed_assigned_to s") (auto simp: fk_opt_def user_ids_def dest!: user_keys_Some split: option.splits)
  ultimately have "tickets_ready D n (map ?link TICKETS) (ss_work ss)"
    using D(2,3) tickets_facts by (auto simp: tickets_ready_def)
  from tickets.add_all_ok [OF D(1) this] obtain ts where
    add: "add_all D (seed_ticket D) insert_ticket (map ?link TICKETS) ss
      = (Inr ts, ss\<lparr>ss_work := (ss_work ss)\<lparr>db_tickets := db_tickets (ss_work ss) @ ts\<rparr>\<rparr>)"
    and ts: "list_all2 (\<lambda>l t. \<exists>d. t = seed_ticket D l d) (map ?link TICKETS) ts" by auto
  have "list_all2 (ticket_as us cs) TICKETS ts"
    using ts unfolding list_all2_map1
  proof (rule list.rel_mono_strong)
    fix s t
    assume "s \<in> set TICKETS" "\<exists>d. t = seed_ticket D (?link s) d"
    then show "ticket_as us cs s t"
      using found [of s] by (cases "tk_seed_assigned_to s") (auto simp: ticket_as_def seed_ticket_def)
  qed
  with add links show ?thesis by (auto simp: seed_tickets_def lift_sum_def bind_def)
qed

lemma seed_accounts_ok:
  assumes D: "no_faults D" "fresh_ids D n" "length (all_ids (ss_work ss)) + 24 \<le> n"
    and fresh: "us_seed_email ` set USERS \<inter> us_email ` set (db_users (ss_work ss)) = {}"
  shows "\<exists>us cs ts. seed_accounts A D False ss = (Inr (), ss\<lparr>ss_work := (ss_work ss)\<lparr>db_users := db_users (ss_work ss) @ us,
        db_customers := db_customers (ss_work ss) @ cs, db_tickets := db_tickets (ss_work ss) @ ts\<rparr>\<rparr>)
     \<and> list_all2 (user_as A) USERS us \<and> list_all2 customer_as CUSTOMERS cs \<and> list_all2 (ticket_as us cs) TICKETS ts"
proof -
  let ?w = "ss_work ss"
  have "users_ready D n USERS ?w" using D fresh users_facts by (auto simp: users_ready_def)
  from users.add_all_ok [OF D(1) this] obtain us where
    u: "add_all D (seed_user A D) insert_user USERS ss = (Inr us, ss\<lparr>ss_work := ?w\<lparr>db_users := db_users ?w @ us\<rparr>\<rparr>)"
    and us: "list_all2 (user_as A) USERS us" using made_users by blast
  define s1 where "s1 = ss\<lparr>ss_work := ?w\<lparr>db_users := db_users ?w @ us\<rparr>\<rparr>"
  have len: "length us = 4" using us users_facts(2) by (simp add: list_all2_lengthD)
  have "customers_ready D n CUSTOMERS (ss_work s1)"
    using D customers_facts len by (auto simp: customers_ready_def s1_def all_ids_def id_lists)
  from customers.add_all_ok [OF D(1) this] obtain cs where
    c: "add_all D (seed_customer D) insert_customer CUSTOMERS s1
      = (Inr cs, s1\<lparr>ss_work := (ss_work s1)\<lparr>db_customers := db_customers (ss_work s1) @ cs\<rparr>\<rparr>)"
    and cs: "list_all2 customer_as CUSTOMERS cs" using made_customers by blast
  define s2 where "s2 = s1\<lparr>ss_work := (ss_work s1)\<lparr>db_customers := db_customers (ss_work s1) @ cs\<rparr>\<rparr>"
  have clen: "length cs = 5" using cs customers_facts(1) by (simp add: list_all2_lengthD)
  have "\<exists>ts. seed_tickets D cs (user_keys us) s2 = (Inr (), s2\<lparr>ss_work := (ss_work s2)\<lparr>db_tickets := db_tickets (ss_work s2) @ ts\<rparr>\<rparr>)
     \<and> list_all2 (ticket_as us cs) TICKETS ts"
    using D len clen emails_of [OF us]
    by (intro seed_tickets_ok) (auto simp: s1_def s2_def all_ids_def id_lists)
  then obtain ts where t: "seed_tickets D cs (user_keys us) s2
      = (Inr (), s2\<lparr>ss_work := (ss_work s2)\<lparr>db_tickets := db_tickets (ss_work s2) @ ts\<rparr>\<rparr>)"
    and ts: "list_all2 (ticket_as us cs) TICKETS ts" by blast
  from u c t have "seed_accounts A D False ss = (Inr (), s2\<lparr>ss_work := (ss_work s2)\<lparr>db_tickets := db_tickets (ss_work s2) @ ts\<rparr>\<rparr>)"
    by (simp add: seed_accounts_def seed_users_def seed_customers_def bind_def s1_def s2_def user_keys_def)
  with us cs ts show ?thesis by (auto simp: s1_def s2_def)
qed

lemma seed_knowledge_ok:
  assumes D: "no_faults D" "fresh_ids D n" "length (all_ids (ss_work ss)) + 11 \<le> n"
  shows "\<exists>as. seed_knowledge D False ss = (Inr (), ss\<lparr>ss_work := (ss_work ss)\<lparr>db_articles := db_articles (ss_work ss) @ as\<rparr>\<rparr>)
     \<and> list_all2 article_as KNOWLEDGE_ARTICLES as"
proof -
  have "articles_ready D n KNOWLEDGE_ARTICLES (ss_work ss)" using D articles_facts by (auto simp: articles_ready_def)
  from articles.add_all_ok [OF D(1) this] obtain as where
    "add_all D (seed_article D) insert_article KNOWLEDGE_ARTICLES ss
      = (Inr as, ss\<lparr>ss_work := (ss_work ss)\<lparr>db_articles := db_articles (ss_work ss) @ as\<rparr>\<rparr>)"
    and "list_all2 article_as KNOWLEDGE_ARTICLES as" using made_articles by blast
  then show ?thesis by (auto simp: seed_knowledge_def seed_knowledge_articles_def bind_def)
qed

subsection \<open>A run of the script\<close>

text \<open>Everything before the commit, and the run as the commit of what it leaves in the session.\<close>

definition seed_body :: "auth_libs \<Rightarrow> db_env \<Rightarrow> unit session" where
  "seed_body A D = bind (already_seeded D) (\<lambda>seeded. bind (seed_accounts A D seeded)
     (\<lambda>_. bind (knowledge_articles_already_seeded D) (\<lambda>k. seed_knowledge D k)))"

lemma seed_eq:
  "seed S A D allow db =
     (if environment S = ''production'' \<and> allow \<in> {None, Some []} then (Inl system_exit, db)
      else with_session (rolled_back D (bind (seed_body A D) (\<lambda>_. db_commit D))) db)"
  by (auto simp: seed_def seed_body_def bind_assoc)

definition saved_fixed :: "session_state \<Rightarrow> session_state \<Rightarrow> bool" where
  "saved_fixed ss ss' \<longleftrightarrow> ss_saved ss' = ss_saved ss"

lemma saved_refl_trans [simp, step_rules]: "reflp saved_fixed" "transp saved_fixed"
  by (simp_all add: saved_fixed_def reflp_def transp_def)

lemma saved_add_all [step_rules]: "steps saved_fixed (add_all D mk ins specs)"
  by (auto simp: steps_def saved_fixed_def add_all_def split: option.splits sum.splits)

lemma saved_select [step_rules]: "steps saved_fixed (db_select D q)"
  by (auto simp: steps_def saved_fixed_def db_select_def split: option.splits)

lemma saved_lift [step_rules]: "steps saved_fixed (lift_sum x)"
  by (auto simp: steps_def saved_fixed_def lift_sum_def split: sum.splits)

lemma saved_user_by_email [step_rules]: "steps saved_fixed (user_by_email D email)"
  unfolding user_by_email_def
  by (auto intro!: step_rules split: list.split)

lemma seed_body_saved: "steps saved_fixed (seed_body A D)"
  unfolding seed_body_def already_seeded_def seed_accounts_def seed_knowledge_def seed_users_def seed_customers_def
    seed_tickets_def seed_knowledge_articles_def knowledge_articles_already_seeded_def
  by (auto intro!: step_rules)

text \<open>What is committed: nothing when a run raises, the work of its body when it returns.\<close>

lemma seed_cases:
  assumes "seed S A D allow db = (r, db')"
  shows "((\<exists>e. r = Inl e) \<and> db' = db)
    \<or> (r = Inr () \<and> (\<exists>ss. seed_body A D \<lparr>ss_work = db, ss_saved = db\<rparr> = (Inr (), ss) \<and> db' = ss_work ss))"
proof -
  let ?s = "\<lparr>ss_work = db, ss_saved = db\<rparr>"
  obtain x ss where b: "seed_body A D ?s = (x, ss)" by fastforce
  then have "ss_saved ss = db" using stepsD [OF seed_body_saved b] by (simp add: saved_fixed_def)
  with b assms show ?thesis
    by (cases x) (auto simp: seed_eq with_session_def rolled_back_def catch_def bind_def db_rollback_def db_commit_def
        split: if_splits option.splits)
qed

definition seeded_db :: "database \<Rightarrow> bool" where
  "seeded_db db \<longleftrightarrow> ADMIN_EMAIL \<in> us_email ` set (db_users db) \<and> db_articles db \<noteq> []"

lemma seed_noop:
  assumes "seeded_db db"
  shows "snd (seed S A D allow db) = db"
proof -
  obtain r db' where r: "seed S A D allow db = (r, db')" by fastforce
  have no_user: "(case filter (\<lambda>u. us_email u = ADMIN_EMAIL) (db_users db) of [] \<Rightarrow> ret None | [u] \<Rightarrow> ret (Some u)
      | _ \<Rightarrow> raise multiple_results) ss \<noteq> (Inr None, ss')" for ss ss' :: session_state
    using assms by (auto simp: seeded_db_def filter_empty_conv split: list.split)
  have art: "take 1 (db_articles db) \<noteq> []" using assms by (simp add: seeded_db_def)
  from seed_cases [OF r] have "db' = db"
  proof
    assume "r = Inr () \<and> (\<exists>ss. seed_body A D \<lparr>ss_work = db, ss_saved = db\<rparr> = (Inr (), ss) \<and> db' = ss_work ss)"
    then obtain ss where b: "seed_body A D \<lparr>ss_work = db, ss_saved = db\<rparr> = (Inr (), ss)" "db' = ss_work ss" by blast
    have "user_by_email D ADMIN_EMAIL \<lparr>ss_work = db, ss_saved = db\<rparr> \<noteq> (Inr None, ss')" for ss'
      using no_user by (auto simp: user_by_email_def bind_def db_select_def split: option.splits)
    moreover have "ss' = \<lparr>ss_work = db, ss_saved = db\<rparr>" if "user_by_email D ADMIN_EMAIL \<lparr>ss_work = db, ss_saved = db\<rparr> = (x, ss')" for x ss'
      using that by (auto simp: user_by_email_def bind_def db_select_def split: option.splits list.splits)
    ultimately show "db' = db" using b art
      by (auto simp: seed_body_def already_seeded_def bind_def seed_accounts_def seed_knowledge_def db_select_def
          knowledge_articles_already_seeded_def split: prod.splits sum.splits option.splits if_splits)
  qed blast
  with r show ?thesis by simp
qed

lemma admin_seeded: "ADMIN_EMAIL \<in> us_seed_email ` set USERS"
  by (simp add: USERS_def)

text \<open>What the two parts add, whatever fails.\<close>

lemma lift_sum_eq: "lift_sum x s = (Inr a, s') \<longleftrightarrow> x = Inr a \<and> s' = s"
  by (cases x) (auto simp: lift_sum_def)

lemma seed_accounts_only:
  assumes "seed_accounts A D False ss = (Inr (), ss')"
  shows "\<exists>us cs ts. ss' = ss\<lparr>ss_work := (ss_work ss)\<lparr>db_users := db_users (ss_work ss) @ us,
        db_customers := db_customers (ss_work ss) @ cs, db_tickets := db_tickets (ss_work ss) @ ts\<rparr>\<rparr>
     \<and> list_all2 (user_as A) USERS us \<and> list_all2 customer_as CUSTOMERS cs \<and> map tk_subject ts = map tk_seed_subject TICKETS"
proof -
  from assms obtain us s1 cs s2 ls ts s3 where
    u: "add_all D (seed_user A D) insert_user USERS ss = (Inr us, s1)"
    and c: "add_all D (seed_customer D) insert_customer CUSTOMERS s1 = (Inr cs, s2)"
    and l: "all_ticket_links cs (user_keys us) TICKETS = Inr ls"
    and t: "add_all D (seed_ticket D) insert_ticket ls s2 = (Inr ts, s3)" and s3: "ss' = s3"
    by (auto simp: seed_accounts_def seed_users_def seed_customers_def seed_tickets_def bind_eq_Inr_iff lift_sum_eq user_keys_def)
  have fst: "all_ticket_links cs m specs = Inr ls' \<Longrightarrow> map fst ls' = specs" for m specs ls'
    by (induction specs arbitrary: ls') (auto simp: ticket_links_def split: sum.splits if_splits)
  from tickets.add_all_only [OF t] have "list_all2 (\<lambda>l t. tk_subject t = tk_seed_subject (fst l)) ls ts"
    by (auto elim!: list_all2_mono simp: seed_ticket_def split: prod.splits)
  then have "map tk_subject ts = map (tk_seed_subject \<circ> fst) ls" by (induction rule: list_all2_induct) auto
  then have "map tk_subject ts = map tk_seed_subject TICKETS" using fst [OF l] by (metis map_map)
  moreover have "list_all2 (user_as A) USERS us" "list_all2 customer_as CUSTOMERS cs"
    using users.add_all_only [OF u] customers.add_all_only [OF c] made_users made_customers by blast+
  moreover have "ss' = ss\<lparr>ss_work := (ss_work ss)\<lparr>db_users := db_users (ss_work ss) @ us,
        db_customers := db_customers (ss_work ss) @ cs, db_tickets := db_tickets (ss_work ss) @ ts\<rparr>\<rparr>"
    using users.add_all_only [OF u] customers.add_all_only [OF c] tickets.add_all_only [OF t] s3 by simp
  ultimately show ?thesis by blast
qed

lemma seed_knowledge_only:
  assumes "seed_knowledge D False ss = (Inr (), ss')"
  shows "\<exists>as. ss' = ss\<lparr>ss_work := (ss_work ss)\<lparr>db_articles := db_articles (ss_work ss) @ as\<rparr>\<rparr>
     \<and> list_all2 article_as KNOWLEDGE_ARTICLES as"
proof -
  from assms obtain as where "add_all D (seed_article D) insert_article KNOWLEDGE_ARTICLES ss = (Inr as, ss')"
    by (auto simp: seed_knowledge_def seed_knowledge_articles_def bind_eq_Inr_iff)
  from articles.add_all_only [OF this] made_articles show ?thesis by blast
qed

lemma seed_body_only:
  assumes "seed_body A D ss = (Inr (), ss')"
  shows "\<exists>us cs ts as. ss_work ss' = (ss_work ss)\<lparr>db_users := db_users (ss_work ss) @ us,
        db_customers := db_customers (ss_work ss) @ cs, db_tickets := db_tickets (ss_work ss) @ ts,
        db_articles := db_articles (ss_work ss) @ as\<rparr>
     \<and> (us = [] \<and> cs = [] \<and> ts = [] \<and> ADMIN_EMAIL \<in> us_email ` set (db_users (ss_work ss))
        \<or> list_all2 (user_as A) USERS us \<and> list_all2 customer_as CUSTOMERS cs \<and> map tk_subject ts = map tk_seed_subject TICKETS)
     \<and> (as = [] \<and> db_articles (ss_work ss) \<noteq> [] \<or> list_all2 article_as KNOWLEDGE_ARTICLES as)"
proof -
  from assms obtain x s1 y s2 k s3 where
    x: "user_by_email D ADMIN_EMAIL ss = (Inr x, s1)" and y: "seed_accounts A D (x \<noteq> None) s1 = (Inr (), s2)"
    and k: "db_select D (\<lambda>db. take 1 (db_articles db)) s2 = (Inr k, s3)" and z: "seed_knowledge D (k \<noteq> []) s3 = (Inr (), ss')"
    by (auto simp: seed_body_def already_seeded_def knowledge_articles_already_seeded_def bind_eq_Inr_iff)
  have s1: "s1 = ss" and admin: "x \<noteq> None \<Longrightarrow> ADMIN_EMAIL \<in> us_email ` set (db_users (ss_work ss))"
    using x by (auto simp: user_by_email_def bind_eq_Inr_iff db_select_def filter_eq_Cons_iff split: option.splits list.splits)
  have s3: "s3 = s2" and art: "k \<noteq> [] \<Longrightarrow> db_articles (ss_work s2) \<noteq> []"
    using k by (auto simp: db_select_def split: option.splits)
  obtain us cs ts where a: "ss_work s2 = (ss_work ss)\<lparr>db_users := db_users (ss_work ss) @ us,
        db_customers := db_customers (ss_work ss) @ cs, db_tickets := db_tickets (ss_work ss) @ ts\<rparr>"
    and acc: "us = [] \<and> cs = [] \<and> ts = [] \<and> ADMIN_EMAIL \<in> us_email ` set (db_users (ss_work ss))
        \<or> list_all2 (user_as A) USERS us \<and> list_all2 customer_as CUSTOMERS cs \<and> map tk_subject ts = map tk_seed_subject TICKETS"
  proof (cases "x = None")
    case True
    with y seed_accounts_only [of A D s1 s2] s1 show thesis by (fastforce intro: that)
  next
    case False
    with y s1 admin show thesis by (intro that [of "[]" "[]" "[]"]) (simp_all add: seed_accounts_def)
  qed
  obtain as where "ss_work ss' = (ss_work s2)\<lparr>db_articles := db_articles (ss_work s2) @ as\<rparr>"
    and "as = [] \<and> db_articles (ss_work s2) \<noteq> [] \<or> list_all2 article_as KNOWLEDGE_ARTICLES as"
  proof (cases "k = []")
    case True
    with z seed_knowledge_only [of D s3 ss'] s3 show thesis by (fastforce intro: that)
  next
    case False
    with z s3 art show thesis by (intro that [of "[]"]) (simp_all add: seed_knowledge_def)
  qed
  with a acc show ?thesis
    by (intro exI [of _ us] exI [of _ cs] exI [of _ ts] exI [of _ as]) simp
qed

text \<open>C22: seeding is one transaction and idempotent. A run that raises, for whatever reason, leaves the
  database as it was. A run that returns adds either no account or all the users, customers and tickets,
  and either no article or all of them, to the end of their tables, and touches nothing else, so
  that agent runs, approval requests and audit events stay empty; and any later run, in whatever
  circumstances, changes nothing.\<close>

theorem seed_is_atomic_and_idempotent:
  assumes "seed S A D allow db = (r, db')"
  shows "case r of Inl e \<Rightarrow> db' = db
    | Inr _ \<Rightarrow> (\<exists>us cs ts as. db' = db\<lparr>db_users := db_users db @ us, db_customers := db_customers db @ cs,
            db_tickets := db_tickets db @ ts, db_articles := db_articles db @ as\<rparr>
          \<and> (us = [] \<and> cs = [] \<and> ts = [] \<or> list_all2 (user_as A) USERS us \<and> list_all2 customer_as CUSTOMERS cs
               \<and> map tk_subject ts = map tk_seed_subject TICKETS)
          \<and> (as = [] \<or> list_all2 article_as KNOWLEDGE_ARTICLES as))
        \<and> (\<forall>S' A' D' allow'. snd (seed S' A' D' allow' db') = db')"
  using seed_cases [OF assms]
proof
  assume "(\<exists>e. r = Inl e) \<and> db' = db"
  then show ?thesis by auto
next
  assume "r = Inr () \<and> (\<exists>ss. seed_body A D \<lparr>ss_work = db, ss_saved = db\<rparr> = (Inr (), ss) \<and> db' = ss_work ss)"
  then obtain ss where r: "r = Inr ()" and b: "seed_body A D \<lparr>ss_work = db, ss_saved = db\<rparr> = (Inr (), ss)" and ss: "db' = ss_work ss"
    by blast
  from seed_body_only [OF b] obtain us cs ts as where
    "ss_work ss = db\<lparr>db_users := db_users db @ us, db_customers := db_customers db @ cs,
            db_tickets := db_tickets db @ ts, db_articles := db_articles db @ as\<rparr>"
    and u: "us = [] \<and> cs = [] \<and> ts = [] \<and> ADMIN_EMAIL \<in> us_email ` set (db_users db)
        \<or> list_all2 (user_as A) USERS us \<and> list_all2 customer_as CUSTOMERS cs \<and> map tk_subject ts = map tk_seed_subject TICKETS"
    and a: "as = [] \<and> db_articles db \<noteq> [] \<or> list_all2 article_as KNOWLEDGE_ARTICLES as"
    unfolding session_state.simps by blast
  with ss have d: "db' = db\<lparr>db_users := db_users db @ us, db_customers := db_customers db @ cs,
            db_tickets := db_tickets db @ ts, db_articles := db_articles db @ as\<rparr>" by simp
  have "ADMIN_EMAIL \<in> us_email ` set (db_users db')"
    using u admin_seeded emails_of [of A USERS us] d by auto
  moreover have "db_articles db' \<noteq> []" using a articles_facts(1) d by (auto dest: list_all2_lengthD)
  ultimately have "snd (seed S' A' D' allow' db') = db'" for S' A' D' allow'
    by (intro seed_noop) (simp add: seeded_db_def)
  with d u a show ?thesis unfolding r sum.case by blast
qed

lemma insert_all_keeps:
  assumes "\<And>r db db'. I db \<Longrightarrow> ins r db = Inr db' \<Longrightarrow> I db'"
  shows "I db \<Longrightarrow> insert_all mk ins specs db = Inr (rows, db') \<Longrightarrow> I db'"
proof (induction specs arbitrary: db rows)
  case (Cons s ss)
  from Cons.prems(2) obtain db1 rs where "ins (mk s db) db = Inr db1" "insert_all mk ins ss db1 = Inr (rs, db')"
    by (auto split: sum.splits)
  with assms [OF Cons.prems(1)] show ?case using Cons.IH by blast
qed simp

lemma keeps_add_all [step_rules]:
  "(\<And>r db db'. I db \<Longrightarrow> ins r db = Inr db' \<Longrightarrow> I db') \<Longrightarrow> steps (ss_rel (keeps I)) (add_all D mk ins specs)"
  using insert_all_keeps [of I ins]
  by (fastforce simp: steps_def ss_rel_def keeps_def add_all_def split: option.splits sum.splits)

lemma keeps_lift [step_rules]: "reflp R \<Longrightarrow> steps R (lift_sum x)"
  by (auto simp: steps_def lift_sum_def reflp_def split: sum.splits)

lemma keeps_user_by_email [step_rules]: "steps (ss_rel R) (user_by_email D email)"
  unfolding user_by_email_def
  by (auto intro!: step_rules split: list.split)

lemma seed_body_wf: "steps (ss_rel (keeps db_wf)) (seed_body A D)"
  unfolding seed_body_def already_seeded_def seed_accounts_def seed_knowledge_def seed_users_def seed_customers_def
    seed_tickets_def seed_knowledge_articles_def knowledge_articles_already_seeded_def
  by (auto intro!: step_rules intro: insert_user_wf insert_customer_wf insert_ticket_wf insert_article_wf)

subsection \<open>Seeding a database without the accounts\<close>

lemma category_articles: "list_all2 article_as KNOWLEDGE_ARTICLES as \<Longrightarrow> \<exists>a \<in> set as. ka_category a = ticket_category_value c"
proof -
  assume as: "list_all2 article_as KNOWLEDGE_ARTICLES as"
  have "ka_category ` set as = ka_seed_category ` set specs" if "list_all2 article_as specs as" for specs
    using that by (induction rule: list_all2_induct) (auto simp: article_as_def)
  with as articles_facts(3) have "ka_category ` set as = {''billing'', ''technical'', ''account'', ''general''}" by simp
  moreover have "ticket_category_value c \<in> {''billing'', ''technical'', ''account'', ''general''}" by (cases c) simp_all
  ultimately show ?thesis by (metis imageE)
qed

lemma all_ids_length:
  "length (all_ids (db\<lparr>db_users := us, db_customers := cs, db_tickets := ts\<rparr>)) =
     length us + length cs + length ts + length (db_articles db)"
  by (simp add: all_ids_def id_lists)

lemma seeded_answer:
  assumes "list_all2 article_as KNOWLEDGE_ARTICLES as" and "db_articles db = as"
  shows "\<exists>found. found \<noteq> [] \<and> set found \<subseteq> {a \<in> set as. ka_category a = ticket_category_value c}
    \<and> kb_answer D db (ticket_category_value c) query = render_articles found"
proof -
  let ?found = "rank_by_keyword_overlap (kb_candidates D db (ticket_category_value c)) query MAX_RESULTS"
  from category_articles [OF assms(1)] have "kb_candidates D db (ticket_category_value c) \<noteq> []"
    using assms(2) by (auto simp: kb_candidates_def filter_empty_conv)
  then have "sorted_reverse f (kb_candidates D db (ticket_category_value c)) \<noteq> []" for f
    using sorted_reverse_set by (metis set_empty)
  then have "?found \<noteq> []" unfolding rank_eq_stable_sort by (simp add: MAX_RESULTS_def)
  moreover have "set ?found \<subseteq> {a \<in> set as. ka_category a = ticket_category_value c}"
    using rank_set assms(2) by (fastforce simp: kb_candidates_def)
  ultimately show ?thesis by (intro exI [of _ ?found]) (auto simp: kb_answer_def split: list.split)
qed

lemma seed_populates_aux:
  assumes "no_faults D" and "db_wf db" and "fresh_ids D n" and "length (all_ids db) + 35 \<le> n"
    and "us_seed_email ` set USERS \<inter> us_email ` set (db_users db) = {}" and "db_articles db = []"
    and "environment S \<noteq> ''production'' \<or> allow = Some ''1''"
  shows "\<exists>us cs ts as db'. seed S A D allow db = (Inr (), db')
    \<and> db' = db\<lparr>db_users := db_users db @ us, db_customers := db_customers db @ cs,
            db_tickets := db_tickets db @ ts, db_articles := as\<rparr> \<and> db_wf db'
    \<and> list_all2 (user_as A) USERS us \<and> list_all2 customer_as CUSTOMERS cs \<and> list_all2 (ticket_as us cs) TICKETS ts
    \<and> list_all2 article_as KNOWLEDGE_ARTICLES as
    \<and> (\<forall>c query D'. \<exists>found. found \<noteq> [] \<and> set found \<subseteq> {a \<in> set as. ka_category a = ticket_category_value c}
         \<and> kb_answer D' db' (ticket_category_value c) query = render_articles found)"
proof -
  let ?s = "\<lparr>ss_work = db, ss_saved = db\<rparr>"
  have "ADMIN_EMAIL \<notin> us_email ` set (db_users db)" using assms(5) admin_seeded by blast
  then have "filter (\<lambda>u. us_email u = ADMIN_EMAIL) (db_users db) = []" by (force simp: filter_empty_conv)
  then have read: "already_seeded D ?s = (Inr False, ?s)"
    using assms(1) by (simp add: already_seeded_def user_by_email_def bind_def db_select_def no_faults_def)
  obtain us cs ts where a: "seed_accounts A D False ?s = (Inr (), ?s\<lparr>ss_work := db\<lparr>db_users := db_users db @ us,
        db_customers := db_customers db @ cs, db_tickets := db_tickets db @ ts\<rparr>\<rparr>)"
    and rows: "list_all2 (user_as A) USERS us" "list_all2 customer_as CUSTOMERS cs" "list_all2 (ticket_as us cs) TICKETS ts"
    using seed_accounts_ok [OF assms(1,3), of ?s A] assms(4,5) by auto
  define s2 where "s2 = ?s\<lparr>ss_work := db\<lparr>db_users := db_users db @ us,
        db_customers := db_customers db @ cs, db_tickets := db_tickets db @ ts\<rparr>\<rparr>"
  have "length us = 4" "length cs = 5" "length ts = 15"
    using rows users_facts(2) customers_facts(1) tickets_facts(1) by (auto dest: list_all2_lengthD)
  then have "length (all_ids (ss_work s2)) + 11 \<le> n"
    using assms(4) by (simp add: s2_def all_ids_length) (simp add: all_ids_def id_lists)
  from seed_knowledge_ok [OF assms(1,3) this] obtain as where
    k: "seed_knowledge D False s2 = (Inr (), s2\<lparr>ss_work := (ss_work s2)\<lparr>db_articles := as\<rparr>\<rparr>)"
    and as: "list_all2 article_as KNOWLEDGE_ARTICLES as" using assms(6) by (auto simp: s2_def)
  have "knowledge_articles_already_seeded D s2 = (Inr False, s2)"
    using assms(1,6) by (simp add: knowledge_articles_already_seeded_def bind_def db_select_def no_faults_def s2_def)
  with read a k have body: "seed_body A D ?s = (Inr (), s2\<lparr>ss_work := (ss_work s2)\<lparr>db_articles := as\<rparr>\<rparr>)"
    by (simp add: seed_body_def bind_def s2_def)
  have "db_wf (ss_work (s2\<lparr>ss_work := (ss_work s2)\<lparr>db_articles := as\<rparr>\<rparr>))"
    using stepsD [OF seed_body_wf body] assms(2) by (auto simp: ss_rel_def keeps_def s2_def)
  moreover have "seed S A D allow db = (Inr (), db\<lparr>db_users := db_users db @ us, db_customers := db_customers db @ cs,
            db_tickets := db_tickets db @ ts, db_articles := as\<rparr>)"
    using body assms(1,7) by (auto simp: seed_eq with_session_def rolled_back_def catch_def bind_def db_commit_def no_faults_def s2_def)
  ultimately show ?thesis using rows as seeded_answer [OF as]
    by - (rule exI [of _ us], rule exI [of _ cs], rule exI [of _ ts], rule exI [of _ as],
      rule exI [of _ "db\<lparr>db_users := db_users db @ us, db_customers := db_customers db @ cs,
        db_tickets := db_tickets db @ ts, db_articles := as\<rparr>"], simp add: s2_def)
qed

text \<open>C16: a fresh installation. When none of the seed accounts exists and there are no articles, and the run
  is not refused in production, seeding succeeds and adds exactly the users, with their roles and the
  hashes of their passwords, the customers, the tickets, each of the customer of its index and
  assigned to the user of its e-mail, and the articles. The constraints of the schema hold, and
  whatever a ticket says and however it is classified, the specialist's search of the knowledge base
  finds an article of its category.\<close>

theorem seed_populates:
  assumes "no_faults D" and "db_wf db" and "fresh_ids D n" and "length (all_ids db) + 35 \<le> n"
    and "us_seed_email ` set USERS \<inter> us_email ` set (db_users db) = {}" and "db_articles db = []"
    and "environment S \<noteq> ''production'' \<or> allow = Some ''1''"
  shows "\<exists>us cs ts as db'. seed S A D allow db = (Inr (), db')
    \<and> db' = db\<lparr>db_users := db_users db @ us, db_customers := db_customers db @ cs,
            db_tickets := db_tickets db @ ts, db_articles := as\<rparr> \<and> db_wf db'
    \<and> list_all2 (user_as A) USERS us \<and> list_all2 customer_as CUSTOMERS cs \<and> list_all2 (ticket_as us cs) TICKETS ts
    \<and> list_all2 article_as KNOWLEDGE_ARTICLES as
    \<and> (\<forall>c query D'. \<exists>found. found \<noteq> [] \<and> set found \<subseteq> {a \<in> set as. ka_category a = ticket_category_value c}
         \<and> kb_answer D' db' (ticket_category_value c) query = render_articles found)"
  using assms by (rule seed_populates_aux)

subsection \<open>Two runs at once\<close>

text \<open>The rest of a run that has already read whether the accounts and the articles are there.\<close>

definition late_run :: "auth_libs \<Rightarrow> db_env \<Rightarrow> bool \<Rightarrow> bool \<Rightarrow> (unit, database) comp" where
  "late_run A D seeded articles_seeded =
     with_session (rolled_back D (bind (seed_accounts A D seeded)
       (\<lambda>_. bind (seed_knowledge D articles_seeded) (\<lambda>_. db_commit D))))"

text \<open>C36: two runs at once, the second reading what is there before the first commits and writing after
  it. Without the accounts, the second run fails on the unique e-mail and leaves what the first
  committed. On an installation that has the accounts but no articles yet, nothing stops it: both
  runs succeed and every article is stored twice, although the script says that a race cannot
  produce duplicate rows.\<close>

theorem seed_race:
  assumes "no_faults D" and "fresh_ids D n" and "length (all_ids db) + 22 \<le> n"
  shows "(ADMIN_EMAIL \<in> us_email ` set (db_users db) \<longrightarrow> late_run A D False k db = (Inl integrity_error, db))
    \<and> (db_articles db = [] \<longrightarrow> (\<exists>as as'. late_run A D True False db = (Inr (), db\<lparr>db_articles := as\<rparr>)
         \<and> late_run A D True False (db\<lparr>db_articles := as\<rparr>) = (Inr (), db\<lparr>db_articles := as @ as'\<rparr>)
         \<and> list_all2 article_as KNOWLEDGE_ARTICLES as \<and> list_all2 article_as KNOWLEDGE_ARTICLES as'))"
proof (intro conjI impI)
  let ?s = "\<lparr>ss_work = db, ss_saved = db\<rparr>"
  assume "ADMIN_EMAIL \<in> us_email ` set (db_users db)"
  then have "insert_user (seed_user A D (hd USERS) db) db = Inl integrity_error"
    by (simp add: insert_user_def seed_user_def USERS_def ADMIN_EMAIL_def)
  moreover have "USERS = hd USERS # tl USERS" by (simp add: USERS_def)
  ultimately have "insert_all (seed_user A D) insert_user USERS db = Inl integrity_error"
    by (metis insert_all.simps(2) sum.case(1))
  with assms(1) show "late_run A D False k db = (Inl integrity_error, db)"
    by (simp add: late_run_def with_session_def rolled_back_def catch_def bind_def seed_accounts_def seed_users_def
        add_all_def no_faults_def db_rollback_def)
next
  assume none: "db_articles db = []"
  have run: "\<exists>as. late_run A D True False db1 = (Inr (), db1\<lparr>db_articles := db_articles db1 @ as\<rparr>)
     \<and> list_all2 article_as KNOWLEDGE_ARTICLES as" if len: "length (all_ids db1) + 11 \<le> n" for db1
  proof -
    have "length (all_ids (ss_work \<lparr>ss_work = db1, ss_saved = db1\<rparr>)) + 11 \<le> n" using len by simp
    from seed_knowledge_ok [OF assms(1,2) this] obtain as where
      "seed_knowledge D False \<lparr>ss_work = db1, ss_saved = db1\<rparr>
         = (Inr (), \<lparr>ss_work = db1\<lparr>db_articles := db_articles db1 @ as\<rparr>, ss_saved = db1\<rparr>)"
      "list_all2 article_as KNOWLEDGE_ARTICLES as" by auto
    with assms(1) show ?thesis
      by (intro exI [of _ as]) (simp add: late_run_def with_session_def rolled_back_def catch_def bind_def
          seed_accounts_def db_commit_def no_faults_def)
  qed
  from run [of db] assms(3) none obtain as where
    first: "late_run A D True False db = (Inr (), db\<lparr>db_articles := as\<rparr>)" "list_all2 article_as KNOWLEDGE_ARTICLES as" by auto
  then have "length as = 11" using articles_facts(1) by (auto dest: list_all2_lengthD)
  with none assms(3) have "length (all_ids (db\<lparr>db_articles := as\<rparr>)) + 11 \<le> n" by (simp add: all_ids_def id_lists)
  from run [OF this] first show "\<exists>as as'. late_run A D True False db = (Inr (), db\<lparr>db_articles := as\<rparr>)
         \<and> late_run A D True False (db\<lparr>db_articles := as\<rparr>) = (Inr (), db\<lparr>db_articles := as @ as'\<rparr>)
         \<and> list_all2 article_as KNOWLEDGE_ARTICLES as \<and> list_all2 article_as KNOWLEDGE_ARTICLES as'" by auto
qed

end
