(* ===== verification/Load_Test.thy ===== *)
theory Load_Test
  imports Float_Arith Seed_Facts
begin

section \<open>The load test\<close>

text \<open>
  \<^verbatim>\<open>backend/scripts/load_test.py\<close> with its data in \<^verbatim>\<open>load_test_tickets.py\<close>. The HTTP client is the argument
  \<open>post\<close>, which answers a status code and a latency or fails with a transport error, and the two
  readings of the clock are arguments. The summary is the list of the messages it logs.
\<close>

record load_test_ticket =
  lt_title :: string
  lt_description :: string

definition LOAD_TEST_TICKETS :: "load_test_ticket list" where
  "LOAD_TEST_TICKETS =
    [\<lparr>lt_title = ''Billing issue'', lt_description = ''I was charged twice.''\<rparr>,
     \<lparr>lt_title = ''Password reset'', lt_description = ''Cannot access my account.''\<rparr>,
     \<lparr>lt_title = ''API error'', lt_description = ''Receiving a 500 error.''\<rparr>,
     \<lparr>lt_title = ''Refund request'', lt_description = ''I'd like a refund.''\<rparr>,
     \<lparr>lt_title = ''Login failure'',
      lt_description = ''Getting 'invalid credentials' even after resetting my password.''\<rparr>,
     \<lparr>lt_title = ''Feature request'', lt_description = ''Please add bulk CSV export for tickets.''\<rparr>]"

definition SUPERVISOR_EMAIL :: string where "SUPERVISOR_EMAIL = ''supervisor@supportops.ai''"
definition SUPERVISOR_PASSWORD :: string where "SUPERVISOR_PASSWORD = ''SupervisorPass123!''"
definition KNOWN_TICKET_ID :: string where "KNOWN_TICKET_ID = ''00000000-0000-0000-0000-000000000001''"
definition ENDPOINT_PATH :: string where "ENDPOINT_PATH = ''/supervisor/queue/'' @ KNOWN_TICKET_ID @ ''/reject''"
definition CONCURRENT_REQUESTS :: nat where "CONCURRENT_REQUESTS = 50"

record request_outcome =
  ro_status_code :: "nat option"
  ro_latency_seconds :: "py_float option"
  ro_error :: "string option"

definition is_successful :: "request_outcome \<Rightarrow> bool" where
  "is_successful r = (case ro_status_code r of None \<Rightarrow> False | Some c \<Rightarrow> 200 \<le> c \<and> c < 300)"

definition is_rate_limited :: "request_outcome \<Rightarrow> bool" where
  "is_rate_limited r \<longleftrightarrow> ro_status_code r = Some 429"

definition is_failed :: "request_outcome \<Rightarrow> bool" where
  "is_failed r \<longleftrightarrow> \<not> (is_successful r \<or> is_rate_limited r)"

text \<open>\<open>list(itertools.islice(itertools.cycle(TICKETS), count))\<close>.\<close>

definition ticket_batch :: "nat \<Rightarrow> load_test_ticket list" where
  "ticket_batch n = map (\<lambda>i. LOAD_TEST_TICKETS ! (i mod length LOAD_TEST_TICKETS)) [0..<n]"

definition comment_of :: "load_test_ticket \<Rightarrow> nat \<Rightarrow> string" where
  "comment_of ticket request_number =
     ''['' @ lt_title ticket @ ''] '' @ lt_description ticket @ '' (request #'' @ nat_str request_number @ '')''"

text \<open>What one request gives: the path, the comment and the header it sends, and the client's answer.\<close>

type_synonym http_post = "string \<Rightarrow> string \<Rightarrow> string \<Rightarrow> string + (nat \<times> py_float)"

definition submit_ticket :: "http_post \<Rightarrow> load_test_ticket \<Rightarrow> nat \<Rightarrow> string \<Rightarrow> request_outcome" where
  "submit_ticket post ticket request_number auth_header =
     (case post ENDPOINT_PATH (comment_of ticket request_number) auth_header of
        Inl e \<Rightarrow> \<lparr>ro_status_code = None, ro_latency_seconds = None, ro_error = Some e\<rparr>
      | Inr (status, latency) \<Rightarrow> \<lparr>ro_status_code = Some status, ro_latency_seconds = Some latency, ro_error = None\<rparr>)"

text \<open>\<open>_login\<close> posts the form of the supervisor's credentials; what the client makes of it is the argument
  \<open>form_post\<close>, which answers a status code and the \<open>access_token\<close> of the body or fails with a transport error.
  A refused login ends the process.\<close>

definition load_test_login :: "(string \<Rightarrow> (string \<times> string) list \<Rightarrow> exc + (nat \<times> string)) \<Rightarrow> exc + string" where
  "load_test_login form_post =
     (case form_post ''/auth/login'' [(''username'', SUPERVISOR_EMAIL), (''password'', SUPERVISOR_PASSWORD)] of
        Inl e \<Rightarrow> Inl e
      | Inr (status, token) \<Rightarrow> if status \<noteq> 200 then Inl system_exit else Inr token)"

text \<open>The requests are numbered from 1.\<close>

definition run_load_test :: "exc + string \<Rightarrow> http_post \<Rightarrow> exc + request_outcome list" where
  "run_load_test login_result post =
     (case login_result of Inl e \<Rightarrow> Inl e
      | Inr token \<Rightarrow> Inr (map (\<lambda>(n, t). submit_ticket post t n (''Bearer '' @ token))
          (enumerate 1 (ticket_batch CONCURRENT_REQUESTS))))"

text \<open>The four counts of the summary: all, successful, rate limited, failed.\<close>

definition summary_counts :: "request_outcome list \<Rightarrow> nat \<times> nat \<times> nat \<times> nat" where
  "summary_counts outcomes = (length outcomes, length (filter is_successful outcomes),
     length (filter is_rate_limited outcomes), length (filter is_failed outcomes))"

text \<open>The average, least and greatest latency in milliseconds, and the throughput. \<open>sum\<close>, \<open>min\<close> and \<open>max\<close>
  are only taken of a list that is not empty.\<close>

definition latencies :: "request_outcome list \<Rightarrow> py_float list" where
  "latencies outcomes = List.map_filter ro_latency_seconds outcomes"

definition avg_latency_ms :: "py_float list \<Rightarrow> py_float" where
  "avg_latency_ms ls = (if ls \<noteq> [] then float_scale (float_over (py_sum ls) (length ls)) 1000 else Fin 0)"

definition min_latency_ms :: "py_float list \<Rightarrow> py_float" where
  "min_latency_ms ls = (if ls \<noteq> [] then float_scale (py_min ls) 1000 else Fin 0)"

definition max_latency_ms :: "py_float list \<Rightarrow> py_float" where
  "max_latency_ms ls = (if ls \<noteq> [] then float_scale (py_max ls) 1000 else Fin 0)"

definition throughput :: "request_outcome list \<Rightarrow> py_float \<Rightarrow> py_float" where
  "throughput outcomes total_time =
     (if float_less (Fin 0) total_time then nat_over (length outcomes) total_time else Fin 0)"

definition failed_detail :: "request_outcome \<Rightarrow> string" where
  "failed_detail outcome = ''Failed request detail: status=''
     @ (case ro_status_code outcome of None \<Rightarrow> ''None'' | Some c \<Rightarrow> nat_str c) @ '' error=''
     @ (case ro_error outcome of None \<Rightarrow> ''None'' | Some e \<Rightarrow> e)"

definition print_summary :: "request_outcome list \<Rightarrow> py_float \<Rightarrow> string list" where
  "print_summary outcomes total_time =
     (let (n, successful, rate_limited, failed) = summary_counts outcomes;
          ls = latencies outcomes;
          separator = replicate 50 (CHR ''-'')
      in [separator, ''Load Test Results'', separator,
          ''Concurrent Requests : '' @ nat_str n,
          ''Successful          : '' @ nat_str successful,
          ''Rate Limited (429)  : '' @ nat_str rate_limited,
          ''Failed              : '' @ nat_str failed,
          ''Total Time          : '' @ format_fixed 2 total_time @ '' s'',
          ''Average Latency     : '' @ format_fixed 0 (avg_latency_ms ls) @ '' ms'',
          ''Minimum Latency     : '' @ format_fixed 0 (min_latency_ms ls) @ '' ms'',
          ''Maximum Latency     : '' @ format_fixed 0 (max_latency_ms ls) @ '' ms'',
          ''Throughput          : '' @ format_fixed 1 (throughput outcomes total_time) @ '' req/s'',
          separator]
         @ map failed_detail (filter is_failed outcomes))"

text \<open>\<open>main\<close>: the run between two readings of the clock, then its summary.\<close>

definition load_test_main :: "(string \<Rightarrow> (string \<times> string) list \<Rightarrow> exc + (nat \<times> string)) \<Rightarrow> http_post \<Rightarrow> py_float \<Rightarrow> py_float \<Rightarrow> exc + string list" where
  "load_test_main form_post post start stop =
     (case run_load_test (load_test_login form_post) post of Inl e \<Rightarrow> Inl e
      | Inr outcomes \<Rightarrow> Inr (print_summary outcomes (float_sub stop start)))"

subsection \<open>The summary counts every request once\<close>

lemma length_ticket_batch [simp]: "length (ticket_batch n) = n"
  by (simp add: ticket_batch_def)

lemma one_bucket:
  "\<not> (is_successful r \<and> is_rate_limited r)" "is_failed r \<longleftrightarrow> \<not> is_successful r \<and> \<not> is_rate_limited r"
  by (auto simp: is_successful_def is_rate_limited_def is_failed_def)

lemma buckets:
  "length (filter is_successful rs) + length (filter is_rate_limited rs) + length (filter is_failed rs) = length rs"
  by (induction rs) (use one_bucket in auto)

lemma load_test_counts:
  assumes "run_load_test l post = Inr outcomes"
  shows "\<exists>s r f. summary_counts outcomes = (CONCURRENT_REQUESTS, s, r, f) \<and> s + r + f = CONCURRENT_REQUESTS"
proof -
  have "length outcomes = CONCURRENT_REQUESTS" using assms by (auto simp: run_load_test_def split: sum.splits)
  with buckets [of outcomes] show ?thesis by (simp add: summary_counts_def)
qed

text \<open>The least latency is never above the greatest, whatever the rounding.\<close>

lemma min_below_max:
  assumes "ls = map Fin xs" and "\<forall>x \<in> set xs. 0 \<le> x"
  shows "\<not> float_less (max_latency_ms ls) (min_latency_ms ls)"
proof (cases "xs = []")
  case True
  with assms show ?thesis by (simp add: max_latency_ms_def min_latency_ms_def)
next
  case False
  then have m: "py_min ls = Fin (Min (set xs))" "py_max ls = Fin (Max (set xs))" "ls \<noteq> []"
    using assms(1) py_min_list [of xs] py_max_list [of xs] by simp_all
  have "0 \<le> Min (set xs)" "Min (set xs) \<le> Max (set xs)" using assms(2) False by simp_all
  then show ?thesis using m float_scale_mono [of "Fin (Max (set xs))" "Fin (Min (set xs))"]
    by (simp add: max_latency_ms_def min_latency_ms_def del: float_scale.simps)
qed

text \<open>The details name exactly the requests that are neither served nor throttled.\<close>

lemma print_summary_length:
  "length (print_summary outcomes t) = 13 + length (filter is_failed outcomes)"
  by (simp add: print_summary_def summary_counts_def Let_def)

end
