(* ===== verification/Seed_Witnesses.thy ===== *)
theory Seed_Witnesses
  imports Seed_Facts Samples
begin

section \<open>Witnesses for seeding\<close>

text \<open>Concrete runs of the script, at which the hypotheses of the properties of seeding hold.\<close>

text \<open>A database whose new keys are the smallest numbers that no row has.\<close>

definition seed_env :: db_env where
  "seed_env = sample_db_env\<lparr>d_new_id := (\<lambda>db. hd (filter (\<lambda>i. i \<notin> set (all_ids db))
     (map of_nat [0..<Suc (length (all_ids db))])))\<rparr>"

lemma unused:
  assumes "distinct xs" "length ids < length xs"
  shows "hd (filter (\<lambda>i. i \<notin> set ids) xs) \<notin> set ids"
proof -
  have "card (set ids) < card (set xs)" using assms card_length [of ids] by (simp add: distinct_card)
  then have "\<not> set xs \<subseteq> set ids" using card_mono [of "set ids" "set xs"] by auto
  then have "filter (\<lambda>i. i \<notin> set ids) xs \<noteq> []" by (auto simp: filter_empty_conv)
  then have "hd (filter (\<lambda>i. i \<notin> set ids) xs) \<in> set (filter (\<lambda>i. i \<notin> set ids) xs)" by (rule hd_in_set)
  then show ?thesis by simp
qed

lemma distinct_numbers:
  assumes "n \<le> 2 ^ 128"
  shows "distinct (map (of_nat :: nat \<Rightarrow> uuid) [0..<n])"
proof -
  have "unat (of_nat x :: uuid) = x" if "x \<in> set [0..<n]" for x
  proof -
    have "x < n" using that by simp
    also have "n \<le> 2 ^ LENGTH(128)" using assms by simp
    finally show ?thesis by (rule of_nat_inverse [OF refl])
  qed
  then have "inj_on (of_nat :: nat \<Rightarrow> uuid) (set [0..<n])" by (rule inj_on_inverseI)
  then show ?thesis unfolding distinct_map by (intro conjI distinct_upt)
qed

lemma seed_env_fresh [simp]: "fresh_ids seed_env 1000"
  unfolding fresh_ids_def
proof (intro allI impI)
  fix db
  assume "length (all_ids db) \<le> 1000"
  then have "Suc (length (all_ids db)) \<le> 2 ^ 128" by simp
  then have "distinct (map (of_nat :: nat \<Rightarrow> uuid) [0..<Suc (length (all_ids db))])" by (rule distinct_numbers)
  from unused [OF this, of "all_ids db"] have
    "hd (filter (\<lambda>i. i \<notin> set (all_ids db)) (map of_nat [0..<Suc (length (all_ids db))])) \<notin> set (all_ids db)"
    unfolding length_map length_upt by linarith
  moreover have "d_new_id (D\<lparr>d_new_id := f\<rparr>) = f" for D :: db_env and f by simp
  ultimately show "d_new_id seed_env db \<notin> set (all_ids db)" by (simp only: seed_env_def not_False_eq_True)
qed

lemma seed_env_no_faults [simp]: "no_faults seed_env"
  by (simp add: no_faults_def seed_env_def sample_db_env_def)

definition sample_hash :: auth_libs where
  "sample_hash = \<lparr>pw_hash = (\<lambda>p. ''h:'' @ p), pw_verify = (\<lambda>p h. Inr (h = ''h:'' @ p)),
     jose_encode = (\<lambda>c k a. Inr []), jose_decode = (\<lambda>n t k a. Inl (JWTError [])), pyd_datetime = (\<lambda>v. True)\<rparr>"

lemma empty_facts [simp]: "db_wf empty_db" "all_ids empty_db = []" "db_users empty_db = []" "db_articles empty_db = []"
  "db_customers empty_db = []" "db_tickets empty_db = []"
  by (simp_all add: db_wf_def empty_db_def all_ids_def id_lists)

theorem seed_populates_witness:
  "\<exists>db'. seed default_settings sample_hash seed_env None empty_db = (Inr (), db') \<and> db_wf db'
     \<and> length (db_tickets db') = 15 \<and> map us_email (db_users db') = map us_seed_email USERS"
proof -
  have "environment default_settings \<noteq> ''production''" by (simp add: default_settings_def)
  then obtain us cs ts as db' where s: "seed default_settings sample_hash seed_env None empty_db = (Inr (), db')"
    "db' = empty_db\<lparr>db_users := us, db_customers := cs, db_tickets := ts, db_articles := as\<rparr>" "db_wf db'"
    and u: "list_all2 (user_as sample_hash) USERS us" and t: "list_all2 (ticket_as us cs) TICKETS ts"
    using seed_populates [of seed_env empty_db 1000 default_settings None sample_hash] by (simp del: One_nat_def) blast
  from u have "map us_email us = map us_seed_email USERS" by (induction rule: list_all2_induct) (auto simp: user_as_def)
  moreover from t have "length ts = 15" using tickets_facts(1) by (auto dest: list_all2_lengthD)
  ultimately show ?thesis using s by auto
qed

theorem seed_is_atomic_and_idempotent_witness:
  "\<exists>r db'. seed default_settings sample_hash seed_env None empty_db = (r, db')
     \<and> (r = Inr () \<longrightarrow> snd (seed default_settings sample_hash seed_env None db') = db')"
proof -
  obtain r db' where r: "seed default_settings sample_hash seed_env None empty_db = (r, db')" by fastforce
  from seed_is_atomic_and_idempotent [OF r] r show ?thesis by (cases r) auto
qed

theorem seed_race_witness:
  "\<exists>as as'. late_run sample_hash seed_env True False empty_db = (Inr (), empty_db\<lparr>db_articles := as\<rparr>)
     \<and> late_run sample_hash seed_env True False (empty_db\<lparr>db_articles := as\<rparr>) = (Inr (), empty_db\<lparr>db_articles := as @ as'\<rparr>)
     \<and> length as = 11 \<and> length as' = 11"
proof -
  obtain as as' where "late_run sample_hash seed_env True False empty_db = (Inr (), empty_db\<lparr>db_articles := as\<rparr>)"
    "late_run sample_hash seed_env True False (empty_db\<lparr>db_articles := as\<rparr>) = (Inr (), empty_db\<lparr>db_articles := as @ as'\<rparr>)"
    and a: "list_all2 article_as KNOWLEDGE_ARTICLES as" "list_all2 article_as KNOWLEDGE_ARTICLES as'"
    using conjunct2 [OF seed_race [of seed_env 1000 empty_db sample_hash]] by auto
  moreover have "length as = 11" "length as' = 11" using a articles_facts(1) by (auto dest: list_all2_lengthD)
  ultimately show ?thesis by blast
qed

end
