(* ===== verification/Load_Test_Run.thy ===== *)
theory Load_Test_Run
  imports Load_Test Supervisor_Queue Seed_Witnesses Api_Witnesses
begin

section \<open>The load test against the seeded service\<close>

text \<open>
  The load test, the seed script, the login and the supervisor API together. Each request of the load
  test is served by \<open>reject_ticket\<close>, in an environment of its own (its clock, its statements) and after
  slowapi has decided whether to serve it. What varies between the requests is a function of the
  comment, which carries the number of the request. What FastAPI makes of the \<open>Authorization\<close> header is
  the argument \<open>bearer\<close>; an \<open>HTTPException\<close> is answered with its status code, another exception with 500.
\<close>

subsection \<open>The service that the load test meets\<close>

fun http_status :: "exc + 'a \<Rightarrow> nat" where
  "http_status (Inr a) = 200"
| "http_status (Inl e) = (case e of HTTPException code _ \<Rightarrow> code | _ \<Rightarrow> 500)"

text \<open>The ticket of a path \<open>/supervisor/queue/{ticket_id}/reject\<close>.\<close>

definition rejected_ticket :: "string \<Rightarrow> uuid option" where
  "rejected_ticket path =
     (if take 18 path = ''/supervisor/queue/'' \<and> drop 54 path = ''/reject'' then uuid_parse (take 36 (drop 18 path))
      else None)"

text \<open>FastAPI resolves the dependencies, the bearer token and the role, before slowapi counts the request.\<close>

definition serve_reject ::
  "settings \<Rightarrow> auth_libs \<Rightarrow> (string \<Rightarrow> exc + string) \<Rightarrow> db_env \<Rightarrow> bool \<Rightarrow> string \<Rightarrow> string \<Rightarrow> string
     \<Rightarrow> database \<Rightarrow> nat \<times> database" where
  "serve_reject S A bearer D limited path comment auth_header db =
     (case rejected_ticket path of None \<Rightarrow> (404, db)
      | Some ticket_id \<Rightarrow>
          (case bearer auth_header of Inl e \<Rightarrow> (http_status (Inl e :: exc + unit), db)
           | Inr token \<Rightarrow>
               if limited
               then (case require_role S A D SUPERVISOR_ROLES token db of
                       (Inl e, db') \<Rightarrow> (http_status (Inl e :: exc + unit), db')
                     | (Inr u, db') \<Rightarrow> (429, db'))
               else (case reject_ticket S A D token ticket_id \<lparr>dr_comments = Some comment\<rparr> db of
                       (r, db') \<Rightarrow> (http_status r, db'))))"

text \<open>The two clients of the load test on the tables \<open>db\<close>.\<close>

definition service_login ::
  "settings \<Rightarrow> auth_libs \<Rightarrow> db_env \<Rightarrow> database \<Rightarrow> string \<Rightarrow> (string \<times> string) list \<Rightarrow> exc + (nat \<times> string)" where
  "service_login S A D db path form =
     (case (map_of form ''username'', map_of form ''password'') of
        (Some username, Some password) \<Rightarrow>
          if path \<noteq> ''/auth/login'' then Inr (404, '''')
          else (case login S A D username password db of
                  (Inr t, _) \<Rightarrow> Inr (200, at_access_token t)
                | (Inl e, _) \<Rightarrow> Inr (http_status (Inl e :: exc + unit), ''''))
      | _ \<Rightarrow> Inr (422, ''''))"

definition service_post ::
  "settings \<Rightarrow> auth_libs \<Rightarrow> (string \<Rightarrow> exc + string) \<Rightarrow> (string \<Rightarrow> db_env) \<Rightarrow> (string \<Rightarrow> bool) \<Rightarrow> (string \<Rightarrow> py_float)
     \<Rightarrow> database \<Rightarrow> http_post" where
  "service_post S A bearer env limited latency db path comment auth_header =
     Inr (fst (serve_reject S A bearer (env comment) (limited comment) path comment auth_header db), latency comment)"

subsection \<open>One request\<close>

definition KNOWN_TICKET :: uuid where "KNOWN_TICKET = 1"

lemma rejected_ticket_endpoint: "rejected_ticket ENDPOINT_PATH = Some KNOWN_TICKET"
proof -
  have path: "take 18 ENDPOINT_PATH = ''/supervisor/queue/''" "drop 54 ENDPOINT_PATH = ''/reject''"
    "take 36 (drop 18 ENDPOINT_PATH) = KNOWN_TICKET_ID"
    by (simp_all add: ENDPOINT_PATH_def KNOWN_TICKET_ID_def)
  have "uuid_str 1 = KNOWN_TICKET_ID" by code_simp
  then have "uuid_parse KNOWN_TICKET_ID = Some 1" by (metis uuid_roundtrip)
  with path show ?thesis by (simp add: rejected_ticket_def KNOWN_TICKET_def)
qed

text \<open>A ticket without a request is answered 404, and nothing changes.\<close>

lemma reject_unknown:
  assumes "require_role S A D SUPERVISOR_ROLES token db = (Inr u, db)"
    and "d_fault D DbSelect db = None" and "requests_of db i = []"
  shows "reject_ticket S A D token i decision db = (Inl not_in_queue, db)"
  unfolding endpoint_eqs(2) queue_endpoint_def change_latest_def get_or_404_def
  using assms get_by_ticket_id_eq [of D "\<lparr>ss_work = db, ss_saved = db\<rparr>" i]
  by (simp add: bind_def with_session_def)

text \<open>A token that \<open>create_access_token\<close> made for a supervisor passes the guard for its lifetime.\<close>

lemma supervisor_token_accepted:
  assumes "jwt_laws A" and "create_access_token S A now (us_id u) SUPERVISOR None = Inr token"
    and "db_wf db" and "u \<in> set (db_users db)" and "us_is_active u" and "us_role u = SUPERVISOR"
    and "d_fault D DbSelect db = None"
    and "timegm (d_now D db) \<le> (epoch_us now + token_lifetime S None) div 1000000"
  shows "require_role S A D SUPERVISOR_ROLES token db = (Inr u, db)"
proof -
  have "decode_access_token S A (d_now D db) token = Inr \<lparr>tp_sub = uuid_str (us_id u), tp_role = SUPERVISOR,
         tp_exp = JInt ((epoch_us now + token_lifetime S None) div 1000000)\<rparr>"
    using created_token [OF assms(1,2), of "d_now D db"] assms(8) by simp
  from require_role_of [OF this _ get_user_found [OF assms(3,4,7)], of SUPERVISOR_ROLES] assms(5,6)
  show ?thesis by (simp add: SUPERVISOR_ROLES_def)
qed

text \<open>A request of the load test, when the ticket it names has no pending review: 404, or 429 if it is throttled.\<close>

lemma serve_reject_unknown:
  assumes "require_role S A D SUPERVISOR_ROLES token db = (Inr u, db)"
    and "d_fault D DbSelect db = None" and "requests_of db KNOWN_TICKET = []"
    and "bearer (''Bearer '' @ token) = Inr token"
  shows "serve_reject S A bearer D limited ENDPOINT_PATH comment (''Bearer '' @ token) db
     = (if limited then 429 else 404, db)"
  using assms(1,4) reject_unknown [OF assms(1-3)] unfolding serve_reject_def rejected_ticket_endpoint
  by (simp add: not_in_queue_def)

subsection \<open>The whole run\<close>

definition batch :: "(nat \<times> load_test_ticket) list" where
  "batch = enumerate 1 (ticket_batch CONCURRENT_REQUESTS)"

definition throttled :: "(string \<Rightarrow> bool) \<Rightarrow> nat" where
  "throttled limited = length (filter (\<lambda>x. limited (comment_of (snd x) (fst x))) batch)"

definition served :: "(string \<Rightarrow> bool) \<Rightarrow> (string \<Rightarrow> py_float) \<Rightarrow> string \<Rightarrow> request_outcome" where
  "served limited latency c =
     \<lparr>ro_status_code = Some (if limited c then 429 else 404), ro_latency_seconds = Some (latency c), ro_error = None\<rparr>"

lemma run_of_served:
  assumes "load_test_login form_post = Inr token"
    and "\<And>c. post ENDPOINT_PATH c (''Bearer '' @ token) = Inr (if limited c then 429 else 404, latency c)"
  shows "run_load_test (load_test_login form_post) post
     = Inr (map (\<lambda>(n, t). served limited latency (comment_of t n)) batch)"
  using assms by (simp add: run_load_test_def batch_def submit_ticket_def served_def case_prod_beta)

lemma counts_of_served:
  "summary_counts (map (\<lambda>(n, t). served limited latency (comment_of t n)) batch)
     = (CONCURRENT_REQUESTS, 0, throttled limited, CONCURRENT_REQUESTS - throttled limited)"
proof -
  let ?q = "\<lambda>x. limited (comment_of (snd x) (fst x))"
  have "length batch = CONCURRENT_REQUESTS" by (simp add: batch_def)
  with sum_length_filter_compl [of ?q batch] show ?thesis
    by (simp add: summary_counts_def throttled_def served_def filter_map o_def is_successful_def is_rate_limited_def
        is_failed_def case_prod_beta filter_empty_conv)
qed

subsection \<open>After seeding a fresh installation\<close>

lemma supervisor_seeded:
  "\<exists>s \<in> set USERS. us_seed_email s = SUPERVISOR_EMAIL \<and> us_seed_password s = SUPERVISOR_PASSWORD \<and> us_seed_role s = SUPERVISOR"
  by (simp add: USERS_def SUPERVISOR_EMAIL_def SUPERVISOR_PASSWORD_def)

text \<open>The seed script stores an active supervisor with the credentials of the load test, and no review.\<close>

lemma seeded_supervisor:
  assumes "no_faults D" and "db_wf db" and "fresh_ids D n" and "length (all_ids db) + 35 \<le> n"
    and "us_seed_email ` set USERS \<inter> us_email ` set (db_users db) = {}" and "db_articles db = []"
    and "environment S \<noteq> ''production''"
  obtains db' u where "seed S A D allow db = (Inr (), db')" "db_wf db'" "requests_of db' i = requests_of db i"
    "u \<in> set (db_users db')" "us_email u = SUPERVISOR_EMAIL" "us_role u = SUPERVISOR" "us_is_active u"
    "us_password_hash u = hash_password A SUPERVISOR_PASSWORD"
proof -
  obtain us cs ts as db' where s: "seed S A D allow db = (Inr (), db')" and wf: "db_wf db'"
    and db': "db' = db\<lparr>db_users := db_users db @ us, db_customers := db_customers db @ cs,
            db_tickets := db_tickets db @ ts, db_articles := as\<rparr>"
    and us: "list_all2 (user_as A) USERS us"
    using seed_populates_aux [OF assms(1-6), of S allow A] assms(7) by blast
  from supervisor_seeded us obtain u where u: "u \<in> set us" "us_email u = SUPERVISOR_EMAIL" "us_role u = SUPERVISOR" "us_is_active u"
    "us_password_hash u = hash_password A SUPERVISOR_PASSWORD"
    by (auto simp: list_all2_conv_all_nth in_set_conv_nth user_as_def) metis
  from u(1) db' show thesis by (intro that [OF s wf _ _ u(2-5)]) (simp_all add: requests_of_def)
qed

text \<open>The login makes \<open>token\<close> for \<open>u\<close>, the database answers, and the requests come while the token is valid.\<close>

definition session_of :: "settings \<Rightarrow> auth_libs \<Rightarrow> db_env \<Rightarrow> (string \<Rightarrow> db_env) \<Rightarrow> user_row \<Rightarrow> string \<Rightarrow> database \<Rightarrow> bool" where
  "session_of S A D env u token db \<longleftrightarrow>
     d_fault D DbSelect db = None \<and> create_access_token S A (d_now D db) (us_id u) SUPERVISOR None = Inr token
     \<and> (\<forall>c. d_fault (env c) DbSelect db = None
          \<and> timegm (d_now (env c) db) \<le> (epoch_us (d_now D db) + token_lifetime S None) div 1000000)"

text \<open>C17: the load test against a freshly seeded service. The seed script stores a supervisor with the
  credentials that the load test carries: the login succeeds, and its token passes the guard of the
  decision route for as long as it is valid. No request is served: each is throttled (429) or
  answered 404, since the placeholder ticket has no review, and leaves the tables as they are, so that
  the order of the requests does not matter. The summary therefore has no success: it counts the
  throttled requests, and all the others as failed.\<close>

theorem load_test_on_a_fresh_installation:
  assumes "jwt_laws A" and "\<And>p. pw_verify A p (hash_password A p) = Inr True"
    and "\<And>t. bearer (''Bearer '' @ t) = Inr t"
    and "no_faults D" and "db_wf db" and "fresh_ids D n" and "length (all_ids db) + 35 \<le> n"
    and "us_seed_email ` set USERS \<inter> us_email ` set (db_users db) = {}" and "db_articles db = []"
    and "requests_of db KNOWN_TICKET = []" and "environment S \<noteq> ''production''"
  shows "\<exists>db' u. seed S A D allow db = (Inr (), db') \<and> u \<in> set (db_users db') \<and> us_role u = SUPERVISOR
    \<and> (\<forall>D' token env limited latency.
         session_of S A D' env u token db' \<longrightarrow>
       login S A D' SUPERVISOR_EMAIL SUPERVISOR_PASSWORD db' = (Inr \<lparr>at_access_token = token, at_token_type = ''bearer''\<rparr>, db')
       \<and> (\<forall>c. serve_reject S A bearer (env c) (limited c) ENDPOINT_PATH c (''Bearer '' @ token) db'
            = (if limited c then 429 else 404, db'))
       \<and> (\<exists>outcomes. run_load_test (load_test_login (service_login S A D' db'))
              (service_post S A bearer env limited latency db') = Inr outcomes
            \<and> summary_counts outcomes =
                (CONCURRENT_REQUESTS, 0, throttled limited, CONCURRENT_REQUESTS - throttled limited)))"
proof -
  from seeded_supervisor [OF assms(4-9,11), of A allow KNOWN_TICKET] obtain db' u where
    s: "seed S A D allow db = (Inr (), db')" and wf: "db_wf db'" and none: "requests_of db' KNOWN_TICKET = []"
    and u: "u \<in> set (db_users db')" "us_email u = SUPERVISOR_EMAIL" "us_role u = SUPERVISOR" "us_is_active u"
      "us_password_hash u = hash_password A SUPERVISOR_PASSWORD"
    using assms(10) by metis
  have run: "login S A D' SUPERVISOR_EMAIL SUPERVISOR_PASSWORD db' = (Inr \<lparr>at_access_token = token, at_token_type = ''bearer''\<rparr>, db')
       \<and> (\<forall>c. serve_reject S A bearer (env c) (limited c) ENDPOINT_PATH c (''Bearer '' @ token) db'
            = (if limited c then 429 else 404, db'))
       \<and> (\<exists>outcomes. run_load_test (load_test_login (service_login S A D' db'))
              (service_post S A bearer env limited latency db') = Inr outcomes
            \<and> summary_counts outcomes =
                (CONCURRENT_REQUESTS, 0, throttled limited, CONCURRENT_REQUESTS - throttled limited))"
    if "session_of S A D' env u token db'" for D' token env limited latency
  proof -
    from that have D': "d_fault D' DbSelect db' = None" and tok: "create_access_token S A (d_now D' db') (us_id u) SUPERVISOR None = Inr token"
      and env: "\<forall>c. d_fault (env c) DbSelect db' = None
              \<and> timegm (d_now (env c) db') \<le> (epoch_us (d_now D' db') + token_lifetime S None) div 1000000"
      by (simp_all add: session_of_def)
    have login: "login S A D' SUPERVISOR_EMAIL SUPERVISOR_PASSWORD db' = (Inr \<lparr>at_access_token = token, at_token_type = ''bearer''\<rparr>, db')"
      using login_of_user [OF wf u(1) D', of S A SUPERVISOR_PASSWORD] u tok assms(2) by simp
    then have form: "load_test_login (service_login S A D' db') = Inr token"
      by (simp add: load_test_login_def service_login_def)
    have served: "serve_reject S A bearer (env c) (limited c) ENDPOINT_PATH c (''Bearer '' @ token) db'
        = (if limited c then 429 else 404, db')" for c
    proof (rule serve_reject_unknown)
      show "require_role S A (env c) SUPERVISOR_ROLES token db' = (Inr u, db')"
        by (rule supervisor_token_accepted [OF assms(1) tok wf u(1,4,3)]) (use env in simp_all)
    qed (use env none assms(3) in simp_all)
    have "run_load_test (load_test_login (service_login S A D' db')) (service_post S A bearer env limited latency db')
        = Inr (map (\<lambda>(n, t). served limited latency (comment_of t n)) batch)"
      by (rule run_of_served [OF form]) (simp only: service_post_def served fst_conv)
    then show ?thesis using login served counts_of_served by blast
  qed
  show ?thesis using s u(1,3) run by (intro exI [of _ db'] exI [of _ u]) blast
qed

theorem load_test_on_a_fresh_installation_witness:
  "\<exists>db' outcomes. seed default_settings sample_auth seed_env None empty_db = (Inr (), db')
     \<and> run_load_test (load_test_login (service_login default_settings sample_auth sample_db_env db'))
         (service_post default_settings sample_auth (\<lambda>h. Inr (drop 7 h)) (\<lambda>c. sample_db_env) (\<lambda>c. False) (\<lambda>c. Fin 1) db')
         = Inr outcomes
     \<and> summary_counts outcomes = (50, 0, 0, 50)"
proof -
  have pw: "pw_verify sample_auth p (hash_password sample_auth p) = Inr True" for p
    by (simp add: sample_auth_def hash_password_def)
  have b: "Inr (drop 7 (''Bearer '' @ t)) = (Inr t :: exc + string)" for t by simp
  have e: "us_seed_email ` set USERS \<inter> us_email ` set (db_users empty_db) = {}" "environment default_settings \<noteq> ''production''"
    "length (all_ids empty_db) + 35 \<le> 1000" by (simp_all add: default_settings_def)
  have none: "requests_of empty_db KNOWN_TICKET = []" by (simp add: requests_of_def empty_db_def)
  from load_test_on_a_fresh_installation [where bearer = "\<lambda>h. Inr (drop 7 h)", OF sample_jwt_laws pw b seed_env_no_faults
      empty_facts(1) seed_env_fresh e(3,1) empty_facts(4) none e(2), of None]
  obtain db' u where s: "seed default_settings sample_auth seed_env None empty_db = (Inr (), db')"
    and all: "\<And>D' token env limited latency. session_of default_settings sample_auth D' env u token db' \<Longrightarrow>
       \<exists>outcomes. run_load_test (load_test_login (service_login default_settings sample_auth D' db'))
              (service_post default_settings sample_auth (\<lambda>h. Inr (drop 7 h)) env limited latency db') = Inr outcomes
            \<and> summary_counts outcomes = (CONCURRENT_REQUESTS, 0, throttled limited, CONCURRENT_REQUESTS - throttled limited)"
    by blast
  obtain token where "create_access_token default_settings sample_auth sample_time (us_id u) SUPERVISOR None = Inr token"
    using sample_token [of None "us_id u"] by auto
  then have "\<exists>outcomes. run_load_test (load_test_login (service_login default_settings sample_auth sample_db_env db'))
         (service_post default_settings sample_auth (\<lambda>h. Inr (drop 7 h)) (\<lambda>c. sample_db_env) (\<lambda>c. False) (\<lambda>c. Fin 1) db')
         = Inr outcomes
     \<and> summary_counts outcomes = (CONCURRENT_REQUESTS, 0, throttled (\<lambda>c. False), CONCURRENT_REQUESTS - throttled (\<lambda>c. False))"
    by (intro all) (simp add: session_of_def timegm_def token_lifetime_def default_settings_def)
  with s show ?thesis by (auto simp: throttled_def CONCURRENT_REQUESTS_def)
qed

end
