(* ===== verification/Schema.thy ===== *)
theory Schema
  imports Enums
begin

section \<open>Schemas and the statements that change them\<close>

text \<open>
  What the migrations under \<^verbatim>\<open>alembic/versions/\<close> use of PostgreSQL's data definition language: types,
  tables with columns and constraints, indexes, and the statements that create, alter and drop
  them. A statement that PostgreSQL rejects is \<open>Inl\<close>. Whether a table has rows, and whether a column
  of it holds a \<open>NULL\<close>, is the argument \<open>d\<close>: it decides whether a column may be added or made
  \<open>NOT NULL\<close>.
\<close>

datatype col_type = UUID | VARCHAR nat | TEXT | ENUM string | TIMESTAMP | TIMESTAMPTZ | BOOLEAN | INTEGER | JSONB
  | VARCHAR_ARRAY

record column =
  co_name :: string
  co_type :: col_type
  co_nullable :: bool
  co_default :: "string option"

text \<open>The name of a constraint, its column and, for a foreign key (\<^verbatim>\<open>ON DELETE RESTRICT\<close>), the table it refers to.\<close>

datatype constr = PrimaryKey string string | Unique string string | ForeignKey string string string

fun constr_column :: "constr \<Rightarrow> string" where
  "constr_column (PrimaryKey n c) = c"
| "constr_column (Unique n c) = c"
| "constr_column (ForeignKey n c t) = c"

fun refers_to :: "string \<Rightarrow> constr \<Rightarrow> bool" where
  "refers_to t (ForeignKey n c t') = (t = t')"
| "refers_to t _ = False"

record table_def =
  td_columns :: "column list"
  td_constraints :: "constr list"

text \<open>An index is its name, its table and its column.\<close>

record schema =
  sc_types :: "(string \<times> string list) list"
  sc_tables :: "(string \<times> table_def) list"
  sc_indexes :: "(string \<times> string \<times> string) list"

definition empty_schema :: schema where
  "empty_schema = \<lparr>sc_types = [], sc_tables = [], sc_indexes = []\<rparr>"

datatype ddl =
    CreateType string "string list"
  | CreateTable string "column list" "constr list"
  | CreateIndex string string string
  | AddColumn string column
  | AlterType string string col_type
  | AlterNullable string string bool
  | AlterDefault string string "string option"
  | DropColumn string string
  | DropIndex string string
  | DropTable string
  | DropTableIfExists string
  | DropTypeIfExists string

record contents =
  has_rows :: "string \<Rightarrow> bool"
  has_null :: "string \<Rightarrow> string \<Rightarrow> bool"

definition undefined_object :: exc where "undefined_object = OtherExc ''does not exist''"
definition duplicate_object :: exc where "duplicate_object = OtherExc ''already exists''"
definition dependent_objects :: exc where "dependent_objects = OtherExc ''other objects depend on it''"
definition not_null_violation :: exc where "not_null_violation = IntegrityError ''column contains null values''"

definition has_column :: "table_def \<Rightarrow> string \<Rightarrow> bool" where
  "has_column t c \<longleftrightarrow> c \<in> set (map co_name (td_columns t))"

fun type_known :: "schema \<Rightarrow> col_type \<Rightarrow> bool" where
  "type_known s (ENUM e) = (e \<in> set (map fst (sc_types s)))"
| "type_known s _ = True"

text \<open>Changing one table, and one of its columns.\<close>

definition on_table :: "schema \<Rightarrow> string \<Rightarrow> (table_def \<Rightarrow> exc + table_def) \<Rightarrow> exc + schema" where
  "on_table s t f =
     (case map_of (sc_tables s) t of None \<Rightarrow> Inl undefined_object
      | Some td \<Rightarrow> (case f td of Inl e \<Rightarrow> Inl e
          | Inr td' \<Rightarrow> Inr (s\<lparr>sc_tables := map (\<lambda>(n, x). if n = t then (n, td') else (n, x)) (sc_tables s)\<rparr>)))"

definition on_column :: "schema \<Rightarrow> string \<Rightarrow> string \<Rightarrow> (column \<Rightarrow> column) \<Rightarrow> exc + schema" where
  "on_column s t c f = on_table s t (\<lambda>td.
     if has_column td c
     then Inr (td\<lparr>td_columns := map (\<lambda>x. if co_name x = c then f x else x) (td_columns td)\<rparr>)
     else Inl undefined_object)"

definition drop_table :: "schema \<Rightarrow> string \<Rightarrow> exc + schema" where
  "drop_table s t =
     (if list_ex (\<lambda>(n, td). n \<noteq> t \<and> list_ex (refers_to t) (td_constraints td)) (sc_tables s) then Inl dependent_objects
      else Inr (s\<lparr>sc_tables := filter (\<lambda>x. fst x \<noteq> t) (sc_tables s),
                  sc_indexes := filter (\<lambda>x. fst (snd x) \<noteq> t) (sc_indexes s)\<rparr>))"

fun exec_ddl :: "contents \<Rightarrow> ddl \<Rightarrow> schema \<Rightarrow> exc + schema" where
  "exec_ddl d (CreateType n labels) s =
     (if n \<in> set (map fst (sc_types s)) then Inl duplicate_object
      else Inr (s\<lparr>sc_types := sc_types s @ [(n, labels)]\<rparr>))"
| "exec_ddl d (CreateTable n cols cons) s =
     (let td = \<lparr>td_columns = cols, td_constraints = cons\<rparr>;
          tables = n # map fst (sc_tables s) in
      if n \<in> set (map fst (sc_tables s)) \<or> \<not> distinct (map co_name cols) then Inl duplicate_object
      else if list_all (\<lambda>c. type_known s (co_type c)) cols \<and> list_all (\<lambda>k. has_column td (constr_column k)) cons
          \<and> list_all (\<lambda>k. case k of ForeignKey _ _ t \<Rightarrow> t \<in> set tables | _ \<Rightarrow> True) cons
      then Inr (s\<lparr>sc_tables := sc_tables s @ [(n, td)]\<rparr>)
      else Inl undefined_object)"
| "exec_ddl d (CreateIndex i t c) s =
     (case map_of (sc_tables s) t of None \<Rightarrow> Inl undefined_object
      | Some td \<Rightarrow>
          if \<not> has_column td c then Inl undefined_object
          else if i \<in> set (map fst (sc_indexes s)) then Inl duplicate_object
          else Inr (s\<lparr>sc_indexes := sc_indexes s @ [(i, t, c)]\<rparr>))"
| "exec_ddl d (AddColumn t c) s = on_table s t (\<lambda>td.
     if has_column td (co_name c) then Inl duplicate_object
     else if \<not> type_known s (co_type c) then Inl undefined_object
     else if \<not> co_nullable c \<and> co_default c = None \<and> has_rows d t then Inl not_null_violation
     else Inr (td\<lparr>td_columns := td_columns td @ [c]\<rparr>))"
| "exec_ddl d (AlterType t c ty) s = on_column s t c (\<lambda>x. x\<lparr>co_type := ty\<rparr>)"
| "exec_ddl d (AlterNullable t c b) s =
     (if \<not> b \<and> has_null d t c then Inl not_null_violation else on_column s t c (\<lambda>x. x\<lparr>co_nullable := b\<rparr>))"
| "exec_ddl d (AlterDefault t c v) s = on_column s t c (\<lambda>x. x\<lparr>co_default := v\<rparr>)"
| "exec_ddl d (DropColumn t c) s =
     (case on_table s t (\<lambda>td. if has_column td c
          then Inr (td\<lparr>td_columns := filter (\<lambda>x. co_name x \<noteq> c) (td_columns td),
                       td_constraints := filter (\<lambda>k. constr_column k \<noteq> c) (td_constraints td)\<rparr>)
          else Inl undefined_object) of
        Inl e \<Rightarrow> Inl e
      | Inr s' \<Rightarrow> Inr (s'\<lparr>sc_indexes := filter (\<lambda>x. snd x \<noteq> (t, c)) (sc_indexes s')\<rparr>))"
| "exec_ddl d (DropIndex i t) s =
     (if i \<in> set (map fst (sc_indexes s)) then Inr (s\<lparr>sc_indexes := filter (\<lambda>x. fst x \<noteq> i) (sc_indexes s)\<rparr>)
      else Inl undefined_object)"
| "exec_ddl d (DropTable t) s =
     (if t \<in> set (map fst (sc_tables s)) then drop_table s t else Inl undefined_object)"
| "exec_ddl d (DropTableIfExists t) s = drop_table s t"
| "exec_ddl d (DropTypeIfExists n) s =
     (if list_ex (\<lambda>(_, td). list_ex (\<lambda>c. co_type c = ENUM n) (td_columns td)) (sc_tables s) then Inl dependent_objects
      else Inr (s\<lparr>sc_types := filter (\<lambda>x. fst x \<noteq> n) (sc_types s)\<rparr>))"

fun exec_all :: "contents \<Rightarrow> ddl list \<Rightarrow> schema \<Rightarrow> exc + schema" where
  "exec_all d [] s = Inr s"
| "exec_all d (x # xs) s = (case exec_ddl d x s of Inl e \<Rightarrow> Inl e | Inr s' \<Rightarrow> exec_all d xs s')"

lemma exec_all_append:
  "exec_all d (xs @ ys) s = (case exec_all d xs s of Inl e \<Rightarrow> Inl e | Inr s' \<Rightarrow> exec_all d ys s')"
  by (induction xs arbitrary: s) (auto split: sum.split)

end
