(* ===== verification/Migrations.thy ===== *)
theory Migrations
  imports Schema
begin

section \<open>The migrations and the models\<close>

text \<open>
  The three revisions under \<^verbatim>\<open>alembic/versions/\<close> as lists of statements, their order as Alembic follows
  it along \<^verbatim>\<open>down_revision\<close>, the transaction of \<^verbatim>\<open>alembic/env.py\<close>, and the metadata that the classes of
  \<^verbatim>\<open>backend/database/models/\<close> declare with the naming convention and the mixins of
  \<^verbatim>\<open>backend/database/base.py\<close>.
\<close>

abbreviation (input) col :: "string \<Rightarrow> col_type \<Rightarrow> bool \<Rightarrow> string option \<Rightarrow> column" where
  "col n ty nullable dflt \<equiv> \<lparr>co_name = n, co_type = ty, co_nullable = nullable, co_default = dflt\<rparr>"

subsection \<open>The baseline\<close>

definition UPGRADE_STATEMENTS :: "ddl list" where
  "UPGRADE_STATEMENTS =
    [CreateType ''approval_status'' [''pending'', ''approved'', ''rejected''],
     CreateType ''customer_tier'' [''standard'', ''premium'', ''enterprise''],
     CreateType ''ticket_priority'' [''low'', ''medium'', ''high'', ''urgent''],
     CreateType ''ticket_status'' [''new'', ''triaged'', ''assigned'', ''drafted'', ''approval_required'', ''approved'', ''sent'', ''closed''],
     CreateType ''user_role'' [''agent'', ''supervisor'', ''admin''],
     CreateTable ''customers''
       [col ''id'' UUID False None,
        col ''name'' (VARCHAR 255) False None,
        col ''email'' (VARCHAR 255) False None,
        col ''company'' (VARCHAR 255) True None,
        col ''tier'' (ENUM ''customer_tier'') False None,
        col ''created_at'' TIMESTAMP False (Some ''now()'')]
       [PrimaryKey ''pk_customers'' ''id''],
     CreateIndex ''ix_customers_email'' ''customers'' ''email'',
     CreateIndex ''ix_customers_company'' ''customers'' ''company'',
     CreateTable ''users''
       [col ''id'' UUID False None,
        col ''email'' (VARCHAR 255) False None,
        col ''password_hash'' TEXT False None,
        col ''full_name'' (VARCHAR 255) False None,
        col ''role'' (ENUM ''user_role'') False None,
        col ''is_active'' BOOLEAN False (Some ''true''),
        col ''created_at'' TIMESTAMP False (Some ''now()''),
        col ''updated_at'' TIMESTAMP False (Some ''now()'')]
       [PrimaryKey ''pk_users'' ''id'',
        Unique ''uq_users_email'' ''email''],
     CreateTable ''tickets''
       [col ''id'' UUID False None,
        col ''customer_id'' UUID False None,
        col ''assigned_agent_id'' UUID True None,
        col ''subject'' (VARCHAR 255) False None,
        col ''description'' TEXT False None,
        col ''priority'' (ENUM ''ticket_priority'') False None,
        col ''status'' (ENUM ''ticket_status'') False None,
        col ''ai_summary'' TEXT True None,
        col ''created_at'' TIMESTAMP False (Some ''now()''),
        col ''updated_at'' TIMESTAMP False (Some ''now()'')]
       [PrimaryKey ''pk_tickets'' ''id'',
        ForeignKey ''fk_tickets_customer_id_customers'' ''customer_id'' ''customers'',
        ForeignKey ''fk_tickets_assigned_agent_id_users'' ''assigned_agent_id'' ''users''],
     CreateIndex ''ix_tickets_customer_id'' ''tickets'' ''customer_id'',
     CreateIndex ''ix_tickets_assigned_agent_id'' ''tickets'' ''assigned_agent_id'',
     CreateIndex ''ix_tickets_priority'' ''tickets'' ''priority'',
     CreateIndex ''ix_tickets_status'' ''tickets'' ''status'',
     CreateIndex ''ix_tickets_created_at'' ''tickets'' ''created_at'',
     CreateTable ''approval_requests''
       [col ''id'' UUID False None,
        col ''ticket_id'' UUID False None,
        col ''requested_by'' UUID False None,
        col ''approved_by'' UUID True None,
        col ''status'' (ENUM ''approval_status'') False None,
        col ''comments'' TEXT True None,
        col ''requested_at'' TIMESTAMP False (Some ''now()''),
        col ''decided_at'' TIMESTAMP True None]
       [PrimaryKey ''pk_approval_requests'' ''id'',
        ForeignKey ''fk_approval_requests_ticket_id_tickets'' ''ticket_id'' ''tickets'',
        ForeignKey ''fk_approval_requests_requested_by_users'' ''requested_by'' ''users'',
        ForeignKey ''fk_approval_requests_approved_by_users'' ''approved_by'' ''users''],
     CreateIndex ''ix_approval_requests_ticket_id'' ''approval_requests'' ''ticket_id'',
     CreateIndex ''ix_approval_requests_status'' ''approval_requests'' ''status'',
     CreateTable ''audit_logs''
       [col ''id'' UUID False None,
        col ''ticket_id'' UUID False None,
        col ''user_id'' UUID True None,
        col ''event_type'' (VARCHAR 100) False None,
        col ''description'' TEXT False None,
        col ''metadata'' JSONB True None,
        col ''created_at'' TIMESTAMP False (Some ''now()'')]
       [PrimaryKey ''pk_audit_logs'' ''id'',
        ForeignKey ''fk_audit_logs_ticket_id_tickets'' ''ticket_id'' ''tickets'',
        ForeignKey ''fk_audit_logs_user_id_users'' ''user_id'' ''users''],
     CreateIndex ''ix_audit_logs_ticket_id'' ''audit_logs'' ''ticket_id'',
     CreateIndex ''ix_audit_logs_created_at'' ''audit_logs'' ''created_at'',
     CreateTable ''agent_runs''
       [col ''id'' UUID False None,
        col ''ticket_id'' UUID False None,
        col ''agent_name'' (VARCHAR 100) False None,
        col ''model'' (VARCHAR 100) False None,
        col ''input'' JSONB False None,
        col ''output'' JSONB False None,
        col ''latency_ms'' INTEGER False None,
        col ''tokens_prompt'' INTEGER True None,
        col ''tokens_completion'' INTEGER True None,
        col ''success'' BOOLEAN False None,
        col ''error_message'' TEXT True None,
        col ''created_at'' TIMESTAMP False (Some ''now()'')]
       [PrimaryKey ''pk_agent_runs'' ''id'',
        ForeignKey ''fk_agent_runs_ticket_id_tickets'' ''ticket_id'' ''tickets''],
     CreateIndex ''ix_agent_runs_ticket_id'' ''agent_runs'' ''ticket_id'',
     CreateIndex ''ix_agent_runs_success'' ''agent_runs'' ''success'',
     CreateIndex ''ix_agent_runs_created_at'' ''agent_runs'' ''created_at'']"

definition DOWNGRADE_STATEMENTS :: "ddl list" where
  "DOWNGRADE_STATEMENTS =
    [DropTableIfExists ''agent_runs'',
     DropTableIfExists ''audit_logs'',
     DropTableIfExists ''approval_requests'',
     DropTableIfExists ''tickets'',
     DropTableIfExists ''users'',
     DropTableIfExists ''customers'',
     DropTypeIfExists ''user_role'',
     DropTypeIfExists ''ticket_status'',
     DropTypeIfExists ''ticket_priority'',
     DropTypeIfExists ''customer_tier'',
     DropTypeIfExists ''approval_status'']"

subsection \<open>The two later revisions\<close>

text \<open>An empty SQL string, and an empty SQL array.\<close>

definition EMPTY_TEXT :: string where "EMPTY_TEXT = [CHR 0x27, CHR 0x27]"
definition EMPTY_ARRAY :: string where "EMPTY_ARRAY = [CHR 0x27] @ ''{}'' @ [CHR 0x27]"

definition ai_context_upgrade :: "ddl list" where
  "ai_context_upgrade =
    [CreateTable ''knowledge_articles''
       [col ''category'' (VARCHAR 50) False None,
        col ''title'' (VARCHAR 255) False None,
        col ''content'' TEXT False None,
        col ''id'' UUID False None,
        col ''updated_at'' TIMESTAMP False (Some ''now()''),
        col ''created_at'' TIMESTAMP False (Some ''now()'')]
       [PrimaryKey ''pk_knowledge_articles'' ''id''],
     CreateIndex ''ix_knowledge_articles_category'' ''knowledge_articles'' ''category'',
     AddColumn ''approval_requests'' (col ''draft_response'' TEXT False (Some EMPTY_TEXT)),
     AddColumn ''approval_requests'' (col ''retrieved_context'' TEXT True None),
     AddColumn ''approval_requests'' (col ''selected_agent'' (VARCHAR 50) False (Some EMPTY_TEXT)),
     AddColumn ''approval_requests'' (col ''matched_policy_rules'' VARCHAR_ARRAY False (Some EMPTY_ARRAY)),
     AlterDefault ''approval_requests'' ''draft_response'' None,
     AlterDefault ''approval_requests'' ''selected_agent'' None,
     AlterDefault ''approval_requests'' ''matched_policy_rules'' None,
     AlterNullable ''approval_requests'' ''requested_by'' True]"

definition ai_context_downgrade :: "ddl list" where
  "ai_context_downgrade =
    [AlterNullable ''approval_requests'' ''requested_by'' False,
     DropColumn ''approval_requests'' ''matched_policy_rules'',
     DropColumn ''approval_requests'' ''selected_agent'',
     DropColumn ''approval_requests'' ''retrieved_context'',
     DropColumn ''approval_requests'' ''draft_response'',
     DropIndex ''ix_knowledge_articles_category'' ''knowledge_articles'',
     DropTable ''knowledge_articles'']"

definition decided_at_upgrade :: "ddl list" where
  "decided_at_upgrade = [AlterType ''approval_requests'' ''decided_at'' TIMESTAMPTZ]"

definition decided_at_downgrade :: "ddl list" where
  "decided_at_downgrade = [AlterType ''approval_requests'' ''decided_at'' TIMESTAMP]"

subsection \<open>Running revisions\<close>

record revision =
  rev_id :: string
  rev_down :: "string option"
  rev_upgrade :: "ddl list"
  rev_downgrade :: "ddl list"

definition decided_at_revision :: revision where
  "decided_at_revision = \<lparr>rev_id = ''26f06c6b17b3'', rev_down = Some ''757988297d96'',
     rev_upgrade = decided_at_upgrade, rev_downgrade = decided_at_downgrade\<rparr>"

definition ai_context_revision :: revision where
  "ai_context_revision = \<lparr>rev_id = ''757988297d96'', rev_down = Some ''8f0d1bb0d4bb'',
     rev_upgrade = ai_context_upgrade, rev_downgrade = ai_context_downgrade\<rparr>"

definition baseline_revision :: revision where
  "baseline_revision = \<lparr>rev_id = ''8f0d1bb0d4bb'', rev_down = None,
     rev_upgrade = UPGRADE_STATEMENTS, rev_downgrade = DOWNGRADE_STATEMENTS\<rparr>"

text \<open>The files in the order of the directory, which says nothing of the order of the revisions.\<close>

definition REVISIONS :: "revision list" where
  "REVISIONS = [decided_at_revision, ai_context_revision, baseline_revision]"

text \<open>The revisions after and before a version. Each revision is visited at most once, so as many steps as
  there are revisions suffice.\<close>

fun revisions_after :: "nat \<Rightarrow> string option \<Rightarrow> revision list" where
  "revisions_after 0 v = []"
| "revisions_after (Suc n) v =
     (case find (\<lambda>r. rev_down r = v) REVISIONS of None \<Rightarrow> [] | Some r \<Rightarrow> r # revisions_after n (Some (rev_id r)))"

fun revisions_before :: "nat \<Rightarrow> string option \<Rightarrow> revision list" where
  "revisions_before 0 v = []"
| "revisions_before (Suc n) v =
     (case find (\<lambda>r. Some (rev_id r) = v) REVISIONS of None \<Rightarrow> [] | Some r \<Rightarrow> r # revisions_before n (rev_down r))"

text \<open>A migrated database: its version, in \<^verbatim>\<open>alembic_version\<close>, and its schema.\<close>

record migrated =
  mg_version :: "string option"
  mg_schema :: schema

text \<open>\<open>do_run_migrations\<close>: all the statements in one transaction.\<close>

definition run_migrations :: "contents \<Rightarrow> ddl list \<Rightarrow> string option \<Rightarrow> (unit, migrated) comp" where
  "run_migrations d statements version m =
     (case exec_all d statements (mg_schema m) of Inl e \<Rightarrow> (Inl e, m)
      | Inr s \<Rightarrow> (Inr (), \<lparr>mg_version = version, mg_schema = s\<rparr>))"

definition upgrade_head :: "contents \<Rightarrow> (unit, migrated) comp" where
  "upgrade_head d m =
     (let rs = revisions_after (length REVISIONS) (mg_version m)
      in run_migrations d (concat (map rev_upgrade rs))
           (if rs = [] then mg_version m else Some (rev_id (last rs))) m)"

text \<open>\<^verbatim>\<open>alembic downgrade -1\<close>, one revision, and \<^verbatim>\<open>alembic downgrade base\<close>, all of them in one transaction.\<close>

definition downgrade_one :: "contents \<Rightarrow> (unit, migrated) comp" where
  "downgrade_one d m =
     (case find (\<lambda>r. Some (rev_id r) = mg_version m) REVISIONS of
        None \<Rightarrow> (Inl (OtherExc ''Relative revision -1 did not produce 1 migrations''), m)
      | Some r \<Rightarrow> run_migrations d (rev_downgrade r) (rev_down r) m)"

definition downgrade_base :: "contents \<Rightarrow> (unit, migrated) comp" where
  "downgrade_base d m =
     run_migrations d (concat (map rev_downgrade (revisions_before (length REVISIONS) (mg_version m)))) None m"

text \<open>
  \<open>run_migrations_offline\<close>: instead of running the statements, Alembic writes them out, in one transaction,
  with the updates of the version in between. \<open>run_script\<close> is what the script does when it is run later.
\<close>

datatype script_item = BeginTransaction | Statement ddl | SetVersion string | CommitTransaction

definition run_migrations_offline :: "string option \<Rightarrow> script_item list" where
  "run_migrations_offline from_version =
     [BeginTransaction] @
     concat (map (\<lambda>r. map Statement (rev_upgrade r) @ [SetVersion (rev_id r)])
       (revisions_after (length REVISIONS) from_version)) @
     [CommitTransaction]"

text \<open>The committed state, the state inside the transaction, and the rest of the script.\<close>

fun run_items :: "contents \<Rightarrow> migrated \<Rightarrow> migrated \<Rightarrow> script_item list \<Rightarrow> exc option \<times> migrated" where
  "run_items d saved m [] = (None, saved)"
| "run_items d saved m (BeginTransaction # xs) = run_items d saved saved xs"
| "run_items d saved m (Statement x # xs) =
     (case exec_ddl d x (mg_schema m) of Inl e \<Rightarrow> (Some e, saved)
      | Inr s \<Rightarrow> run_items d saved (m\<lparr>mg_schema := s\<rparr>) xs)"
| "run_items d saved m (SetVersion v # xs) = run_items d saved (m\<lparr>mg_version := Some v\<rparr>) xs"
| "run_items d saved m (CommitTransaction # xs) = run_items d m m xs"

definition run_script :: "contents \<Rightarrow> script_item list \<Rightarrow> (unit, migrated) comp" where
  "run_script d script m =
     (case run_items d m m script of (None, m') \<Rightarrow> (Inr (), m') | (Some e, m') \<Rightarrow> (Inl e, m'))"

subsection \<open>The metadata of the models\<close>

text \<open>\<open>NAMING_CONVENTION\<close>.\<close>

definition ix_name :: "string \<Rightarrow> string \<Rightarrow> string" where "ix_name t c = ''ix_'' @ t @ ''_'' @ c"
definition uq_name :: "string \<Rightarrow> string \<Rightarrow> string" where "uq_name t c = ''uq_'' @ t @ ''_'' @ c"
definition fk_name :: "string \<Rightarrow> string \<Rightarrow> string \<Rightarrow> string" where "fk_name t c r = ''fk_'' @ t @ ''_'' @ c @ ''_'' @ r"
definition pk_name :: "string \<Rightarrow> string" where "pk_name t = ''pk_'' @ t"

text \<open>\<open>mapped_column\<close>: the column and its options.\<close>

record mapped_column =
  mc_column :: column
  mc_primary :: bool
  mc_unique :: bool
  mc_index :: bool
  mc_references :: "string option"

definition plain :: "column \<Rightarrow> mapped_column" where
  "plain c = \<lparr>mc_column = c, mc_primary = False, mc_unique = False, mc_index = False, mc_references = None\<rparr>"

definition indexed :: "column \<Rightarrow> mapped_column" where "indexed c = (plain c)\<lparr>mc_index := True\<rparr>"

definition foreign_key :: "string \<Rightarrow> bool \<Rightarrow> string \<Rightarrow> mapped_column" where
  "foreign_key c nullable t = (plain (col c UUID nullable None))\<lparr>mc_references := Some t\<rparr>"

definition UUIDPrimaryKeyMixin :: "mapped_column list" where
  "UUIDPrimaryKeyMixin = [(plain (col ''id'' UUID False None))\<lparr>mc_primary := True\<rparr>]"

definition CreatedAtMixin :: "mapped_column list" where
  "CreatedAtMixin = [plain (col ''created_at'' TIMESTAMP False (Some ''now()''))]"

definition CreatedAtUpdatedAtMixin :: "mapped_column list" where
  "CreatedAtUpdatedAtMixin = CreatedAtMixin @ [plain (col ''updated_at'' TIMESTAMP False (Some ''now()''))]"

definition customers_table :: "mapped_column list" where
  "customers_table = UUIDPrimaryKeyMixin @ CreatedAtMixin @
    [plain (col ''name'' (VARCHAR 255) False None),
     indexed (col ''email'' (VARCHAR 255) False None),
     indexed (col ''company'' (VARCHAR 255) True None),
     plain (col ''tier'' (ENUM ''customer_tier'') False None)]"

definition users_table :: "mapped_column list" where
  "users_table = UUIDPrimaryKeyMixin @ CreatedAtUpdatedAtMixin @
    [(plain (col ''email'' (VARCHAR 255) False None))\<lparr>mc_unique := True\<rparr>,
     plain (col ''password_hash'' TEXT False None),
     plain (col ''full_name'' (VARCHAR 255) False None),
     plain (col ''role'' (ENUM ''user_role'') False None),
     plain (col ''is_active'' BOOLEAN False (Some ''true''))]"

text \<open>A column of the class replaces the one of the same name in a mixin.\<close>

definition override :: "mapped_column list \<Rightarrow> mapped_column list \<Rightarrow> mapped_column list" where
  "override mixin own = filter (\<lambda>m. co_name (mc_column m) \<notin> set (map (co_name \<circ> mc_column) own)) mixin @ own"

definition tickets_table :: "mapped_column list" where
  "tickets_table = override (UUIDPrimaryKeyMixin @ CreatedAtUpdatedAtMixin)
    [(foreign_key ''customer_id'' False ''customers'')\<lparr>mc_index := True\<rparr>,
     (foreign_key ''assigned_agent_id'' True ''users'')\<lparr>mc_index := True\<rparr>,
     plain (col ''subject'' (VARCHAR 255) False None),
     plain (col ''description'' TEXT False None),
     indexed (col ''priority'' (ENUM ''ticket_priority'') False None),
     indexed (col ''status'' (ENUM ''ticket_status'') False None),
     plain (col ''ai_summary'' TEXT True None),
     indexed (col ''created_at'' TIMESTAMP False (Some ''now()''))]"

definition approval_requests_table :: "mapped_column list" where
  "approval_requests_table = UUIDPrimaryKeyMixin @
    [(foreign_key ''ticket_id'' False ''tickets'')\<lparr>mc_index := True\<rparr>,
     foreign_key ''requested_by'' True ''users'',
     foreign_key ''approved_by'' True ''users'',
     indexed (col ''status'' (ENUM ''approval_status'') False None),
     plain (col ''comments'' TEXT True None),
     plain (col ''requested_at'' TIMESTAMP False (Some ''now()'')),
     plain (col ''decided_at'' TIMESTAMPTZ True None),
     plain (col ''draft_response'' TEXT False None),
     plain (col ''retrieved_context'' TEXT True None),
     plain (col ''selected_agent'' (VARCHAR 50) False None),
     plain (col ''matched_policy_rules'' VARCHAR_ARRAY False None)]"

definition audit_logs_table :: "mapped_column list" where
  "audit_logs_table = UUIDPrimaryKeyMixin @
    [(foreign_key ''ticket_id'' False ''tickets'')\<lparr>mc_index := True\<rparr>,
     foreign_key ''user_id'' True ''users'',
     plain (col ''event_type'' (VARCHAR 100) False None),
     plain (col ''description'' TEXT False None),
     plain (col ''metadata'' JSONB True None),
     indexed (col ''created_at'' TIMESTAMP False (Some ''now()''))]"

definition knowledge_articles_table :: "mapped_column list" where
  "knowledge_articles_table = UUIDPrimaryKeyMixin @ CreatedAtUpdatedAtMixin @
    [indexed (col ''category'' (VARCHAR 50) False None),
     plain (col ''title'' (VARCHAR 255) False None),
     plain (col ''content'' TEXT False None)]"

definition agent_runs_table :: "mapped_column list" where
  "agent_runs_table = UUIDPrimaryKeyMixin @
    [(foreign_key ''ticket_id'' False ''tickets'')\<lparr>mc_index := True\<rparr>,
     plain (col ''agent_name'' (VARCHAR 100) False None),
     plain (col ''model'' (VARCHAR 100) False None),
     plain (col ''input'' JSONB False None),
     plain (col ''output'' JSONB False None),
     plain (col ''latency_ms'' INTEGER False None),
     plain (col ''tokens_prompt'' INTEGER True None),
     plain (col ''tokens_completion'' INTEGER True None),
     indexed (col ''success'' BOOLEAN False None),
     plain (col ''error_message'' TEXT True None),
     indexed (col ''created_at'' TIMESTAMP False (Some ''now()''))]"

text \<open>\<open>Base.metadata\<close>, with the native enum types that \<open>pg_enum\<close> names.\<close>

definition MODELS :: "(string \<times> mapped_column list) list" where
  "MODELS = [(''agent_runs'', agent_runs_table), (''approval_requests'', approval_requests_table),
     (''audit_logs'', audit_logs_table), (''customers'', customers_table),
     (''knowledge_articles'', knowledge_articles_table), (''tickets'', tickets_table), (''users'', users_table)]"

definition constraints_of :: "string \<Rightarrow> mapped_column \<Rightarrow> constr list" where
  "constraints_of t m =
     (let c = co_name (mc_column m) in
      (if mc_primary m then [PrimaryKey (pk_name t) c] else [])
      @ (if mc_unique m then [Unique (uq_name t c) c] else [])
      @ (case mc_references m of None \<Rightarrow> [] | Some r \<Rightarrow> [ForeignKey (fk_name t c r) c r]))"

definition metadata :: schema where
  "metadata = \<lparr>
     sc_types = [(''user_role'', member_values user_role_value user_roles),
       (''customer_tier'', member_values customer_tier_value customer_tiers),
       (''ticket_priority'', member_values ticket_priority_value ticket_priorities),
       (''ticket_status'', member_values ticket_status_value ticket_statuses),
       (''approval_status'', member_values approval_status_value approval_statuses)],
     sc_tables = map (\<lambda>(t, ms). (t, \<lparr>td_columns = map mc_column ms, td_constraints = concat (map (constraints_of t) ms)\<rparr>)) MODELS,
     sc_indexes = concat (map (\<lambda>(t, ms). map (\<lambda>m. (ix_name t (co_name (mc_column m)), t, co_name (mc_column m)))
       (filter mc_index ms)) MODELS)\<rparr>"

end
