(* ===== verification/Migrations_Facts.thy ===== *)
theory Migrations_Facts
  imports Migrations Escalation
begin

section \<open>The migrations give the schema of the models\<close>

text \<open>
  The three revisions are run by the simplifier's evaluator, upwards and downwards, and the result is
  compared with the metadata of the models; and a downgrade is set against the requests that the workflow
  stores.
\<close>

text \<open>Equality of two schemas up to the order of types, tables, columns, constraints and indexes.\<close>

definition same_set :: "'a list \<Rightarrow> 'a list \<Rightarrow> bool" where
  "same_set xs ys \<longleftrightarrow> list_all (\<lambda>x. x \<in> set ys) xs \<and> list_all (\<lambda>y. y \<in> set xs) ys"

fun same_table :: "table_def option \<Rightarrow> table_def option \<Rightarrow> bool" where
  "same_table (Some a) (Some b) =
     (same_set (td_columns a) (td_columns b) \<and> same_set (td_constraints a) (td_constraints b)
      \<and> length (td_columns a) = length (td_columns b))"
| "same_table a b = (a = None \<and> b = None)"

definition same_schema :: "schema \<Rightarrow> schema \<Rightarrow> bool" where
  "same_schema s s' \<longleftrightarrow> same_set (sc_types s) (sc_types s') \<and> same_set (sc_indexes s) (sc_indexes s')
     \<and> same_set (map fst (sc_tables s)) (map fst (sc_tables s'))
     \<and> list_all (\<lambda>t. same_table (map_of (sc_tables s) t) (map_of (sc_tables s') t)) (map fst (sc_tables s))"

text \<open>A deployment on which the first \<open>n\<close> revisions have been run, at a time when its tables were empty.\<close>

definition no_contents :: contents where
  "no_contents = \<lparr>has_rows = (\<lambda>t. False), has_null = (\<lambda>t c. False)\<rparr>"

definition deployed :: "nat \<Rightarrow> migrated" where
  "deployed n =
     (let rs = take n (revisions_after (length REVISIONS) None)
      in snd (run_migrations no_contents (concat (map rev_upgrade rs))
           (if rs = [] then None else Some (rev_id (last rs))) \<lparr>mg_version = None, mg_schema = empty_schema\<rparr>))"

lemma upgrade_deployed:
  "upgrade_head d (deployed 0) = (Inr (), deployed 3)" "upgrade_head d (deployed 1) = (Inr (), deployed 3)"
  "upgrade_head d (deployed 2) = (Inr (), deployed 3)" "upgrade_head d (deployed 3) = (Inr (), deployed 3)"
  by code_simp+

lemma head_is_metadata: "same_schema (mg_schema (deployed 3)) metadata"
  by code_simp

lemma deployed_versions:
  "mg_version (deployed 0) = None" "mg_version (deployed 3) = Some ''26f06c6b17b3''"
  "mg_schema (deployed 0) = empty_schema"
  by code_simp+

text \<open>C15: the migrations account for every model. From any revision that a deployment may be at, and
  whatever rows its tables hold, \<open>alembic upgrade head\<close> succeeds and leaves the same schema, and that
  schema is the metadata of the models: the same tables, columns with their types, nullability and
  defaults, constraints and indexes by name, and enum labels. In particular the columns that are
  added \<open>NOT NULL\<close> to a table with rows get a temporary default, and none of them keeps it.\<close>

theorem migrations_reach_the_models:
  assumes "n \<le> 3"
  shows "upgrade_head d (deployed n) = (Inr (), deployed 3)
    \<and> mg_version (deployed 3) = Some ''26f06c6b17b3'' \<and> same_schema (mg_schema (deployed 3)) metadata"
proof -
  from assms have "n = 0 \<or> n = 1 \<or> n = 2 \<or> n = 3" by linarith
  then show ?thesis using upgrade_deployed head_is_metadata deployed_versions(2) by blast
qed

theorem migrations_reach_the_models_witness:
  "upgrade_head \<lparr>has_rows = (\<lambda>t. True), has_null = (\<lambda>t c. True)\<rparr> (deployed 1) = (Inr (), deployed 3)"
  using migrations_reach_the_models [of 1] by simp

text \<open>The script that the offline mode writes does, when it is run, what the online mode does.\<close>

lemma run_items_statements:
  "run_items d saved m (map Statement xs @ ys) =
     (case exec_all d xs (mg_schema m) of Inl e \<Rightarrow> (Some e, saved)
      | Inr s \<Rightarrow> run_items d saved (m\<lparr>mg_schema := s\<rparr>) ys)"
  by (induction xs arbitrary: m) (auto split: sum.split)

lemma run_items_revisions:
  "run_items d saved m (concat (map (\<lambda>r. map Statement (rev_upgrade r) @ [SetVersion (rev_id r)]) rs) @ ys) =
     (case exec_all d (concat (map rev_upgrade rs)) (mg_schema m) of Inl e \<Rightarrow> (Some e, saved)
      | Inr s \<Rightarrow> run_items d saved
          (m\<lparr>mg_schema := s, mg_version := (if rs = [] then mg_version m else Some (rev_id (last rs)))\<rparr>) ys)"
  by (induction rs arbitrary: m) (auto simp: run_items_statements exec_all_append split: sum.split)

lemma offline_script_does_the_upgrade:
  "run_script d (run_migrations_offline (mg_version m)) m = upgrade_head d m"
  by (cases m) (simp add: run_script_def run_migrations_offline_def upgrade_head_def run_migrations_def
      run_items_revisions Let_def split: sum.split)

text \<open>What a list of statements needs to know of the contents.\<close>

lemma exec_all_cong:
  assumes "\<And>t c. AlterNullable t c False \<in> set xs \<Longrightarrow> has_null d t c = has_null d' t c"
    and "\<And>t c. AddColumn t c \<in> set xs \<Longrightarrow> has_rows d t = has_rows d' t"
  shows "exec_all d xs s = exec_all d' xs s"
  using assms
proof (induction xs arbitrary: s)
  case (Cons x xs)
  have "exec_ddl d x s = exec_ddl d' x s" for s
    using Cons.prems by (cases x) (auto simp: on_table_def split: option.split)
  moreover have "exec_all d xs s' = exec_all d' xs s'" for s'
    using Cons.prems by (intro Cons.IH) (meson list.set_intros(2))+
  ultimately show ?case by (simp split: sum.split)
qed simp

definition all_null :: "bool \<Rightarrow> contents" where
  "all_null b = \<lparr>has_rows = (\<lambda>t. b), has_null = (\<lambda>t c. b)\<rparr>"

lemma downgrade_computed:
  "downgrade_base (all_null False) (deployed 3) = (Inr (), deployed 0)"
  "downgrade_base (all_null True) (deployed 3) = (Inl not_null_violation, deployed 3)"
  "downgrade_one (all_null False) (deployed 2) = (Inr (), deployed 1)"
  "downgrade_one (all_null True) (deployed 2) = (Inl not_null_violation, deployed 2)"
  by code_simp+

lemma downgrade_steps:
  "downgrade_one d (deployed 3) = (Inr (), deployed 2)" "downgrade_one d (deployed 1) = (Inr (), deployed 0)"
  by code_simp+

lemma downgrade_cong:
  assumes "has_null d ''approval_requests'' ''requested_by'' = b"
  shows "downgrade_base d (deployed 3) = downgrade_base (all_null b) (deployed 3)"
    and "downgrade_one d (deployed 2) = downgrade_one (all_null b) (deployed 2)"
proof -
  have v: "concat (map rev_downgrade (revisions_before (length REVISIONS) (mg_version (deployed 3)))) =
      decided_at_downgrade @ ai_context_downgrade @ DOWNGRADE_STATEMENTS" by code_simp
  have "exec_all d (decided_at_downgrade @ ai_context_downgrade @ DOWNGRADE_STATEMENTS) s =
      exec_all (all_null b) (decided_at_downgrade @ ai_context_downgrade @ DOWNGRADE_STATEMENTS) s" for s
    using assms by (intro exec_all_cong)
      (auto simp: decided_at_downgrade_def ai_context_downgrade_def DOWNGRADE_STATEMENTS_def all_null_def)
  then show "downgrade_base d (deployed 3) = downgrade_base (all_null b) (deployed 3)"
    unfolding downgrade_base_def run_migrations_def v by simp
  have r: "find (\<lambda>r. Some (rev_id r) = mg_version (deployed 2)) REVISIONS = Some ai_context_revision" by code_simp
  have "exec_all d ai_context_downgrade s = exec_all (all_null b) ai_context_downgrade s" for s
    using assms by (intro exec_all_cong) (auto simp: ai_context_downgrade_def all_null_def)
  then show "downgrade_one d (deployed 2) = downgrade_one (all_null b) (deployed 2)"
    unfolding downgrade_one_def r by (simp add: run_migrations_def ai_context_revision_def)
qed

text \<open>What the contents of the tables are to the migration: whether a request has no requester.\<close>

definition requesters_of :: "contents \<Rightarrow> database \<Rightarrow> bool" where
  "requesters_of d db \<longleftrightarrow>
     has_null d ''approval_requests'' ''requested_by'' = (\<exists>a \<in> set (db_approvals db). ap_requested_by a = None)"

lemma review_has_no_requester:
  assumes "redis_laws (e_redis E)" "kickoff_law E T" "invoke E s w = (r, w')" "w_db w' \<noteq> w_db w"
  shows "\<exists>a \<in> set (db_approvals (w_db w')). ap_requested_by a = None"
proof -
  obtain s5 w5 where "w_db w5 = w_db w" and last: "then_node (persist_results_node E) ret s5 w5 = (r, w')"
    using invoke_reaches [OF assms(1-3)] assms(4) by (auto simp: reaches_last_def)
  with last_node_cases [OF last] assms(4) have
    "w_db w' \<in> {with_review (e_db E) s5 (w_db w), with_event (e_db E) s5 (with_review (e_db E) s5 (w_db w))}" by auto
  then have "review_row (e_db E) (w_db w) s5 \<in> set (db_approvals (w_db w'))"
    by (auto simp: with_review_def with_event_def)
  then show ?thesis by (rule rev_bexI) (simp add: review_row_def)
qed

text \<open>C37: downgrading. Each downgrade undoes its upgrade exactly: one revision at a time leads back to the very schema
  of the revision before, and all of them to the empty schema, as long as every approval request names who
  requested it. But the requests that a run of the workflow adds name no one: once such a run has added one,
  the downgrade of the second revision, and so the one to the base, fails and changes nothing.\<close>

theorem downgrade_undoes_unless_reviews_exist:
  "downgrade_one d (deployed 3) = (Inr (), deployed 2)
   \<and> downgrade_one d (deployed 2) =
      (if has_null d ''approval_requests'' ''requested_by'' then (Inl not_null_violation, deployed 2) else (Inr (), deployed 1))
   \<and> downgrade_one d (deployed 1) = (Inr (), deployed 0)
   \<and> downgrade_base d (deployed 3) =
      (if has_null d ''approval_requests'' ''requested_by'' then (Inl not_null_violation, deployed 3) else (Inr (), deployed 0))
   \<and> (redis_laws (e_redis E) \<and> kickoff_law E T \<and> invoke E s w = (r, w') \<and> w_db w' \<noteq> w_db w \<and> requesters_of d (w_db w') \<longrightarrow>
        downgrade_one d (deployed 2) = (Inl not_null_violation, deployed 2)
        \<and> downgrade_base d (deployed 3) = (Inl not_null_violation, deployed 3))"
proof -
  let ?null = "has_null d ''approval_requests'' ''requested_by''"
  have base: "downgrade_base d (deployed 3) = (if ?null then (Inl not_null_violation, deployed 3) else (Inr (), deployed 0))"
    and one: "downgrade_one d (deployed 2) = (if ?null then (Inl not_null_violation, deployed 2) else (Inr (), deployed 1))"
    using downgrade_cong [of d, OF refl] downgrade_computed by (cases ?null; simp)+
  moreover have "?null" if "redis_laws (e_redis E)" "kickoff_law E T" "invoke E s w = (r, w')" "w_db w' \<noteq> w_db w"
      "requesters_of d (w_db w')"
    using review_has_no_requester [OF that(1-4)] that(5) by (simp add: requesters_of_def)
  ultimately show ?thesis using downgrade_steps [of d] by auto
qed

text \<open>A run whose crew fails, which asks for a review.\<close>

theorem downgrade_undoes_unless_reviews_exist_witness:
  "\<exists>s' w'. invoke (sample_env ''billing'' (Inl (OtherExc ''timeout''))) (sample_state ''hello'') (sample_world True) = (Inr s', w')
    \<and> downgrade_base (all_null True) (deployed 3) = (Inl not_null_violation, deployed 3) \<and> w_db w' \<noteq> sample_db"
proof -
  let ?E = "sample_env ''billing'' (Inl (OtherExc ''timeout''))"
  obtain c r wc wr wr' w' where
    r: "respond ?E (agent_class_by_type (agent_by_category c)) (ws_ticket_text (sample_state ''hello'')) wr = (Inr r, wr')"
    and inv: "invoke ?E (sample_state ''hello'') (sample_world True)
      = (Inr ((evaluated_state (sample_state ''hello'') c r)\<lparr>ws_workflow_status := Some WS_COMPLETED\<rparr>), w')"
    and queue: "the (ws_requires_human_review (evaluated_state (sample_state ''hello'') c r)) \<Longrightarrow>
      queue_ready (e_db ?E) (ws_ticket_id (sample_state ''hello'')) (w_db (sample_world True)) \<Longrightarrow>
      w_db w' = with_event (e_db ?E) (evaluated_state (sample_state ''hello'') c r)
        (with_review (e_db ?E) (evaluated_state (sample_state ''hello'') c r) (w_db (sample_world True)))"
    using invoke_outcome [of ?E UNIV "sample_state ''hello''" "sample_world True", OF _ base_clients_ok base_kickoff_law]
    by (metis base_env_sel(1) mem_redis_laws)
  have laws: "redis_laws (e_redis ?E)" "\<And>task w'. \<exists>e. fst (e_kickoff ?E task w') = Inl e" by simp_all
  have "r_unresolved r" using respond_kickoff_fails [OF base_clients_ok laws(2) r] by simp
  then have "the (ws_requires_human_review (evaluated_state (sample_state ''hello'') c r))" by (simp add: requires_review_iff)
  from queue [OF this] have db: "db_approvals (w_db w') = db_approvals sample_db
      @ [review_row sample_db_env sample_db (evaluated_state (sample_state ''hello'') c r)]"
    by (simp add: with_event_def with_review_def)
  then have changed: "w_db w' \<noteq> sample_db" by (metis append_self_conv list.distinct(1))
  from db have "requesters_of (all_null True) (w_db w')"
    by (auto simp: requesters_of_def all_null_def review_row_def)
  with inv changed have "redis_laws (e_redis ?E) \<and> kickoff_law ?E UNIV
      \<and> invoke ?E (sample_state ''hello'') (sample_world True)
          = (Inr ((evaluated_state (sample_state ''hello'') c r)\<lparr>ws_workflow_status := Some WS_COMPLETED\<rparr>), w')
      \<and> w_db w' \<noteq> w_db (sample_world True) \<and> requesters_of (all_null True) (w_db w')" by simp
  with downgrade_undoes_unless_reviews_exist [where d = "all_null True" and E = ?E]
  have "downgrade_base (all_null True) (deployed 3) = (Inl not_null_violation, deployed 3)" by blast
  with inv changed show ?thesis by blast
qed

end
