(* ===== verification/Async_Bridge.thy ===== *)
theory Async_Bridge
  imports World
begin

section \<open>Event loops: the background loop and what is kept per loop\<close>

text \<open>
  \<^verbatim>\<open>backend/core/asyncio_utils.py\<close>, \<^verbatim>\<open>core/redis_client.py\<close> and the registry of \<^verbatim>\<open>database/session.py\<close>. An
  event loop is known by a number, never reused. Asyncio itself is not modelled: that a coroutine
  given to a running loop completes is its documented behaviour, and the rest of the development
  calls the coroutine in the place of \<open>run_sync\<close>.
\<close>

subsection \<open>The lazily started background loop\<close>

type_synonym loop = nat
type_synonym thread = nat

text \<open>
  Where a thread is in \<open>_LazyBackgroundLoop.get\<close>: at the first test, waiting for the lock, at the second
  test, after \<open>_start_background_loop\<close>, at the \<open>return\<close>, and after it.
\<close>

datatype point = Testing | Locking | Retesting | Assigning loop | Returning | Got loop

record bridge =
  br_loop :: "loop option"
  br_lock :: "thread option"
  br_started :: "loop list"
  br_point :: "thread \<Rightarrow> point"

definition bridge_init :: bridge where
  "bridge_init = \<lparr>br_loop = None, br_lock = None, br_started = [], br_point = (\<lambda>i. Testing)\<rparr>"

text \<open>\<open>_start_background_loop\<close>: a new loop, which runs from then on.\<close>

definition start_background_loop :: "bridge \<Rightarrow> loop \<times> bridge" where
  "start_background_loop s = (length (br_started s), s\<lparr>br_started := br_started s @ [length (br_started s)]\<rparr>)"

definition goto :: "thread \<Rightarrow> point \<Rightarrow> bridge \<Rightarrow> bridge" where
  "goto i p s = s\<lparr>br_point := (br_point s)(i := p)\<rparr>"

text \<open>
  One step of one thread. \<open>with self._lock\<close> takes the lock when it is free and gives it back at the end of
  the block. The last access in the block and the release are one step: in between only a thread at its
  first test could tell, and it finds what it finds after the release.
\<close>

inductive bridge_step :: "thread \<Rightarrow> bridge \<Rightarrow> bridge \<Rightarrow> bool" where
  B_fast: "br_point s i = Testing \<Longrightarrow> br_loop s \<noteq> None \<Longrightarrow> bridge_step i s (goto i Returning s)"
| B_slow: "br_point s i = Testing \<Longrightarrow> br_loop s = None \<Longrightarrow> bridge_step i s (goto i Locking s)"
| B_acquire: "br_point s i = Locking \<Longrightarrow> br_lock s = None \<Longrightarrow> bridge_step i s (goto i Retesting (s\<lparr>br_lock := Some i\<rparr>))"
| B_exists: "br_point s i = Retesting \<Longrightarrow> br_loop s \<noteq> None \<Longrightarrow> bridge_step i s (goto i Returning (s\<lparr>br_lock := None\<rparr>))"
| B_start: "br_point s i = Retesting \<Longrightarrow> br_loop s = None \<Longrightarrow> start_background_loop s = (l, s')
    \<Longrightarrow> bridge_step i s (goto i (Assigning l) s')"
| B_assign: "br_point s i = Assigning l \<Longrightarrow> bridge_step i s (goto i Returning (s\<lparr>br_loop := Some l, br_lock := None\<rparr>))"
| B_return: "br_point s i = Returning \<Longrightarrow> br_loop s = Some l \<Longrightarrow> bridge_step i s (goto i (Got l) s)"

inductive_cases bridge_stepE: "bridge_step i s s'"

text \<open>Any interleaving of the steps of the threads of \<open>T\<close>.\<close>

definition any_step :: "thread set \<Rightarrow> bridge \<Rightarrow> bridge \<Rightarrow> bool" where
  "any_step T s s' \<longleftrightarrow> (\<exists>i \<in> T. bridge_step i s s')"

text \<open>
  The invariant. The thread with the lock is the only one between the second test and the end of the
  block; the loop that it started and not yet assigned, or the assigned one, is the only one started.
\<close>

definition holding :: "point \<Rightarrow> bool" where
  "holding p \<longleftrightarrow> p = Retesting \<or> (\<exists>l. p = Assigning l)"

definition point_ok :: "bridge \<Rightarrow> thread \<Rightarrow> bool" where
  "point_ok s i \<longleftrightarrow> (holding (br_point s i) \<longleftrightarrow> br_lock s = Some i) \<and>
     (case br_point s i of
        Assigning l \<Rightarrow> br_loop s = None \<and> br_started s = [l]
      | Returning \<Rightarrow> br_loop s \<noteq> None
      | Got l \<Rightarrow> br_loop s = Some l
      | _ \<Rightarrow> True)"

definition bridge_inv :: "bridge \<Rightarrow> bool" where
  "bridge_inv s \<longleftrightarrow> (\<forall>i. point_ok s i)
     \<and> (case br_loop s of Some l \<Rightarrow> br_started s = [l]
        | None \<Rightarrow> br_started s = [] \<or> (\<exists>i l. br_point s i = Assigning l))"

lemma goto_sel [simp]:
  "br_loop (goto i p s) = br_loop s" "br_lock (goto i p s) = br_lock s" "br_started (goto i p s) = br_started s"
  "br_point (goto i p s) j = (if j = i then p else br_point s j)"
  by (simp_all add: goto_def)

lemma holding_simps [simp]:
  "\<not> holding Testing" "\<not> holding Locking" "holding Retesting" "holding (Assigning l)" "\<not> holding Returning" "\<not> holding (Got l)"
  by (simp_all add: holding_def)

lemma point_okD:
  "bridge_inv s \<Longrightarrow> point_ok s i"
  by (simp add: bridge_inv_def)

lemma bridge_inv_init: "bridge_inv bridge_init"
  by (simp add: bridge_inv_def bridge_init_def point_ok_def)

lemma unassigned:
  assumes "bridge_inv s" "br_point s i = Retesting" "br_loop s = None"
  shows "br_started s = []"
proof -
  have lock: "br_lock s = Some i" using point_okD [OF assms(1), of i] assms(2) by (simp add: point_ok_def)
  have "br_point s j \<noteq> Assigning l" for j l
    using point_okD [OF assms(1), of j] lock assms(2) by (cases "j = i") (auto simp: point_ok_def)
  with assms show ?thesis by (auto simp: bridge_inv_def)
qed

definition only_loop :: "bridge \<Rightarrow> bool" where
  "only_loop s \<longleftrightarrow> (case br_loop s of Some l \<Rightarrow> br_started s = [l]
     | None \<Rightarrow> br_started s = [] \<or> (\<exists>i l. br_point s i = Assigning l))"

lemma bridge_inv_iff: "bridge_inv s \<longleftrightarrow> (\<forall>i. point_ok s i) \<and> only_loop s"
  by (simp add: bridge_inv_def only_loop_def)

lemma bridge_step_inv:
  assumes "bridge_step i s s'" "bridge_inv s"
  shows "bridge_inv s'"
  unfolding bridge_inv_iff
proof (intro conjI allI)
  have pt: "point_ok s j" for j using assms(2) by (rule point_okD)
  have un: "br_point s i = Retesting \<Longrightarrow> br_loop s = None \<Longrightarrow> br_started s = []" by (rule unassigned [OF assms(2)])
  fix j
  from assms(1) show "point_ok s' j"
    by (cases rule: bridge_stepE; insert pt [of j] pt [of i] un; cases "br_point s j")
      (auto simp: point_ok_def start_background_loop_def split: if_splits)
  from assms(1) show "only_loop s'"
  proof cases
    case (B_assign l)
    with pt [of i] show ?thesis by (simp add: only_loop_def point_ok_def)
  next
    case (B_start l t)
    then show ?thesis by (auto simp: only_loop_def start_background_loop_def)
  qed (use assms(2) in \<open>auto simp: only_loop_def bridge_inv_iff split: option.splits; metis point.distinct\<close>)+
qed

lemma reachable_inv: "(any_step T)\<^sup>*\<^sup>* bridge_init s \<Longrightarrow> bridge_inv s"
  by (induction rule: rtranclp_induct) (auto simp: any_step_def bridge_inv_init intro: bridge_step_inv)

subsection \<open>Every thread gets the loop\<close>

fun rank :: "point \<Rightarrow> nat" where
  "rank Testing = 5" | "rank Locking = 4" | "rank Retesting = 3" | "rank (Assigning l) = 2" | "rank Returning = 1"
| "rank (Got l) = 0"

definition work :: "thread set \<Rightarrow> bridge \<Rightarrow> nat" where
  "work T s = (\<Sum>i \<in> T. rank (br_point s i))"

lemma step_rank:
  assumes "bridge_step i s s'"
  shows "rank (br_point s' i) < rank (br_point s i)" "j \<noteq> i \<Longrightarrow> br_point s' j = br_point s j"
  using assms by (auto simp: start_background_loop_def elim!: bridge_stepE)

lemma work_decreases:
  assumes "finite T" "any_step T s s'"
  shows "work T s' < work T s"
proof -
  from assms(2) obtain i where i: "i \<in> T" "bridge_step i s s'" by (auto simp: any_step_def)
  have "rank (br_point s' j) \<le> rank (br_point s j)" for j
    using step_rank(1) [OF i(2)] step_rank(2) [OF i(2), of j] by (cases "j = i") auto
  then show ?thesis unfolding work_def using assms(1) i(1) step_rank(1) [OF i(2)] by (intro sum_strict_mono_ex1) auto
qed

lemma others_wait:
  assumes "(any_step T)\<^sup>*\<^sup>* bridge_init s" "i \<notin> T"
  shows "br_point s i = Testing"
  using assms
proof (induction rule: rtranclp_induct)
  case (step y z)
  then obtain j where j: "j \<in> T" "bridge_step j y z" by (auto simp: any_step_def)
  with step.prems have "i \<noteq> j" by auto
  from step_rank(2) [OF j(2) this] step show ?case by simp
qed (simp add: bridge_init_def)

lemma no_deadlock:
  assumes "(any_step T)\<^sup>*\<^sup>* bridge_init s" "i \<in> T" "\<And>l. br_point s i \<noteq> Got l"
  shows "\<exists>s'. any_step T s s'"
proof -
  have inv: "bridge_inv s" by (rule reachable_inv [OF assms(1)])
  have "\<exists>j s'. j \<in> T \<and> bridge_step j s s'"
  proof (cases "br_point s i")
    case Testing
    then show ?thesis using assms(2) B_fast B_slow by metis
  next
    case Locking
    show ?thesis
    proof (cases "br_lock s")
      case None
      with Locking assms(2) B_acquire show ?thesis by blast
    next
      case (Some j)
      then have h: "holding (br_point s j)" using point_okD [OF inv, of j] by (simp add: point_ok_def)
      then have "j \<in> T" using others_wait [OF assms(1), of j] by (cases "j \<in> T") auto
      moreover have "\<exists>s'. bridge_step j s s'"
        using h B_exists [of s j] B_start [of s j] B_assign [of s j] unfolding holding_def by (metis surj_pair)
      ultimately show ?thesis by blast
    qed
  next
    case Retesting
    then show ?thesis using assms(2) B_exists [of s i] B_start [of s i] by (metis surj_pair)
  next
    case (Assigning l)
    then show ?thesis using assms(2) B_assign by blast
  next
    case Returning
    then have "br_loop s \<noteq> None" using point_okD [OF inv, of i] by (simp add: point_ok_def)
    with Returning assms(2) B_return show ?thesis by blast
  next
    case (Got l)
    with assms(3) show ?thesis by blast
  qed
  then show ?thesis by (auto simp: any_step_def)
qed

text \<open>C18: the background loop under concurrent first use. In any interleaving of any number of threads that
  call \<open>_LazyBackgroundLoop.get\<close>, at most one event loop is ever started and every thread that returns
  has that one. The threads cannot deadlock, and they take at most five steps each, so all of them
  do return.\<close>

theorem lazy_loop_started_once:
  assumes "finite T" and "((any_step T) ^^ n) bridge_init s"
  shows "length (br_started s) \<le> 1 \<and> (\<forall>i l. br_point s i = Got l \<longrightarrow> br_started s = [l])
    \<and> n \<le> 5 * card T
    \<and> ((\<forall>s'. \<not> any_step T s s') \<longrightarrow> (\<forall>i \<in> T. \<exists>l. br_point s i = Got l))"
proof -
  have reach: "(any_step T)\<^sup>*\<^sup>* bridge_init s" using assms(2) by (rule relpowp_imp_rtranclp)
  have inv: "bridge_inv s" by (rule reachable_inv [OF reach])
  have pt: "point_ok s i" for i by (rule point_okD [OF inv])
  have "only_loop s" using inv by (simp add: bridge_inv_iff)
  then have one: "br_loop s = Some l \<Longrightarrow> br_started s = [l]" for l by (simp add: only_loop_def)
  have "length (br_started s) \<le> 1"
  proof (cases "br_loop s")
    case None
    with \<open>only_loop s\<close> have "br_started s = [] \<or> (\<exists>i l. br_point s i = Assigning l)" by (simp add: only_loop_def)
    then show ?thesis
    proof
      assume "\<exists>i l. br_point s i = Assigning l"
      then obtain i l where "br_point s i = Assigning l" by blast
      with pt [of i] show ?thesis by (simp add: point_ok_def)
    qed simp
  qed (simp add: one)
  moreover have "br_point s i = Got l \<Longrightarrow> br_started s = [l]" for i l
    using pt [of i] by (intro one) (simp add: point_ok_def)
  moreover have "(any_step T ^^ n) a b \<Longrightarrow> work T b + n \<le> work T a" for a b
  proof (induction n arbitrary: b)
    case (Suc n)
    then obtain c where "(any_step T ^^ n) a c" "any_step T c b" by auto
    with Suc.IH [of c] work_decreases [OF assms(1), of c b] show ?case by simp
  qed simp
  from this [OF assms(2)] have "n \<le> 5 * card T" by (simp add: work_def bridge_init_def)
  moreover have "(\<forall>s'. \<not> any_step T s s') \<longrightarrow> (\<forall>i \<in> T. \<exists>l. br_point s i = Got l)"
    using no_deadlock [OF reach] by blast
  ultimately show ?thesis by blast
qed

subsection \<open>Calling asynchronous code from synchronous code\<close>

definition would_deadlock :: exc where
  "would_deadlock = RuntimeError (''run_sync() cannot be called from a coroutine already running '' @
     ''on run_sync's own background loop -- this would deadlock'')"

text \<open>\<open>running\<close> is the loop of the calling thread, if it runs one.\<close>

definition run_sync :: "loop \<Rightarrow> loop option \<Rightarrow> ('a, 's) comp \<Rightarrow> ('a, 's) comp" where
  "run_sync background running coro = (if running = Some background then raise would_deadlock else coro)"

lemma run_sync_from_elsewhere [simp]: "running \<noteq> Some background \<Longrightarrow> run_sync background running coro = coro"
  by (simp add: run_sync_def)

lemma run_sync_reentrant: "run_sync background (Some background) coro s = (Inl would_deadlock, s)"
  by (simp add: run_sync_def)

subsection \<open>What is kept per event loop\<close>

text \<open>The two \<open>WeakKeyDictionary\<close> registries: a client (or a session factory) is known by its number.\<close>

record registry =
  rg_clients :: "loop \<rightharpoonup> nat"
  rg_built :: nat

definition empty_registry :: registry where "empty_registry = \<lparr>rg_clients = Map.empty, rg_built = 0\<rparr>"

definition no_running_loop :: exc where "no_running_loop = RuntimeError ''no running event loop''"

definition per_loop :: "loop option \<Rightarrow> (nat, registry) comp" where
  "per_loop running r =
     (case running of None \<Rightarrow> (Inl no_running_loop, r)
      | Some l \<Rightarrow>
          (case rg_clients r l of Some c \<Rightarrow> (Inr c, r)
           | None \<Rightarrow> (Inr (rg_built r), r\<lparr>rg_clients := (rg_clients r)(l \<mapsto> rg_built r), rg_built := rg_built r + 1\<rparr>)))"

text \<open>How a client and an engine are built.\<close>

record redis_options =
  ro_url :: string
  ro_socket_connect_timeout :: py_float
  ro_socket_timeout :: py_float
  ro_decode_responses :: bool

definition get_redis_client :: "settings \<Rightarrow> loop option \<Rightarrow> (nat \<times> redis_options, registry) comp" where
  "get_redis_client S running = bind (per_loop running) (\<lambda>c. ret (c,
     \<lparr>ro_url = redis_url S, ro_socket_connect_timeout = redis_connect_timeout_seconds S,
      ro_socket_timeout = redis_connect_timeout_seconds S, ro_decode_responses = True\<rparr>))"

record session_options =
  so_url :: string
  so_pool_pre_ping :: bool
  so_expire_on_commit :: bool

definition build_session_factory :: "settings \<Rightarrow> session_options" where
  "build_session_factory S = \<lparr>so_url = database_url S, so_pool_pre_ping = True, so_expire_on_commit = False\<rparr>"

definition async_session_factory :: "settings \<Rightarrow> loop option \<Rightarrow> (nat \<times> session_options, registry) comp" where
  "async_session_factory S running = bind (per_loop running) (\<lambda>c. ret (c, build_session_factory S))"

text \<open>What happens to a registry: it is asked, or a loop is garbage collected and its entry with it.\<close>

datatype registry_event = Asked "loop option" | Collected loop

fun registry_run :: "registry_event list \<Rightarrow> registry \<Rightarrow> (loop \<times> nat) list \<times> registry" where
  "registry_run [] r = ([], r)"
| "registry_run (Asked running # es) r =
     (case per_loop running r of
        (Inl e, r') \<Rightarrow> registry_run es r'
      | (Inr c, r') \<Rightarrow> (case registry_run es r' of (as, r'') \<Rightarrow> ((the running, c) # as, r'')))"
| "registry_run (Collected l # es) r = registry_run es (r\<lparr>rg_clients := (rg_clients r)(l := None)\<rparr>)"

definition owned :: "(nat \<Rightarrow> loop) \<Rightarrow> registry \<Rightarrow> bool" where
  "owned own r \<longleftrightarrow> (\<forall>l c. rg_clients r l = Some c \<longrightarrow> c < rg_built r \<and> own c = l)"

lemma registry_run_owned:
  assumes "registry_run es r = (as, r')" "owned own r"
  shows "\<exists>own'. (\<forall>c < rg_built r. own' c = own c) \<and> owned own' r' \<and> rg_built r \<le> rg_built r'
    \<and> (\<forall>(l, c) \<in> set as. c < rg_built r' \<and> own' c = l)"
  using assms
proof (induction es r arbitrary: as own rule: registry_run.induct)
  case (1 r)
  then show ?case by auto
next
  case (2 running es r)
  show ?case
  proof (cases "per_loop running r")
    case (Pair x r1)
    show ?thesis
    proof (cases x)
      case (Inl e)
      then have "r1 = r" using Pair by (auto simp: per_loop_def split: option.splits)
      with 2 Pair Inl show ?thesis by auto
    next
      case (Inr c)
      then obtain l where l: "running = Some l" using Pair by (auto simp: per_loop_def split: option.splits)
      from 2(3) Pair Inr obtain as1 where run: "registry_run es r1 = (as1, r')" and as: "as = (l, c) # as1"
        using l by (auto split: prod.splits)
      define own1 where "own1 = (if rg_clients r l = None then own(rg_built r := l) else own)"
      have o1: "owned own1 r1" "rg_built r \<le> rg_built r1" "c < rg_built r1" "own1 c = l" "\<forall>d < rg_built r. own1 d = own d"
        using Pair Inr l 2(4) by (auto simp: per_loop_def owned_def own1_def split: option.splits if_splits) fastforce+
      from 2(2) [OF Pair [symmetric] Inr run o1(1)] o1 obtain own' where
        "\<forall>d < rg_built r1. own' d = own1 d" "owned own' r'" "rg_built r1 \<le> rg_built r'"
        "\<forall>(l, c) \<in> set as1. c < rg_built r' \<and> own' c = l" by auto
      with o1 as show ?thesis by (intro exI [of _ own']) auto
    qed
  qed
next
  case (3 l es r)
  have "owned own (r\<lparr>rg_clients := (rg_clients r)(l := None)\<rparr>)" using 3(3) by (auto simp: owned_def)
  from 3(1) [OF _ this, of as] 3(2) show ?case by auto
qed

lemma registry_run_stable:
  assumes "registry_run es r = (as, r')" "rg_clients r l = Some c" "Collected l \<notin> set es" "(l, c') \<in> set as"
  shows "c' = c"
  using assms
proof (induction es r arbitrary: as rule: registry_run.induct)
  case (2 running es r)
  obtain x r1 where x: "per_loop running r = (x, r1)" by fastforce
  then have keep: "rg_clients r1 l = Some c" using 2(4) by (auto simp: per_loop_def split: option.splits)
  show ?case
  proof (cases x)
    case (Inl e)
    with 2 x keep show ?thesis by auto
  next
    case (Inr d)
    then obtain as1 where run: "registry_run es r1 = (as1, r')" and as: "as = (the running, d) # as1"
      using 2(3) x by (auto split: prod.splits)
    have "the running = l \<Longrightarrow> d = c" using x Inr 2(4) by (auto simp: per_loop_def split: option.splits)
    with as 2(2) [OF x [symmetric] Inr run keep] 2(5,6) show ?thesis by auto
  qed
next
  case (3 k es r)
  then show ?case by auto
qed simp

lemma registry_run_same:
  assumes "registry_run es r = (as, r')" "Collected l \<notin> set es" "(l, c) \<in> set as" "(l, c') \<in> set as"
  shows "c = c'"
  using assms
proof (induction es r arbitrary: as rule: registry_run.induct)
  case (2 running es r)
  obtain x r1 where x: "per_loop running r = (x, r1)" by fastforce
  show ?case
  proof (cases x)
    case (Inl e)
    with 2 x show ?thesis by auto
  next
    case (Inr d)
    then obtain as1 where run: "registry_run es r1 = (as1, r')" and as: "as = (the running, d) # as1"
      using 2(3) x by (auto split: prod.splits)
    have "the running = l \<Longrightarrow> rg_clients r1 l = Some d" using x Inr by (auto simp: per_loop_def split: option.splits)
    then have "the running = l \<Longrightarrow> (l, e) \<in> set as1 \<Longrightarrow> e = d" for e
      using registry_run_stable [OF run] 2(4) by simp
    with as 2(2) [OF x [symmetric] Inr run] 2(4-6) show ?thesis by auto
  qed
next
  case (3 k es r)
  then show ?case by auto
qed simp

text \<open>C23: the per-loop registries, which \<open>get_redis_client\<close> and \<open>async_session_factory\<close> ask, over any sequence
  of calls from any loops and collections of loops: no client is ever handed to two loops, and a
  loop that is not collected gets the same client every time.\<close>

theorem clients_stay_on_their_loop:
  assumes "registry_run es empty_registry = (as, r)" and "(l, c) \<in> set as" and "(l', c') \<in> set as"
  shows "(c = c' \<longrightarrow> l = l') \<and> (l = l' \<longrightarrow> Collected l \<notin> set es \<longrightarrow> c = c')"
proof -
  have "owned (\<lambda>c. 0) empty_registry" by (simp add: owned_def empty_registry_def)
  from registry_run_owned [OF assms(1) this] obtain own where "\<forall>(l, c) \<in> set as. own c = l" by fast
  then have "own c = l" "own c' = l'" using assms(2,3) by auto
  with assms registry_run_same [OF assms(1), of l c c'] show ?thesis by auto
qed

subsection \<open>Witnesses\<close>

theorem lazy_loop_started_once_witness:
  "\<exists>s. ((any_step {0, 1}) ^^ 3) bridge_init s \<and> br_point s 0 = Assigning 0 \<and> length (br_started s) \<le> 1"
proof -
  let ?a = "goto 0 Locking bridge_init"
  let ?b = "goto 0 Retesting (?a\<lparr>br_lock := Some 0\<rparr>)"
  obtain l c where c: "start_background_loop ?b = (l, c)" by fastforce
  let ?c = "goto 0 (Assigning l) c"
  have "bridge_step 0 bridge_init ?a" by (rule B_slow) (simp_all add: bridge_init_def)
  moreover have "bridge_step 0 ?a ?b" by (rule B_acquire) (simp_all add: bridge_init_def)
  moreover have "bridge_step 0 ?b ?c" by (rule B_start [OF _ _ c]) (simp_all add: bridge_init_def goto_def)
  ultimately have "((any_step {0, 1}) ^^ 3) bridge_init ?c"
    unfolding numeral_3_eq_3 relpowp.simps any_step_def by (auto intro!: relcomppI)
  moreover have "br_point ?c 0 = Assigning 0"
    using c by (auto simp: start_background_loop_def bridge_init_def goto_def)
  ultimately show ?thesis using lazy_loop_started_once [of "{0, 1}" 3 ?c] by auto
qed

theorem clients_stay_on_their_loop_witness:
  "\<exists>as r. registry_run [Asked (Some 7), Asked None, Asked (Some 9), Asked (Some 7)] empty_registry = (as, r)
   \<and> (7, 0) \<in> set as \<and> (9, 1) \<in> set as \<and> (0 = (1 :: nat) \<longrightarrow> 7 = (9 :: loop))"
proof -
  let ?es = "[Asked (Some 7), Asked None, Asked (Some 9), Asked (Some 7)]"
  obtain as r where run: "registry_run ?es empty_registry = (as, r)" by fastforce
  then have "(7, 0) \<in> set as" "(9, 1) \<in> set as" by (auto simp: per_loop_def empty_registry_def)
  with clients_stay_on_their_loop [OF run this] run show ?thesis by blast
qed

end
