(* ===== verification/Migration_Env.thy ===== *)
theory Migration_Env
  imports Migrations_Facts Async_Bridge
begin

section \<open>The environment of the migrations\<close>

text \<open>
  \<^verbatim>\<open>alembic/env.py\<close>: the URL of the settings becomes an option of Alembic's configuration, a
  \<^verbatim>\<open>ConfigParser\<close>, and is read back from there, offline or to open the connection. Setting an option
  checks, and reading it replaces, the percent signs; opening the connection is the argument \<open>connect\<close>.
\<close>

text \<open>\<^verbatim>\<open>BasicInterpolation\<close>: a doubled percent sign stands for one, a single one is refused by \<^verbatim>\<open>set\<close>. A reference
  \<open>%(name)s\<close> to another option is outside the model, and refused like one to an unknown option.\<close>

fun interpolate :: "string \<Rightarrow> exc + string" where
  "interpolate [] = Inr []"
| "interpolate (c # s) =
     (if c \<noteq> CHR ''%'' then map_sum id (\<lambda>t. c # t) (interpolate s)
      else case s of
             [] \<Rightarrow> Inl (ValueError ''invalid interpolation syntax'')
           | d # s' \<Rightarrow>
               if d = CHR ''%'' then map_sum id (\<lambda>t. d # t) (interpolate s')
               else if d = CHR ''('' then Inl (OtherExc ''InterpolationMissingOptionError'')
               else Inl (ValueError ''invalid interpolation syntax''))"

definition main_url :: "settings \<Rightarrow> exc + string" where
  "main_url S = interpolate (database_url S)"

definition run_migrations_online ::
  "(string \<Rightarrow> exc option) \<Rightarrow> string \<Rightarrow> (unit, migrated) comp \<Rightarrow> (unit, migrated) comp" where
  "run_migrations_online connect url migrate m =
     (case connect url of Some e \<Rightarrow> (Inl e, m) | None \<Rightarrow> migrate m)"

text \<open>The whole file: the script that an offline run writes, and the database after an online one. \<open>start\<close> is
  the version an offline script begins at, \<open>migrate\<close> the command that is run.\<close>

definition alembic_env ::
  "settings \<Rightarrow> bool \<Rightarrow> string option \<Rightarrow> (string \<Rightarrow> exc option) \<Rightarrow> (unit, migrated) comp \<Rightarrow> (script_item list, migrated) comp" where
  "alembic_env S offline start connect migrate m =
     (case main_url S of Inl e \<Rightarrow> (Inl e, m)
      | Inr url \<Rightarrow>
          if offline then (Inr (run_migrations_offline start), m)
          else bind (run_migrations_online connect url migrate) (\<lambda>_. ret []) m)"

subsection \<open>Which database is migrated\<close>

lemma interpolate_length:
  "interpolate s = Inr t \<Longrightarrow> length t \<le> length s \<and> (length t = length s \<longleftrightarrow> CHR ''%'' \<notin> set s)"
proof (induction s arbitrary: t rule: interpolate.induct)
  case (2 c s)
  show ?case
  proof (cases "c = CHR ''%''")
    case False
    with "2.prems" obtain u where "interpolate s = Inr u" "t = c # u" by (cases "interpolate s") auto
    with "2.IH"(1) [OF False this(1)] False show ?thesis by auto
  next
    case True
    with "2.prems" obtain s' u where s: "s = CHR ''%'' # s'" "interpolate s' = Inr u" "t = CHR ''%'' # u"
      by (cases s; cases "interpolate (tl s)") (auto split: if_splits)
    from "2.IH"(2) [OF _ s(1) refl s(2)] True have "length u \<le> length s'" by simp
    with s True show ?thesis by simp
  qed
qed simp

lemma interpolate_plain: "CHR ''%'' \<notin> set s \<Longrightarrow> interpolate s = Inr s"
  by (induction s) auto

text \<open>The migrations reach the URL that the service itself opens exactly when it has no percent sign.\<close>

lemma main_url_iff: "main_url S = Inr (database_url S) \<longleftrightarrow> CHR ''%'' \<notin> set (database_url S)"
  unfolding main_url_def using interpolate_plain interpolate_length by blast

text \<open>A percent-encoded character, such as an \<open>@\<close> in a password, stops every command of Alembic.\<close>

lemma encoded_character_refused:
  assumes "CHR ''%'' \<notin> set p" and "d \<noteq> CHR ''%''" and "d \<noteq> CHR ''(''"
    and "database_url S = p @ CHR ''%'' # d # q"
  shows "alembic_env S offline start connect migrate m = (Inl (ValueError ''invalid interpolation syntax''), m)"
proof -
  have "interpolate (p @ CHR ''%'' # d # q) = Inl (ValueError ''invalid interpolation syntax'')"
    using assms(1-3) by (induction p) auto
  with assms(4) show ?thesis by (simp add: alembic_env_def main_url_def)
qed

lemma env_online:
  assumes "CHR ''%'' \<notin> set (database_url S)"
  shows "alembic_env S False start connect migrate m
    = (case connect (database_url S) of Some e \<Rightarrow> (Inl e, m) | None \<Rightarrow> bind migrate (\<lambda>_. ret []) m)"
proof -
  have "main_url S = Inr (database_url S)" using assms by (simp add: main_url_iff)
  then show ?thesis by (simp add: alembic_env_def run_migrations_online_def bind_def split: option.split)
qed

text \<open>C19: whether Alembic and the service use the same database. The URL that the migrations connect to is that of
  the engine of the service exactly when it has no percent sign: then an online command runs there if the connection
  opens, and otherwise changes nothing. When the first percent sign encodes a character, as in a
  password with an \<open>@\<close>, every command, online or offline, is refused with a \<open>ValueError\<close> and changes
  nothing, although the service accepts the same URL.\<close>

theorem migrations_use_the_service_database:
  "(main_url S = Inr (so_url (build_session_factory S)) \<longleftrightarrow> CHR ''%'' \<notin> set (database_url S))
   \<and> (CHR ''%'' \<notin> set (database_url S) \<longrightarrow> alembic_env S False start connect migrate m =
        (case connect (so_url (build_session_factory S)) of Some e \<Rightarrow> (Inl e, m) | None \<Rightarrow> bind migrate (\<lambda>_. ret []) m))
   \<and> (\<forall>p c q. so_url (build_session_factory S) = p @ CHR ''%'' # c # q \<and> CHR ''%'' \<notin> set p \<and> c \<noteq> CHR ''%'' \<and> c \<noteq> CHR ''('' \<longrightarrow>
        alembic_env S offline start connect migrate m = (Inl (ValueError ''invalid interpolation syntax''), m))"
  unfolding build_session_factory_def session_options.simps
  using main_url_iff env_online encoded_character_refused by blast

definition encoded_settings :: settings where
  "encoded_settings = default_settings\<lparr>database_url := ''postgresql+asyncpg://app:p%40ss@db/app''\<rparr>"

theorem migrations_use_the_service_database_witness:
  "\<forall>d m. alembic_env encoded_settings False None (\<lambda>url. None) (upgrade_head d) m = (Inl (ValueError ''invalid interpolation syntax''), m)
   \<and> alembic_env default_settings False None (\<lambda>url. None) (upgrade_head d) m = bind (upgrade_head d) (\<lambda>_. ret []) m"
proof (intro allI conjI)
  fix d m
  have "so_url (build_session_factory encoded_settings) = ''postgresql+asyncpg://app:p'' @ CHR ''%'' # CHR ''4'' # ''0ss@db/app''"
    by (simp add: build_session_factory_def encoded_settings_def)
  moreover have "CHR ''%'' \<notin> set ''postgresql+asyncpg://app:p'' \<and> CHR ''4'' \<noteq> CHR ''%'' \<and> CHR ''4'' \<noteq> CHR ''(''" by simp
  ultimately show "alembic_env encoded_settings False None (\<lambda>url. None) (upgrade_head d) m = (Inl (ValueError ''invalid interpolation syntax''), m)"
    using migrations_use_the_service_database by blast
  have "CHR ''%'' \<notin> set (database_url default_settings)" by (simp add: default_settings_def)
  with migrations_use_the_service_database
  show "alembic_env default_settings False None (\<lambda>url. None) (upgrade_head d) m = bind (upgrade_head d) (\<lambda>_. ret []) m"
    by simp
qed

end
