(* ===== verification/Application.thy ===== *)
theory Application
  imports Supervisor_Api
begin

section \<open>The application: logging, rate limiting and the routes\<close>

text \<open>
  \<^verbatim>\<open>backend/main.py\<close>, \<^verbatim>\<open>core/logging.py\<close> and \<^verbatim>\<open>core/rate_limit.py\<close>. The module globals are the record
  \<open>process\<close>; a start of the application is \<open>startup\<close>. slowapi, which counts the requests, and
  Starlette, which runs the middleware, are not modelled: a limit is the string that the route
  declares, a middleware or an exception handler its name.
\<close>

subsection \<open>Logging\<close>

definition LOG_FORMAT :: string where
  "LOG_FORMAT = ''%(asctime)s | %(levelname)-8s | %(name)s | %(message)s''"

definition DATE_FORMAT :: string where "DATE_FORMAT = ''%Y-%m-%dT%H:%M:%S%z''"

definition INFO :: int where "INFO = 20"

text \<open>The root logger, with the format and date format of each handler, and \<open>_configured\<close>.\<close>

record log_state =
  lg_configured :: bool
  lg_level :: int
  lg_handlers :: "(string \<times> string) list"

definition configure_logging :: "int \<Rightarrow> log_state \<Rightarrow> log_state" where
  "configure_logging level s =
     (if lg_configured s then s
      else s\<lparr>lg_level := level, lg_handlers := lg_handlers s @ [(LOG_FORMAT, DATE_FORMAT)], lg_configured := True\<rparr>)"

lemma configure_logging_idem [simp]: "configure_logging l (configure_logging k s) = configure_logging k s"
  by (simp add: configure_logging_def)

lemma configure_logging_once: "fold configure_logging (l # ls) s = configure_logging l s"
  by (induction ls) simp_all

subsection \<open>Rate limiting\<close>

definition REDIS_OUTAGE_FALLBACK_LIMIT :: string where "REDIS_OUTAGE_FALLBACK_LIMIT = ''20/minute''"

record limiter =
  lm_storage_uri :: string
  lm_socket_connect_timeout :: py_float
  lm_socket_timeout :: py_float
  lm_in_memory_fallback_enabled :: bool
  lm_in_memory_fallback :: "string list"

definition build_limiter :: "settings \<Rightarrow> limiter" where
  "build_limiter S = \<lparr>lm_storage_uri = redis_url S,
     lm_socket_connect_timeout = redis_connect_timeout_seconds S,
     lm_socket_timeout = redis_connect_timeout_seconds S,
     lm_in_memory_fallback_enabled = True, lm_in_memory_fallback = [REDIS_OUTAGE_FALLBACK_LIMIT]\<rparr>"

type_synonym key_resolver = "datetime \<Rightarrow> http_request \<Rightarrow> exc + string"

definition resolve_key :: "key_resolver option \<Rightarrow> key_resolver" where
  "resolve_key resolver now request =
     (case resolver of Some f \<Rightarrow> f now request | None \<Rightarrow> Inr (''ip:'' @ rq_remote_address request))"

text \<open>An exception that reaches a handler: \<open>RateLimitExceeded\<close>, or another one.\<close>

datatype handled = RateLimitExceeded | OtherError exc

definition assertion_error :: exc where "assertion_error = OtherExc ''AssertionError''"

text \<open>The log of warnings is the state; the answer is the status code.\<close>

definition log_and_handle_rate_limit_exceeded ::
    "key_resolver option \<Rightarrow> datetime \<Rightarrow> http_request \<Rightarrow> string \<Rightarrow> string \<Rightarrow> handled \<Rightarrow> (nat, string list) comp" where
  "log_and_handle_rate_limit_exceeded resolver now request meth path e warnings =
     (case e of OtherError _ \<Rightarrow> (Inl assertion_error, warnings)
      | RateLimitExceeded \<Rightarrow>
          (case resolve_key resolver now request of Inl x \<Rightarrow> (Inl x, warnings)
           | Inr k \<Rightarrow> (Inr 429, warnings @ [''Rate limit exceeded for '' @ k @ '' on '' @ meth @ '' '' @ path])))"

subsection \<open>Routes\<close>

datatype guard = Anyone | ActiveUser | AnyOf "user_role list"

record route =
  rt_method :: string
  rt_path :: string
  rt_limit :: "string option"
  rt_guard :: guard

definition LOGIN_RATE_LIMIT :: string where "LOGIN_RATE_LIMIT = ''5/minute''"
definition APPROVAL_DECISION_RATE_LIMIT :: string where "APPROVAL_DECISION_RATE_LIMIT = ''30/minute''"
definition TICKET_CREATION_RATE_LIMIT :: string where "TICKET_CREATION_RATE_LIMIT = ''10/minute''"

abbreviation (input) endpoint :: "string \<Rightarrow> string \<Rightarrow> string option \<Rightarrow> guard \<Rightarrow> route" where
  "endpoint m p l g \<equiv> \<lparr>rt_method = m, rt_path = p, rt_limit = l, rt_guard = g\<rparr>"

definition health_router :: "route list" where
  "health_router = [endpoint ''GET'' ''/health'' None Anyone]"

definition auth_router :: "route list" where
  "auth_router =
    [endpoint ''POST'' ''/auth/login'' (Some LOGIN_RATE_LIMIT) Anyone,
     endpoint ''GET'' ''/auth/me'' None ActiveUser]"

definition supervisor_router :: "route list" where
  "supervisor_router =
    [endpoint ''GET'' ''/supervisor/queue'' None (AnyOf SUPERVISOR_ROLES),
     endpoint ''GET'' ''/supervisor/queue/{ticket_id}'' None (AnyOf SUPERVISOR_ROLES),
     endpoint ''POST'' ''/supervisor/queue/{ticket_id}/approve'' (Some APPROVAL_DECISION_RATE_LIMIT) (AnyOf SUPERVISOR_ROLES),
     endpoint ''POST'' ''/supervisor/queue/{ticket_id}/edit'' (Some APPROVAL_DECISION_RATE_LIMIT) (AnyOf SUPERVISOR_ROLES),
     endpoint ''POST'' ''/supervisor/queue/{ticket_id}/reject'' (Some APPROVAL_DECISION_RATE_LIMIT) (AnyOf SUPERVISOR_ROLES)]"

definition tickets_router :: "route list" where
  "tickets_router = [endpoint ''POST'' ''/tickets'' (Some TICKET_CREATION_RATE_LIMIT) ActiveUser]"

definition customers_router :: "route list" where
  "customers_router = [endpoint ''GET'' ''/customers'' None ActiveUser]"

subsection \<open>Startup\<close>

record app =
  app_title :: string
  app_version :: string
  app_debug :: bool
  app_limiter :: "limiter option"
  app_exception_handlers :: "string list"
  app_middleware :: "string list"
  app_routes :: "route list"

record process =
  pr_logging :: log_state
  pr_key_resolver :: "key_resolver option"
  pr_app :: "app option"

definition register_key_resolver :: "key_resolver \<Rightarrow> process \<Rightarrow> process" where
  "register_key_resolver resolver p = p\<lparr>pr_key_resolver := Some resolver\<rparr>"

definition configure_rate_limiting :: "limiter \<Rightarrow> app \<Rightarrow> app" where
  "configure_rate_limiting l a = a\<lparr>app_limiter := Some l,
     app_exception_handlers := app_exception_handlers a @ [''RateLimitExceeded''],
     app_middleware := app_middleware a @ [''SlowAPIMiddleware'']\<rparr>"

definition include_router :: "route list \<Rightarrow> app \<Rightarrow> app" where
  "include_router rs a = a\<lparr>app_routes := app_routes a @ rs\<rparr>"

definition startup :: "settings \<Rightarrow> auth_libs \<Rightarrow> process \<Rightarrow> process" where
  "startup S A p =
     (let p1 = p\<lparr>pr_logging := configure_logging INFO (pr_logging p)\<rparr>;
          app0 = \<lparr>app_title = app_name S, app_version = ''0.1.0'', app_debug = debug S, app_limiter = None,
                  app_exception_handlers = [], app_middleware = [], app_routes = []\<rparr>;
          p2 = register_key_resolver (resolve_rate_limit_key S A) p1;
          app1 = configure_rate_limiting (build_limiter S) app0;
          app2 = include_router customers_router (include_router tickets_router (include_router supervisor_router
                   (include_router auth_router (include_router health_router app1))));
          app3 = app2\<lparr>app_middleware := app_middleware app2 @ [''log_unhandled_exceptions'']\<rparr>
      in p2\<lparr>pr_app := Some (include_router [endpoint ''GET'' ''/'' None Anyone] app3)\<rparr>)"

text \<open>\<open>GET /\<close>.\<close>

definition root :: "settings \<Rightarrow> (string \<times> string) list" where
  "root S = [(''message'', app_name S @ '' is running.'')]"

text \<open>The middleware: it logs what escapes from the routes, and raises it again.\<close>

definition log_unhandled_exceptions :: "string \<Rightarrow> string \<Rightarrow> ('a, 's) comp \<Rightarrow> ('a, 's \<times> string list) comp" where
  "log_unhandled_exceptions meth path call_next s =
     (case call_next (fst s) of
        (Inr response, s') \<Rightarrow> (Inr response, (s', snd s))
      | (Inl e, s') \<Rightarrow> (Inl e, (s', snd s @ [''Unhandled exception on '' @ meth @ '' '' @ path])))"

subsection \<open>Facts\<close>

lemma log_unhandled_transparent:
  "fst (log_unhandled_exceptions m p f s) = fst (f (fst s)) \<and> fst (snd (log_unhandled_exceptions m p f s)) = snd (f (fst s))"
  by (auto simp: log_unhandled_exceptions_def split: prod.split sum.split)

lemma startup_routes:
  "map_option app_routes (pr_app (startup S A p)) = Some (health_router @ auth_router @ supervisor_router @ tickets_router
     @ customers_router @ [endpoint ''GET'' ''/'' None Anyone])"
  by (simp add: startup_def Let_def include_router_def configure_rate_limiting_def register_key_resolver_def)

lemmas router_defs = health_router_def auth_router_def supervisor_router_def tickets_router_def customers_router_def

text \<open>What every start of the application exposes, whatever state the process is in. Every route that
  changes state (\<open>POST\<close>) has a rate limit; every route but the liveness ones and the login requires a
  signed-in active user; everything under \<open>/supervisor\<close> requires the supervisor or administrator
  role; no two routes have the same method and path; the limiter counts with the keys of
  \<open>resolve_rate_limit_key\<close>; and starting twice installs the log handler once.\<close>

lemma startup_exposes_guarded_routes:
  "\<exists>a. pr_app (startup S A p) = Some a
    \<and> list_all (\<lambda>r. if rt_method r = ''POST'' then rt_limit r \<noteq> None else rt_limit r = None) (app_routes a)
    \<and> list_all (\<lambda>r. rt_guard r \<noteq> Anyone \<or> (rt_method r, rt_path r) \<in>
         {(''GET'', ''/''), (''GET'', ''/health''), (''POST'', ''/auth/login'')}) (app_routes a)
    \<and> list_all (\<lambda>r. if startswith ''/supervisor'' (rt_path r) then rt_guard r = AnyOf [SUPERVISOR, ADMIN]
         else rt_guard r \<noteq> AnyOf [SUPERVISOR, ADMIN]) (app_routes a)
    \<and> distinct (map (\<lambda>r. (rt_method r, rt_path r)) (app_routes a))
    \<and> resolve_key (pr_key_resolver (startup S A p)) = resolve_rate_limit_key S A
    \<and> pr_logging (startup S A (startup S A p)) = pr_logging (startup S A p)"
proof -
  obtain a where a: "pr_app (startup S A p) = Some a" and r: "app_routes a = health_router @ auth_router @ supervisor_router
     @ tickets_router @ customers_router @ [endpoint ''GET'' ''/'' None Anyone]"
    using startup_routes [of S A p] by auto
  have "resolve_key (pr_key_resolver (startup S A p)) = resolve_rate_limit_key S A"
    by (simp add: startup_def Let_def register_key_resolver_def resolve_key_def fun_eq_iff)
  moreover have "pr_logging (startup S A (startup S A p)) = pr_logging (startup S A p)"
    by (simp add: startup_def Let_def register_key_resolver_def)
  ultimately show ?thesis using a unfolding r
    by (intro exI [of _ a]) (simp add: r router_defs SUPERVISOR_ROLES_def)
qed

end
