(* ===== verification/Scripts.thy ===== *)
theory Scripts
  imports Ticket_Outcomes
begin

section \<open>The small scripts\<close>

text \<open>
  \<^verbatim>\<open>backend/scripts/run_workflow.py\<close>, \<^verbatim>\<open>export_workflow.py\<close> and \<^verbatim>\<open>test_openai.py\<close>.
\<close>

subsection \<open>The smoke run of the workflow\<close>

text \<open>
  \<^verbatim>\<open>backend/scripts/run_workflow.py\<close>: one run of the compiled graph on a sample ticket whose ids are new, so
  that no row of the database has them. The environment of the script is that of the service.
\<close>

definition SAMPLE_TICKET_TEXT :: string where
  "SAMPLE_TICKET_TEXT = ''I was billed twice for my subscription.''"

text \<open>The two ids are what the two calls of \<open>uuid4\<close> give.\<close>

definition run_initial_state :: "uuid \<Rightarrow> uuid \<Rightarrow> workflow_state" where
  "run_initial_state ticket_id customer_id =
     \<lparr>ws_ticket_id = ticket_id, ws_customer_id = customer_id, ws_ticket_text = SAMPLE_TICKET_TEXT,
      ws_category = None, ws_selected_agent = None, ws_retrieved_context = None, ws_draft_response = None,
      ws_agent_unresolved = None, ws_confidence_score = None, ws_requires_human_review = None,
      ws_matched_policy_rules = None, ws_workflow_status = Some WS_PENDING\<rparr>"

definition run_workflow :: "'r env \<Rightarrow> uuid \<Rightarrow> uuid \<Rightarrow> (workflow_state, 'r world) comp" where
  "run_workflow E ticket_id customer_id = invoke E (run_initial_state ticket_id customer_id)"

text \<open>\<open>_log_state\<close>: the lines it logs, from the keys and the \<open>str\<close> of the values.\<close>

definition ljust :: "nat \<Rightarrow> string \<Rightarrow> string" where
  "ljust width s = s @ replicate (width - length s) CHR '' ''"

definition state_lines :: "(string \<times> string) list \<Rightarrow> exc + string list" where
  "state_lines state =
     (if state = [] then Inl (OtherExc ''ValueError'')
      else let width = Max (set (map (\<lambda>(key, _). length key) state)) in
        Inr (''Final workflow state:'' # map (\<lambda>(key, v). ''  '' @ ljust width key @ '' : '' @ v) state))"

lemma state_lines_aligned:
  assumes "state_lines state = Inr (l # ls)"
  shows "\<exists>width. list_all2 (\<lambda>(key, v) line. line = ''  '' @ ljust width key @ '' : '' @ v \<and> length (ljust width key) = width) state ls"
proof -
  let ?w = "Max (set (map (\<lambda>(key, _). length key) state))"
  have "length key \<le> ?w" if "(key, v) \<in> set state" for key v
    using that by (intro Max_ge) force+
  moreover have "ls = map (\<lambda>(key, v). ''  '' @ ljust ?w key @ '' : '' @ v) state"
    using assms by (auto simp: state_lines_def Let_def split: if_splits)
  ultimately show ?thesis
    by (intro exI [of _ ?w]) (auto simp: list_all2_conv_all_nth ljust_def split_beta dest: nth_mem)
qed

text \<open>The sample ticket fires no rule of its own: it is reviewed only if the agent could not resolve it.\<close>

lemma sample_text_review: "requires_human_review (policy_of SAMPLE_TICKET_TEXT PLACEHOLDER_CONFIDENCE_SCORE u) \<longleftrightarrow> u"
proof -
  have "\<not> (\<exists>k \<in> set ESCALATION_KEYWORDS. contains k (py_lower SAMPLE_TICKET_TEXT))
    \<and> \<not> contains REFUND_KEYWORD (py_lower SAMPLE_TICKET_TEXT)
    \<and> \<not> float_less PLACEHOLDER_CONFIDENCE_SCORE LOW_CONFIDENCE_THRESHOLD"
    by code_simp
  then show ?thesis by (simp add: requires_review_iff)
qed

text \<open>The run completes and leaves every table as it was: when the reply needs a review, the foreign key of the
  request refuses the ticket that does not exist, and the node goes on without it.\<close>

lemma smoke_run_changes_no_table:
  assumes R: "redis_laws (e_redis E)" and ok: "clients_ok E" and law: "kickoff_law E T"
    and wf: "db_wf (w_db w)" and new: "i \<notin> set (ticket_ids (w_db w))"
  shows "\<exists>s' w'. run_workflow E i j w = (Inr s', w') \<and> ws_workflow_status s' = Some WS_COMPLETED
    \<and> ws_requires_human_review s' = ws_agent_unresolved s' \<and> w_db w' = w_db w"
proof -
  let ?s = "run_initial_state i j"
  obtain c r w' where
    inv: "invoke E ?s w = (Inr ((evaluated_state ?s c r)\<lparr>ws_workflow_status := Some WS_COMPLETED\<rparr>), w')"
    and db: "if the (ws_requires_human_review (evaluated_state ?s c r))
     then w_db w' \<in> {w_db w, with_review (e_db E) (evaluated_state ?s c r) (w_db w),
        with_event (e_db E) (evaluated_state ?s c r) (with_review (e_db E) (evaluated_state ?s c r) (w_db w))}
     else w_db w' = w_db w"
    using invoke_outcome [OF R ok law, of ?s w] by metis
  have "keeps db_wf (w_db w) (w_db w')"
    using stepsD [OF steps_invoke [OF R law, of "keeps db_wf"] inv] row_closed_wf
    by (simp add: row_closed_def world_rel_def)
  with wf have wf': "db_wf (w_db w')" by (simp add: keeps_def)
  have i: "ws_ticket_id ?s = i" "ws_ticket_text ?s = SAMPLE_TICKET_TEXT" by (simp_all add: run_initial_state_def)
  have "\<not> db_wf d" if "d \<in> {with_review (e_db E) (evaluated_state ?s c r) (w_db w),
        with_event (e_db E) (evaluated_state ?s c r) (with_review (e_db E) (evaluated_state ?s c r) (w_db w))}" for d
    using that new i(1) by (auto simp: db_wf_def approval_fk_def with_event_def with_review_def review_row_def ticket_ids_def)
  with db wf' have "w_db w' = w_db w" by (auto split: if_splits)
  then show ?thesis unfolding run_workflow_def using inv i(2) sample_text_review
    by (intro exI [of _ "(evaluated_state ?s c r)\<lparr>ws_workflow_status := Some WS_COMPLETED\<rparr>"] exI [of _ w']) simp
qed

text \<open>The run does use the language model, whatever the docstring says: without an API key it raises.\<close>

lemma smoke_run_needs_a_key:
  "run_workflow keyless_env i j live_world = (Inl (OtherExc ''no key''), live_world)"
  unfolding run_workflow_def by (rule keyless_invoke) simp

subsection \<open>The drawing and the connection test\<close>

text \<open>\<^verbatim>\<open>export_workflow.py\<close>: what LangGraph draws from the names of the nodes and the edges is the argument
  \<open>draw\<close>; the state is the file system, by path.\<close>

definition export_workflow ::
  "'r env \<Rightarrow> (string list \<Rightarrow> (string \<times> string) list \<Rightarrow> exc + 'p) \<Rightarrow> (unit, string \<Rightarrow> 'p option) comp" where
  "export_workflow E draw files =
     (let graph = build_workflow E
      in case draw (map fst (g_nodes graph)) (g_edges graph) of
           Inl e \<Rightarrow> (Inl e, files)
         | Inr png \<Rightarrow> (Inr (), files(''workflow.png'' \<mapsto> png)))"

text \<open>The picture does not depend on the environment: it is the same for every configuration.\<close>

lemma export_workflow_env: "export_workflow E draw files = export_workflow E' draw files"
  by (simp add: export_workflow_def build_workflow_def)

text \<open>\<^verbatim>\<open>test_openai.py\<close>: one prompt to the model that \<open>chat\<close> stands for, and the line that is logged. Unlike
  the agents, it asks for temperature 0 and sets no time limit.\<close>

record chat_config =
  ch_model :: string
  ch_api_key :: string
  ch_temperature :: py_float

definition test_openai :: "settings \<Rightarrow> (chat_config \<Rightarrow> string \<Rightarrow> exc + string) \<Rightarrow> exc + string" where
  "test_openai S chat =
     (case chat \<lparr>ch_model = llm_model S, ch_api_key = openai_api_key S, ch_temperature = Fin 0\<rparr>
             ''Say hello in one sentence.'' of
        Inl e \<Rightarrow> Inl e
      | Inr content \<Rightarrow> Inr (''Response: '' @ content))"

end
