(* ===== verification/Spec2Isabelle.thy ===== *)
theory Spec2Isabelle
  imports Witnesses Api_Invariant Idempotency_Protocol Load_Test_Run Migration_Env Async_Bridge Application Scripts
begin

text \<open>
  SupportOps AI: a customer-support service in Python (FastAPI, SQLAlchemy, Redis, LangGraph, CrewAI,
  OpenAI). A signed-in user posts a ticket; the service stores it, runs it through a workflow of six
  nodes (classify, select a specialist, draft a reply, apply the policy, persist), answers with the
  draft, and puts the tickets that a human must review in the queue of the supervisors, who approve,
  edit or reject the draft. A request may carry an idempotency key, so that a retry does not create a
  second ticket. All of the logic under \<^verbatim>\<open>src/backend\<close> and the migrations under \<^verbatim>\<open>src/alembic\<close> is modelled.


  STATE. The state is the \<open>world\<close>: the Redis server and the committed tables. An operation is a function
  \<open>(result, state) comp\<close> from a state to a result and the next state; a raised exception is \<open>Inl\<close> of the
  datatype \<open>exc\<close>, which has the program's exceptions, \<open>HTTPException\<close> with its status code included.
  \<open>bind\<close> is sequencing and \<open>catch\<close> is \<^verbatim>\<open>except\<close>; \<open>on_redis\<close> and \<open>on_db\<close> lift an operation of one half to the
  world. A database session is a computation on a working copy of the tables with \<open>db_flush\<close>, \<open>db_commit\<close>
  and \<open>with_session\<close>. What can vary from run to run (failing statements, clocks, new keys, the order of
  ties, the answers of the language model) is an argument and never a choice of the model: the
  properties hold for every value of it that satisfies their hypotheses.


  THEORIES, and the files they model.

  \<^item> \<open>Prelude\<close>: exceptions, sequencing, the composition of step relations (\<open>step_rules\<close>), list lemmas.
  \<open>PyText\<close>, \<open>PyFloat\<close>, \<open>Float_Arith\<close>, \<open>Identity\<close>, \<open>Json\<close>: the parts of Python's standard library in use:
  text, binary64 numbers and their rounded arithmetic, UUIDs as 128-bit words, datetimes with ISO text, and
  \<^verbatim>\<open>json\<close>.
  \<^item> \<open>Redis\<close>, \<open>Cache\<close>, \<open>Idempotency\<close>, \<open>Checkpoint\<close>: \<^verbatim>\<open>core/cache.py\<close>, \<^verbatim>\<open>services/idempotency.py\<close>,
  \<^verbatim>\<open>graph/checkpoint.py\<close> on a Redis client that is a parameter with laws.
  \<^item> \<open>Enums\<close>, \<open>Database\<close>, \<open>Repositories\<close>, \<open>Ranking\<close>: \<^verbatim>\<open>database/enums.py\<close>, \<^verbatim>\<open>models/\<close>, \<^verbatim>\<open>session.py\<close>,
  \<^verbatim>\<open>repositories/\<close>, \<^verbatim>\<open>services/audit.py\<close>; a table is the list of its rows.
  \<^item> \<open>World\<close>: \<^verbatim>\<open>config/settings.py\<close>, the records of what is handed to CrewAI (model, tools, agent, task), and the
  record \<open>env\<close> of the parameters.
  \<^item> \<open>Policy\<close>: \<^verbatim>\<open>policy/rules.py\<close>. \<open>Knowledge_Tool\<close>, \<open>Agents\<close>, \<open>Classifier\<close>: \<^verbatim>\<open>tools/knowledge_base.py\<close>,
  \<^verbatim>\<open>agents/\<close>, \<^verbatim>\<open>graph/classifier.py\<close>. \<open>Workflow\<close>, \<open>Workflow_Typing\<close>, \<open>Escalation\<close>:
  \<^verbatim>\<open>graph/state.py\<close>, \<^verbatim>\<open>nodes.py\<close>, \<^verbatim>\<open>workflow.py\<close>: the nodes and the graph, the keys of the state that each
  node may write and has to find, and what a run does to the tables.
  \<^item> \<open>Ticket_Service\<close>, \<open>Ticket_Creation\<close>, \<open>Ticket_Outcomes\<close>, \<open>Idempotency_Protocol\<close>: \<^verbatim>\<open>services/ticket.py\<close>,
  \<^verbatim>\<open>schemas/ticket.py\<close>, \<^verbatim>\<open>api/routes/tickets.py\<close>, for one request and for interleaved ones.
  \<^item> \<open>Auth\<close>, \<open>Supervisor_Api\<close>, \<open>Supervisor_Queue\<close>: \<^verbatim>\<open>auth/\<close>, \<^verbatim>\<open>core/security.py\<close>, \<^verbatim>\<open>api/supervisor.py\<close>, the
  other routes and their schemas.
  \<^item> \<open>Application\<close>: \<^verbatim>\<open>main.py\<close>, \<^verbatim>\<open>core/logging.py\<close>, \<^verbatim>\<open>core/rate_limit.py\<close>. \<open>Async_Bridge\<close>:
  \<^verbatim>\<open>core/asyncio_utils.py\<close>, \<^verbatim>\<open>core/redis_client.py\<close>, the registry of \<^verbatim>\<open>session.py\<close>.
  \<^item> \<open>Seed_Data\<close>, \<open>Seed\<close>, \<open>Seed_Facts\<close>; \<open>Load_Test\<close>, \<open>Load_Test_Run\<close>; \<open>Scripts\<close>: \<^verbatim>\<open>scripts/seed.py\<close>, \<^verbatim>\<open>load_test.py\<close>,
  \<^verbatim>\<open>run_workflow.py\<close>, \<^verbatim>\<open>export_workflow.py\<close>, \<^verbatim>\<open>test_openai.py\<close>.
  \<^item> \<open>Schema\<close>, \<open>Migrations\<close>, \<open>Migrations_Facts\<close>, \<open>Migration_Env\<close>: \<^verbatim>\<open>alembic/\<close>, with its online transaction and
  its offline script, and \<^verbatim>\<open>database/base.py\<close>.
  \<^item> \<open>Ticket_Lifecycle\<close>, \<open>Api_Invariant\<close>: from the creation of a ticket to its decision, and any number of
  requests to any route, over all of the above.
  \<^item> \<open>Samples\<close>, \<open>Witnesses\<close>, \<open>Api_Witnesses\<close>, \<open>Seed_Witnesses\<close>: concrete parameters, and inputs at which the
  hypotheses of the properties hold together.


  INTERFACES. Three locales. \<open>memo_store\<close> (in \<open>Cache\<close>): a store that may forget but never invents, with the
  code's \<^verbatim>\<open>RedisCache\<close> as its interpretation; that the classifier's and the search tool's answers are those
  of the thing they cache rests on it. \<open>once_store\<close> (in \<open>Idempotency\<close>): at most one claim, interpreted on
  \<^verbatim>\<open>IdempotencyStore\<close>. \<open>table\<close> (in \<open>Seed_Facts\<close>): adding rows one by one, interpreted on the four tables
  that the script fills.


  WHAT THE LEMMAS SHOW. An outcome lemma per operation says what it answers and what it changes, errors
  included; the properties are read off these. The workflow is typed: a node writes its own keys only
  and finds the keys it reads, and a run with the clients constructed ends. Invariants:
  \<open>db_wf\<close> (keys, foreign keys, lengths, unique e-mails) is kept by every request and by
  seeding; over any number of requests to all routes (\<open>api_step\<close>) decided requests have a
  supervisor as reviewer and are never pending again, and no row but a review is ever changed. Two step
  relations with invariants by rule induction, \<open>proto\<close> (requests with one key, refining the
  abstract \<open>once\<close>; each run of \<open>create_ticket\<close> is a sequence of its steps) and \<open>bridge_step\<close> (threads that start the background loop),
  show what holds under every interleaving; \<open>later\<close>, \<open>supervisor_step\<close> and \<open>api_step\<close>
  cover any sequence of requests. A run of the workflow that raises leaves the tables as they were
  (\<open>reaches_last\<close>). Refinements: the cached classifier and search against the uncached
  ones, the policy against its list of rules. Round trips: JSON, UUIDs, datetimes, checkpoints,
  responses, tokens. The migrations are shown equal to the metadata of the models, by evaluation, in
  each direction and one revision at a time, and the script of an offline run is shown to do the same upgrade.


  BOUNDS AND FUEL. LangGraph's recursion limit, 25 steps, is the fuel of \<open>graph_run\<close>; the six nodes need
  seven, every limit from seven on gives the same run, and the properties about \<open>invoke\<close> state that it
  returns. The JSON parser takes twice the length of its input, and two, as fuel: no text that parses with
  some fuel is refused with this one (\<open>json_loads_complete\<close>). Downgrading and upgrading
  visit each revision once, so their number is enough. A character is a code point below 256; other text
  is outside the model. Datetimes have microseconds and a year from 1 to 9999, UUIDs 128 bits; integers
  are unbounded as in Python. A float is a rational rounded to binary64, an infinity or a NaN.


  PARAMETERS, and what is assumed of them. The Redis client (\<open>redis_laws\<close>: it raises only \<^verbatim>\<open>RedisError\<close>, keys
  may expire at any time, a failed write may have happened; the properties on replays add that it answers
  and nothing expires at that moment, \<open>redis_steady\<close>, and the one that ties \<open>create_ticket\<close> to \<open>proto\<close> that the
  record of the key does not time out, \<open>no_expiry\<close>), SHA-256, PostgreSQL and SQLAlchemy (\<open>db_env\<close>:
  any statement may fail), the OpenAI client (\<open>clients_ok\<close>: the client, the agents, and the task and crew of each can be constructed),
  CrewAI (\<open>kickoff_law\<close>: running the task of a specialist changes the world only by a sequence of calls of the
  tools that its agent was given), bcrypt, jose and Pydantic's datetime conversion
  (\<open>jwt_laws\<close>). Each is satisfied by a concrete function in \<open>Samples\<close> or \<open>Api_Witnesses\<close>.


  NOT MODELLED. What the libraries do: slowapi's counting of requests, FastAPI's dispatch and header
  parsing, Starlette's middleware stack, asyncio's scheduling beyond the two step relations above, the
  engine under SQLAlchemy. The calls of the logger, except where a message is what a script is for (the
  summary of the load test, the state of the smoke run). The package initialisers, which only re-export, and
  the front end and the tests.
\<close>

end
